(* ===== verification/FePrelude.thy ===== *)
theory FePrelude
  imports Main "HOL-Library.AList" "HOL-Library.Word" "HOL-Library.Sublist"
begin

text \<open>
  Shared ground of the development: the machine integers of the source as words, the result
  monad in which the fallible, stateful Rust functions are written (the \<open>?\<close> operator is
  \<open>bindE\<close>, an early \<open>return Err\<close> is \<open>throw\<close>), the preservation calculus that
  carries the invariant proofs, and generic lemmas on lists and association lists.
\<close>

named_theorems io_defs "definitions of the result monad"
named_theorems runs "what a successful or failed run of a monadic step means"
named_theorems keeps_intros "composition rules of the preservation calculus"

type_synonym u8 = "8 word"
type_synonym u16 = "16 word"
type_synonym u32 = "32 word"
type_synonym u64 = "64 word"

section \<open>The result monad\<close>

type_synonym ('s, 'e, 'a) io = "'s \<Rightarrow> ('e + 'a) \<times> 's"

definition ret :: "'a \<Rightarrow> ('s, 'e, 'a) io" where
  [io_defs]: "ret a = (\<lambda>s. (Inr a, s))"

definition throw :: "'e \<Rightarrow> ('s, 'e, 'a) io" where
  [io_defs]: "throw e = (\<lambda>s. (Inl e, s))"

definition bindE :: "('s, 'e, 'a) io \<Rightarrow> ('a \<Rightarrow> ('s, 'e, 'b) io) \<Rightarrow> ('s, 'e, 'b) io" where
  [io_defs]: "bindE m f = (\<lambda>s. case m s of (Inl e, s') \<Rightarrow> (Inl e, s') | (Inr a, s') \<Rightarrow> f a s')"

text \<open>\<open>match m { Ok .., Err .. }\<close>, \<open>let _ = m\<close> and \<open>m.ok()\<close>: the result becomes a value.\<close>

definition attempt :: "('s, 'e, 'a) io \<Rightarrow> ('s, 'f, 'e + 'a) io" where
  [io_defs]: "attempt m = (\<lambda>s. case m s of (r, s') \<Rightarrow> (Inr r, s'))"

text \<open>\<open>m.map_err(f)\<close>\<close>

definition map_err :: "('e \<Rightarrow> 'f) \<Rightarrow> ('s, 'e, 'a) io \<Rightarrow> ('s, 'f, 'a) io" where
  [io_defs]: "map_err f m = (\<lambda>s. case m s of (Inl e, s') \<Rightarrow> (Inl (f e), s') | (Inr a, s') \<Rightarrow> (Inr a, s'))"

definition asks :: "('s \<Rightarrow> 'a) \<Rightarrow> ('s, 'e, 'a) io" where
  [io_defs]: "asks f = (\<lambda>s. (Inr (f s), s))"

definition modify :: "('s \<Rightarrow> 's) \<Rightarrow> ('s, 'e, unit) io" where
  [io_defs]: "modify f = (\<lambda>s. (Inr (), f s))"

definition of_result :: "'e + 'a \<Rightarrow> ('s, 'e, 'a) io" where
  [io_defs]: "of_result r = (\<lambda>s. (r, s))"

definition whenE :: "bool \<Rightarrow> ('s, 'e, unit) io \<Rightarrow> ('s, 'e, unit) io" where
  [io_defs]: "whenE b m = (if b then m else ret ())"

primrec for_each :: "('b \<Rightarrow> ('s, 'e, unit) io) \<Rightarrow> 'b list \<Rightarrow> ('s, 'e, unit) io" where
  "for_each f [] = ret ()"
| "for_each f (x # xs) = bindE (f x) (\<lambda>_. for_each f xs)"

lemma ret_run [runs]: "ret a s = (r, s') \<longleftrightarrow> r = Inr a \<and> s' = s"
  by (auto simp: ret_def)

lemma throw_run [runs]: "throw e s = (r, s') \<longleftrightarrow> r = Inl e \<and> s' = s"
  by (auto simp: throw_def)

lemma asks_run [runs]: "asks f s = (r, s') \<longleftrightarrow> r = Inr (f s) \<and> s' = s"
  by (auto simp: asks_def)

lemma modify_run [runs]: "modify f s = (r, s') \<longleftrightarrow> r = Inr () \<and> s' = f s"
  by (auto simp: modify_def)

lemma of_result_run [runs]: "of_result q s = (r, s') \<longleftrightarrow> q = r \<and> s' = s"
  by (auto simp: of_result_def)

lemma bindE_Inr [runs]:
  "bindE m f s = (Inr b, s') \<longleftrightarrow> (\<exists>a s1. m s = (Inr a, s1) \<and> f a s1 = (Inr b, s'))"
  by (auto simp: bindE_def split: prod.splits sum.splits)

lemma bindE_Inl [runs]:
  "bindE m f s = (Inl e, s') \<longleftrightarrow>
     m s = (Inl e, s') \<or> (\<exists>a s1. m s = (Inr a, s1) \<and> f a s1 = (Inl e, s'))"
  by (auto simp: bindE_def split: prod.splits sum.splits)

lemma attempt_run [runs]: "attempt m s = (r, s') \<longleftrightarrow> (\<exists>q. r = Inr q \<and> m s = (q, s'))"
  by (auto simp: attempt_def split: prod.splits)

lemma map_err_Inr [runs]: "map_err f m s = (Inr a, s') \<longleftrightarrow> m s = (Inr a, s')"
  by (auto simp: map_err_def split: prod.splits sum.splits)

lemma map_err_Inl [runs]: "map_err f m s = (Inl e, s') \<longleftrightarrow> (\<exists>e0. m s = (Inl e0, s') \<and> e = f e0)"
  by (auto simp: map_err_def split: prod.splits sum.splits)

lemma whenE_run [runs]:
  "whenE b m s = (r, s') \<longleftrightarrow> (if b then m s = (r, s') else r = Inr () \<and> s' = s)"
  by (auto simp: whenE_def ret_def)

lemma bindE_ret [simp]: "bindE (ret a) f = f a"
  by (simp add: io_defs)

lemma bindE_throw [simp]: "bindE (throw e) f = throw e"
  by (simp add: io_defs)

lemma bindE_assoc: "bindE (bindE m f) g = bindE m (\<lambda>a. bindE (f a) g)"
  by (rule ext) (simp add: bindE_def split: prod.splits sum.splits)

lemma bindE_if: "bindE (if b then m else n) f = (if b then bindE m f else bindE n f)"
  by simp

text \<open>Evaluating a chain: the next step runs on what the first one returned.\<close>

lemma bindE_eval_Inr: "m s = (Inr a, s1) \<Longrightarrow> bindE m f s = f a s1"
  by (simp add: bindE_def)

lemma bindE_eval_Inl: "m s = (Inl e, s1) \<Longrightarrow> bindE m f s = (Inl e, s1)"
  by (simp add: bindE_def)

text \<open>How a concrete run ended, from its first component.\<close>

lemma succeeds: "\<not> isl (fst p) \<Longrightarrow> p = (Inr (), snd p)"
  by (cases p; cases "fst p") auto

lemma fails: "isl (fst p) \<Longrightarrow> p = (Inl (projl (fst p)), snd p)"
  by (cases p; cases "fst p") auto

section \<open>Preservation\<close>

text \<open>
  \<open>keeps P m\<close>: whatever \<open>m\<close> returns, a result or an error, \<open>P\<close> still holds of the
  state afterwards if it held before. The rules below follow the shape of the programs.
\<close>

definition keeps :: "('s \<Rightarrow> bool) \<Rightarrow> ('s, 'e, 'a) io \<Rightarrow> bool" where
  "keeps P m \<longleftrightarrow> (\<forall>s r s'. m s = (r, s') \<longrightarrow> P s \<longrightarrow> P s')"

lemma keepsI: "(\<And>s r s'. m s = (r, s') \<Longrightarrow> P s \<Longrightarrow> P s') \<Longrightarrow> keeps P m"
  by (auto simp: keeps_def)

lemma keepsD: "keeps P m \<Longrightarrow> m s = (r, s') \<Longrightarrow> P s \<Longrightarrow> P s'"
  by (auto simp: keeps_def)

lemma keeps_ret [keeps_intros]: "keeps P (ret a)"
  by (auto simp: keeps_def ret_def)

lemma keeps_throw [keeps_intros]: "keeps P (throw e)"
  by (auto simp: keeps_def throw_def)

lemma keeps_asks [keeps_intros]: "keeps P (asks f)"
  by (auto simp: keeps_def asks_def)

lemma keeps_of_result [keeps_intros]: "keeps P (of_result r)"
  by (auto simp: keeps_def of_result_def)

lemma keeps_bindE [keeps_intros]: "keeps P m \<Longrightarrow> (\<And>a. keeps P (f a)) \<Longrightarrow> keeps P (bindE m f)"
  by (fastforce simp: keeps_def bindE_def split: prod.splits sum.splits)

text \<open>The same with what the first step is known to return.\<close>

lemma keeps_bindE_result:
  "keeps P m \<Longrightarrow> (\<And>s a s'. m s = (Inr a, s') \<Longrightarrow> P s \<Longrightarrow> keeps P (f a)) \<Longrightarrow> keeps P (bindE m f)"
  by (fastforce simp: keeps_def bindE_def split: prod.splits sum.splits)

lemma keeps_attempt [keeps_intros]: "keeps P m \<Longrightarrow> keeps P (attempt m)"
  by (auto simp: keeps_def attempt_def split: prod.splits)

lemma keeps_map_err [keeps_intros]: "keeps P m \<Longrightarrow> keeps P (map_err f m)"
  by (fastforce simp: keeps_def map_err_def split: prod.splits sum.splits)

lemma keeps_whenE [keeps_intros]: "(b \<Longrightarrow> keeps P m) \<Longrightarrow> keeps P (whenE b m)"
  by (auto simp: whenE_def intro: keeps_ret)

lemma keeps_if [keeps_intros]: "(b \<Longrightarrow> keeps P m) \<Longrightarrow> (\<not> b \<Longrightarrow> keeps P n) \<Longrightarrow> keeps P (if b then m else n)"
  by simp

lemma keeps_case_option [keeps_intros]:
  "(x = None \<Longrightarrow> keeps P m) \<Longrightarrow> (\<And>a. x = Some a \<Longrightarrow> keeps P (f a)) \<Longrightarrow>
   keeps P (case x of None \<Rightarrow> m | Some a \<Rightarrow> f a)"
  by (cases x) auto

lemma keeps_case_sum [keeps_intros]:
  "(\<And>e. x = Inl e \<Longrightarrow> keeps P (f e)) \<Longrightarrow> (\<And>a. x = Inr a \<Longrightarrow> keeps P (g a)) \<Longrightarrow>
   keeps P (case x of Inl e \<Rightarrow> f e | Inr a \<Rightarrow> g a)"
  by (cases x) auto

lemma keeps_case_prod [keeps_intros]:
  "(\<And>a b. x = (a, b) \<Longrightarrow> keeps P (f a b)) \<Longrightarrow> keeps P (case x of (a, b) \<Rightarrow> f a b)"
  by (cases x) auto

lemma keeps_modify: "(\<And>s. P s \<Longrightarrow> P (f s)) \<Longrightarrow> keeps P (modify f)"
  by (auto simp: keeps_def modify_def)

lemma keeps_for_each [keeps_intros]: "(\<And>x. x \<in> set xs \<Longrightarrow> keeps P (f x)) \<Longrightarrow> keeps P (for_each f xs)"
  by (induction xs) (auto intro!: keeps_intros)

lemma keeps_conj: "keeps P m \<Longrightarrow> keeps Q m \<Longrightarrow> keeps (\<lambda>s. P s \<and> Q s) m"
  by (fastforce simp: keeps_def)

text \<open>The same for failed runs only: the last step of a chain may change the state if it succeeds.\<close>

definition errs_keep :: "('s \<Rightarrow> bool) \<Rightarrow> ('s, 'e, 'a) io \<Rightarrow> bool" where
  "errs_keep P m \<longleftrightarrow> (\<forall>s e s'. m s = (Inl e, s') \<longrightarrow> P s \<longrightarrow> P s')"

lemma errs_keepD: "errs_keep P m \<Longrightarrow> m s = (Inl e, s') \<Longrightarrow> P s \<Longrightarrow> P s'"
  by (auto simp: errs_keep_def)

lemma errs_keep_keeps: "keeps P m \<Longrightarrow> errs_keep P m"
  by (auto simp: errs_keep_def keeps_def)

lemma errs_keep_bindE: "keeps P m \<Longrightarrow> (\<And>a. errs_keep P (f a)) \<Longrightarrow> errs_keep P (bindE m f)"
  by (fastforce simp: errs_keep_def keeps_def bindE_def split: prod.splits sum.splits)

text \<open>A chain that starts in \<open>P\<close>, leaves it for \<open>R\<close> in one step and stays there.\<close>

definition ends_in :: "('s \<Rightarrow> bool) \<Rightarrow> ('s, 'e, 'a) io \<Rightarrow> ('s \<Rightarrow> bool) \<Rightarrow> bool" where
  "ends_in P m R \<longleftrightarrow> (\<forall>s r s'. m s = (r, s') \<longrightarrow> P s \<longrightarrow> R s')"

lemma ends_inD: "ends_in P m R \<Longrightarrow> m s = (r, s') \<Longrightarrow> P s \<Longrightarrow> R s'"
  by (auto simp: ends_in_def)

lemma ends_in_before:
  "(\<And>s. P s \<Longrightarrow> R s) \<Longrightarrow> keeps P m \<Longrightarrow> (\<And>a. ends_in P (f a) R) \<Longrightarrow> ends_in P (bindE m f) R"
  by (fastforce simp: ends_in_def keeps_def bindE_def split: prod.splits sum.splits)

lemma ends_in_step: "ends_in P m R \<Longrightarrow> (\<And>a. keeps R (f a)) \<Longrightarrow> ends_in P (bindE m f) R"
  by (fastforce simp: ends_in_def keeps_def bindE_def split: prod.splits sum.splits)

section \<open>Association lists\<close>

lemma map_of_alist_update [simp]: "map_of (AList.update k v al) = (map_of al)(k \<mapsto> v)"
  by (rule AList.update_conv')

lemma map_of_alist_delete [simp]: "map_of (AList.delete k al) = (map_of al)(k := None)"
  by (rule AList.delete_conv')

lemma keys_alist_delete: "map fst (AList.delete k al) = removeAll k (map fst al)"
  by (simp add: AList.delete_keys)

end
