(* ===== verification/RustPath.thy ===== *)
theory RustPath
  imports RustStr
begin

text \<open>
  Rust's \<open>Path\<close> and \<open>PathBuf\<close> on Unix, as the strings they are, and what the kernel makes
  of an absolute path. \<open>join\<close> is \<open>PathBuf::push\<close>: an absolute argument replaces the
  path. \<open>resolve\<close> is the list of names from the root of the file system, with empty names and
  \<open>.\<close> dropped and \<open>..\<close> going up; paths are absolute and no directory on the way is a
  symbolic link, so that going up is lexical.
\<close>

type_synonym pathbuf = string
type_synonym fpath = "string list"

definition is_absolute :: "pathbuf \<Rightarrow> bool" where
  "is_absolute p \<longleftrightarrow> p \<noteq> [] \<and> hd p = slash"

definition join :: "pathbuf \<Rightarrow> string \<Rightarrow> pathbuf" where
  "join p s =
     (if is_absolute s then s
      else if p = [] \<or> last p = slash then p @ s
      else p @ slash # s)"

fun norm :: "fpath \<Rightarrow> string list \<Rightarrow> fpath" where
  "norm acc [] = rev acc"
| "norm acc (c # cs) =
     (if c = [] \<or> c = ''.'' then norm acc cs
      else if c = ''..'' then norm (tl acc) cs
      else norm (c # acc) cs)"

definition resolve :: "pathbuf \<Rightarrow> fpath" where
  "resolve p = norm [] (split_on slash p)"

text \<open>\<open>Path::components\<close>, the root as its own component, and the relations built on it.\<close>

definition comps :: "pathbuf \<Rightarrow> string list" where
  "comps p =
     (let ps = split_on slash p; named = filter (\<lambda>c. c \<noteq> [] \<and> c \<noteq> ''.'')
      in if is_absolute p then [slash] # named ps
         else (if hd ps = ''.'' then [''.''] else []) @ named ps)"

definition path_starts_with :: "pathbuf \<Rightarrow> pathbuf \<Rightarrow> bool" where
  "path_starts_with p base \<longleftrightarrow> prefix (comps base) (comps p)"

definition path_parent :: "pathbuf \<Rightarrow> pathbuf option" where
  "path_parent p =
     (let cs = comps p
      in if cs = [] \<or> cs = [[slash]] then None
         else if is_absolute p then Some (slash # str_join [slash] (tl (butlast cs)))
         else Some (str_join [slash] (butlast cs)))"

text \<open>A name that is a single path segment: what \<open>join\<close> appends as one name.\<close>

definition seg_ok :: "string \<Rightarrow> bool" where
  "seg_ok s \<longleftrightarrow> s \<noteq> [] \<and> slash \<notin> set s \<and> s \<noteq> ''.'' \<and> s \<noteq> ''..''"

lemma norm_append: "norm acc (xs @ ys) = norm (rev (norm acc xs)) ys"
  by (induction acc xs rule: norm.induct) auto

lemma resolve_Nil [simp]: "resolve [] = []"
  by (simp add: resolve_def)

lemma seg_ok_not_absolute: "seg_ok s \<Longrightarrow> \<not> is_absolute s"
  by (cases s) (auto simp: seg_ok_def is_absolute_def)

lemma norm_seg: "seg_ok s \<Longrightarrow> norm acc [s] = rev (s # acc)"
  by (auto simp: seg_ok_def)

text \<open>Joining one segment goes exactly one name down.\<close>

lemma resolve_join: "seg_ok s \<Longrightarrow> resolve (join p s) = resolve p @ [s]"
proof -
  assume s: "seg_ok s"
  then have sp: "split_on slash s = [s]" by (auto simp: seg_ok_def intro: split_on_none)
  have abs: "\<not> is_absolute s" using s by (rule seg_ok_not_absolute)
  consider (empty) "p = []" | (sep) a where "p = a @ [slash]" | (plain) "p \<noteq> []" "last p \<noteq> slash"
    by (metis append_butlast_last_id)
  then show ?thesis
  proof cases
    case empty
    with abs sp s show ?thesis by (simp add: join_def resolve_def norm_seg seg_ok_def)
  next
    case sep
    have "split_on slash (p @ s) = split_on slash a @ [s]"
      by (simp add: sep split_on_append sp)
    moreover have "split_on slash p = split_on slash a @ [[]]"
      using sep split_on_append [of slash a "[]"] by simp
    ultimately show ?thesis
      using sep abs s by (simp add: join_def resolve_def norm_append norm_seg del: norm.simps)
         (simp add: seg_ok_def)
  next
    case plain
    with abs s sp show ?thesis
      by (simp add: join_def resolve_def split_on_append norm_append norm_seg del: norm.simps)
  qed
qed

lemma norm_no_dotdot: "''..'' \<notin> set cs \<Longrightarrow> norm acc cs = rev acc @ filter (\<lambda>c. c \<noteq> [] \<and> c \<noteq> ''.'') cs"
  by (induction cs arbitrary: acc) auto

lemma resolve_no_dotdot:
  "''..'' \<notin> set (split_on slash p) \<Longrightarrow>
   resolve p = filter (\<lambda>c. c \<noteq> [] \<and> c \<noteq> ''.'') (split_on slash p)"
  by (simp add: resolve_def norm_no_dotdot)

text \<open>Two paths neither of which is an ancestor of the other.\<close>

lemma parallel_snoc: "a \<noteq> b \<Longrightarrow> (p @ a # q) \<parallel> (p @ b # q')"
  by (auto simp: parallel_def prefix_def)

lemma parallel_sym: "p \<parallel> q \<longleftrightarrow> q \<parallel> p"
  by (auto simp: parallel_def)

end
