(* ===== verification/Schema.thy ===== *)
theory Schema
  imports RustPath
begin

text \<open>
  The data the program persists or prints: the registry document (src/registry.rs), the base
  metadata (src/build_base.rs), the project VM record (src/host_control_plane.rs), and JSON
  values. Hash maps are association lists with distinct keys.
\<close>

section \<open>Registry document\<close>

record base_entry =
  lower_path :: pathbuf
  meta_path :: pathbuf
  base_created_at :: string
  cache_lower_paths :: "pathbuf list"

datatype quota_mode = Soft | Hard

record fork_entry =
  base_key :: string
  upper_path :: pathbuf
  work_path :: pathbuf
  merged_path :: "pathbuf option"
  quota_bytes :: "u64 option"
  quota_mode :: quota_mode
  fork_created_at :: string
  labels :: "(string \<times> string) list"

record registry_doc =
  bases :: "(string \<times> base_entry) list"
  forks :: "(string \<times> fork_entry) list"

definition default_registry_doc :: registry_doc where
  "default_registry_doc = \<lparr>bases = [], forks = []\<rparr>"

definition wf_doc :: "registry_doc \<Rightarrow> bool" where
  "wf_doc d \<longleftrightarrow> distinct (map fst (bases d)) \<and> distinct (map fst (forks d))"

section \<open>Base metadata\<close>

record base_meta =
  layer_digest :: string
  source_path :: pathbuf
  meta_created_at :: string
  cache_names :: "string list"

section \<open>Project VM record\<close>

datatype vm_state = Provisioned | Running | Stopped

datatype network_policy =
    NP_None
  | NP_PackageMirrorOnly "string option"
  | NP_Allowlist "string list"
  | NP_AuditedEgress "string list"

record secret_lease =
  secret_name :: string
  scope :: string
  expires_at :: string
  secret_value :: string

record artifact_record =
  art_name :: string
  art_kind :: string
  art_path :: pathbuf
  art_digest :: "string option"

record host_ebpf_policy =
  pol_name :: string
  pol_attach_point :: string
  pol_object_path :: pathbuf
  tc_attach_handle :: "string option"
  pin_path :: "string option"
  loaded_at :: "string option"

record project_vm_spec =
  spec_project_id :: string
  spec_kernel_ref :: "string option"
  spec_seed_data_refs :: "string list"
  spec_network_policy :: network_policy

record project_vm_record =
  project_id :: string
  rec_vm_dir :: pathbuf
  firecracker_sock :: pathbuf
  kernel_path :: pathbuf
  rootfs_path :: pathbuf
  workspace_path :: pathbuf
  cache_dir :: pathbuf
  logs_dir :: pathbuf
  artifacts_dir :: pathbuf
  rec_state_path :: pathbuf
  vm_state :: vm_state
  kernel_ref :: "string option"
  seed_data_refs :: "string list"
  network_policy :: network_policy
  secrets :: "secret_lease list"
  artifacts :: "artifact_record list"
  host_ebpf_policy :: "host_ebpf_policy option"
  vm_created_at :: string
  vm_updated_at :: string

datatype vm_boot_error =
    BinaryNotFound pathbuf
  | KvmUnavailable string
  | ProcessExitedEarly string string
  | SocketTimeout pathbuf u64
  | ApiCallFailed string string
  | AlreadyRunning string
  | NotRunning string vm_state

section \<open>JSON values\<close>

text \<open>What \<open>serde_json\<close> writes, before it is rendered; field order is the source's. A double is the
  fraction it is exactly, numerator and denominator.\<close>

datatype json = JNull | JBool bool | JNum int | JFrac int int | JStr string | JArr "json list" | JObj "(string \<times> json) list"

end
