(* ===== verification/World.thy ===== *)
theory World
  imports Schema
begin

text \<open>
  What the program acts on: the file tree, the kernel's mount table, the lines it prints, and the
  processes, BPF pins, descriptors and filters it leaves in the kernel. Operations of
  \<open>std::fs\<close> are functions on the tree; each may also fail for a reason outside the tree
  (permission, a full disk), which the parameter \<open>fault\<close> decides. The mount and umount
  system calls, the project-quota ioctls, the text of /proc/mounts, the clock, time formatting and parsing and the reading
  of a registry file nobody of this program wrote are parameters too, in the record \<open>env\<close>.
\<close>

section \<open>File tree\<close>

type_synonym errno = nat

abbreviation (input) ENOENT :: errno where "ENOENT \<equiv> 2"
abbreviation (input) EBUSY :: errno where "EBUSY \<equiv> 16"
abbreviation (input) ENOTDIR :: errno where "ENOTDIR \<equiv> 20"
abbreviation (input) EISDIR :: errno where "EISDIR \<equiv> 21"
abbreviation (input) ENOTEMPTY :: errno where "ENOTEMPTY \<equiv> 39"

text \<open>A file holds raw bytes, or a JSON document as the value it was written from.\<close>

datatype content =
    Raw "u8 list"
  | RegistryJson registry_doc
  | MetaJson base_meta
  | VmJson project_vm_record
  | JsonDoc json

datatype node = RegFile content | Dir "(string \<times> node) list" | Symlink string | CharDev nat | Special

fun tlookup :: "node \<Rightarrow> fpath \<Rightarrow> node option" where
  "tlookup t [] = Some t"
| "tlookup (Dir es) (x # xs) = (case map_of es x of None \<Rightarrow> None | Some c \<Rightarrow> tlookup c xs)"
| "tlookup t (x # xs) = None"

fun tset :: "fpath \<Rightarrow> node \<Rightarrow> node \<Rightarrow> node option" where
  "tset [] new t = Some new"
| "tset (x # xs) new (Dir es) =
     (case map_of es x of
        None \<Rightarrow> if xs = [] then Some (Dir (AList.update x new es)) else None
      | Some c \<Rightarrow> map_option (\<lambda>c'. Dir (AList.update x c' es)) (tset xs new c))"
| "tset (x # xs) new t = None"

fun tdel :: "fpath \<Rightarrow> node \<Rightarrow> node" where
  "tdel [x] (Dir es) = Dir (AList.delete x es)"
| "tdel (x # y # ys) (Dir es) =
     (case map_of es x of None \<Rightarrow> Dir es | Some c \<Rightarrow> Dir (AList.update x (tdel (y # ys) c) es))"
| "tdel p t = t"

fun tmkdir :: "fpath \<Rightarrow> node \<Rightarrow> node option" where
  "tmkdir [] (Dir es) = Some (Dir es)"
| "tmkdir (x # xs) (Dir es) =
     (case map_of es x of
        None \<Rightarrow> map_option (\<lambda>c'. Dir (AList.update x c' es)) (tmkdir xs (Dir []))
      | Some c \<Rightarrow> map_option (\<lambda>c'. Dir (AList.update x c' es)) (tmkdir xs c))"
| "tmkdir p t = None"

lemma tlookup_append:
  "tlookup t (p @ q) = (case tlookup t p of None \<Rightarrow> None | Some n \<Rightarrow> tlookup n q)"
  by (induction t p rule: tlookup.induct) (auto split: option.splits)

lemma tlookup_append_None: "tlookup t p = None \<Longrightarrow> tlookup t (p @ q) = None"
  by (simp add: tlookup_append)

lemma tset_lookup: "tset p n t = Some t' \<Longrightarrow> tlookup t' (p @ q) = tlookup n q"
  by (induction p n t arbitrary: t' rule: tset.induct) (auto split: option.splits if_splits)

lemma tset_lookup_self: "tset p n t = Some t' \<Longrightarrow> tlookup t' p = Some n"
  using tset_lookup [of p n t t' "[]"] by simp

lemma tdel_lookup: "p \<noteq> [] \<Longrightarrow> tlookup (tdel p t) (p @ q) = None"
proof (induction p t rule: tdel.induct)
  case (1 x es)
  then show ?case by simp
next
  case (2 x y ys es)
  then show ?case by (auto split: option.splits)
qed (auto simp: neq_Nil_conv)

lemma parallel_Cons: "(x # xs) \<parallel> (y # ys) \<longleftrightarrow> x \<noteq> y \<or> xs \<parallel> ys"
  by (auto simp: parallel_def)

lemma parallel_NilD [simp]: "\<not> [] \<parallel> q" "\<not> q \<parallel> []"
  by (auto simp: parallel_def)

lemma tset_parallel: "tset p n t = Some t' \<Longrightarrow> p \<parallel> q \<Longrightarrow> tlookup t' q = tlookup t q"
proof (induction p n t arbitrary: t' q rule: tset.induct)
  case (2 x xs new es)
  then obtain y ys where q: "q = y # ys" by (cases q) auto
  from 2 q show ?case
    by (cases "y = x") (auto simp: parallel_Cons split: option.splits if_splits)
qed auto

lemma tdel_parallel: "p \<parallel> q \<Longrightarrow> tlookup (tdel p t) q = tlookup t q"
proof (induction p t arbitrary: q rule: tdel.induct)
  case (1 x es)
  then obtain y ys where q: "q = y # ys" by (cases q) auto
  with 1 show ?case by (auto simp: parallel_Cons)
next
  case (2 x y ys es)
  then obtain z zs where q: "q = z # zs" by (cases q) auto
  from 2 q show ?case
    by (cases "z = x") (auto simp: parallel_Cons split: option.splits)
qed auto

lemma tmkdir_other: "tmkdir p t = Some t' \<Longrightarrow> \<not> prefix q p \<Longrightarrow> tlookup t' q = tlookup t q"
proof (induction p t arbitrary: t' q rule: tmkdir.induct)
  case (2 x xs es)
  then obtain y ys where q: "q = y # ys" by (cases q) auto
  have empty: "tlookup (Dir []) ys = None" if "\<not> prefix ys xs" using that by (cases ys) auto
  from 2 q show ?case
    by (cases "y = x") (auto split: option.splits simp: empty)
qed auto

lemma tmkdir_is_dir: "tmkdir p t = Some t' \<Longrightarrow> \<exists>es. tlookup t' p = Some (Dir es)"
  by (induction p t arbitrary: t' rule: tmkdir.induct) (auto split: option.splits)

text \<open>Making directories changes no leaf and makes no directory disappear.\<close>

definition is_leaf :: "node \<Rightarrow> bool" where
  "is_leaf n \<longleftrightarrow> (case n of Dir es \<Rightarrow> False | _ \<Rightarrow> True)"

lemma is_leaf_iff: "is_leaf n \<longleftrightarrow> (\<forall>es. n \<noteq> Dir es)"
  by (simp add: is_leaf_def split: node.splits)

lemma tmkdir_leaf:
  "tmkdir p t = Some t' \<Longrightarrow> tlookup t q = Some n \<Longrightarrow> is_leaf n \<Longrightarrow> tlookup t' q = Some n"
proof (induction p t arbitrary: t' q rule: tmkdir.induct)
  case (2 x xs es)
  from 2(4,5) obtain y ys where q: "q = y # ys" by (cases q) (auto simp: is_leaf_iff)
  from 2 q show ?case by (cases "y = x") (auto split: option.splits)
qed (auto simp: is_leaf_iff)

lemma tmkdir_dir:
  "tmkdir p t = Some t' \<Longrightarrow> tlookup t q = Some (Dir es) \<Longrightarrow> \<exists>es'. tlookup t' q = Some (Dir es')"
proof (induction p t arbitrary: t' q rule: tmkdir.induct)
  case (2 x xs es0)
  show ?case
  proof (cases q)
    case Nil
    with 2 show ?thesis by (auto split: option.splits)
  next
    case (Cons y ys)
    with 2 show ?thesis by (cases "y = x") (auto split: option.splits)
  qed
qed auto

lemma tmkdir_prefix:
  "tmkdir p t = Some t' \<Longrightarrow> prefix q p \<Longrightarrow> \<exists>es. tlookup t' q = Some (Dir es)"
proof (induction p t arbitrary: t' q rule: tmkdir.induct)
  case (2 x xs es0)
  from 2(4) consider "q = []" | ys where "q = x # ys" "prefix ys xs"
    by (cases q) auto
  then show ?case
  proof cases
    case 1
    with 2 show ?thesis by (auto split: option.splits)
  next
    case 2
    with "2.IH" "2.prems" show ?thesis by (auto split: option.splits)
  qed
qed auto

text \<open>A directory above the place of a change is still a directory.\<close>

lemma tset_above:
  "tset p n t = Some t' \<Longrightarrow> strict_prefix q p \<Longrightarrow> \<exists>es. tlookup t' q = Some (Dir es)"
proof (induction p n t arbitrary: t' q rule: tset.induct)
  case (2 x xs new es)
  then consider "q = []" | ys where "q = x # ys" "strict_prefix ys xs" by (cases q) auto
  then show ?case
    by cases (use 2 in \<open>auto split: option.splits if_splits\<close>)
qed auto

lemma tdel_above:
  "strict_prefix q p \<Longrightarrow> tlookup t q = Some (Dir es) \<Longrightarrow> \<exists>es'. tlookup (tdel p t) q = Some (Dir es')"
proof (induction p t arbitrary: q rule: tdel.induct)
  case (1 x es0)
  then show ?case by (cases q) auto
next
  case (2 x y ys es0)
  then consider "q = []" | zs where "q = x # zs" "strict_prefix zs (y # ys)" by (cases q) auto
  then show ?case by cases (use 2 in \<open>auto split: option.splits\<close>)
qed auto

section \<open>World and environment\<close>

record mount =
  mnt_source :: pathbuf
  mnt_target :: pathbuf
  mnt_fstype :: string
  mnt_bind :: bool
  mnt_data :: string

record fsxattr =
  fsx_xflags :: u32
  fsx_extsize :: u32
  fsx_nextents :: u32
  fsx_projid :: u32
  fsx_cowextsize :: u32

record world =
  fs :: node
  mtab :: "mount list"
  xattrs :: "(fpath \<times> fsxattr) list"
  stdout :: "json list"
  stderr :: "json list"
  rawout :: "u8 list"
  vmms :: "(nat \<times> string) list"
  open_fds :: "nat list"
  tc_filters :: "(string \<times> string) list"
  trace :: "json list"
  clock :: nat

datatype fs_op =
    CreateDirAll | RemoveDirAll | RemoveDir | RemoveFile | OpenRead | ReadDir | StatOp | OpenLock | FlockOp
  | TempFile | SerialiseOp | FlushOp | PersistOp | CreateFile | WriteStdout | ReadMounts | Canonicalize | Unpack | WriteData | DupFd

datatype error =
    IoError fs_op pathbuf errno
  | JsonError pathbuf
  | PersistError pathbuf errno
  | RegistryNotFound string
  | BaseNotFound string
  | ForkNotFound string
  | ForkExists string
  | NotMounted string
  | NoMergedPath string
  | MergedMissing pathbuf string
  | MountFailed string errno
  | UmountFailed string errno
  | VmBoot vm_boot_error
  | Bail string
  | Panic string

type_synonym 'a cmd = "(world, error, 'a) io"

record env =
  fault :: "fs_op \<Rightarrow> pathbuf \<Rightarrow> world \<Rightarrow> errno option"
  made :: "pathbuf \<Rightarrow> nat"
  residue :: "pathbuf \<Rightarrow> (string \<times> node) list \<Rightarrow> (string \<times> node) list"
  torn :: "content \<Rightarrow> content"
  mounts_text :: "mount list \<Rightarrow> string"
  k_mount :: "mount \<Rightarrow> mount list \<Rightarrow> errno + mount list"
  k_umount :: "pathbuf \<Rightarrow> mount list \<Rightarrow> errno + mount list"
  k_getxattr :: "pathbuf \<Rightarrow> world \<Rightarrow> errno + fsxattr"
  k_setxattr :: "pathbuf \<Rightarrow> fsxattr \<Rightarrow> world \<Rightarrow> errno option"
  parse_registry :: "content \<Rightarrow> registry_doc option"
  parse_vm :: "content \<Rightarrow> project_vm_record option"
  content_len :: "content \<Rightarrow> u64"
  now_secs :: int
  now_nanos :: int
  fmt_time :: "int \<Rightarrow> string"
  parse_time :: "string \<Rightarrow> int option"

text \<open>
  What the program relies on of the kernel: a successful mount adds its entry last, a successful
  lazy umount takes the last entry with that mount point away, and /proc/mounts has a line for each
  mount, whose second field is the mount point with space, tab, newline and backslash in octal
  (proc(5)).
\<close>

definition mangle :: "string \<Rightarrow> string" where
  "mangle s = concat (map (\<lambda>c.
     if c = CHR 0x20 then [CHR 0x5C, CHR ''0'', CHR ''4'', CHR ''0'']
     else if c = CHR 0x09 then [CHR 0x5C, CHR ''0'', CHR ''1'', CHR ''1'']
     else if c = newline then [CHR 0x5C, CHR ''0'', CHR ''1'', CHR ''2'']
     else if c = CHR 0x5C then [CHR 0x5C, CHR ''1'', CHR ''3'', CHR ''4'']
     else [c]) s)"

fun drop_last_mount :: "pathbuf \<Rightarrow> mount list \<Rightarrow> mount list" where
  "drop_last_mount p [] = []"
| "drop_last_mount p (m # ms) =
     (if mnt_target m = p \<and> p \<notin> mnt_target ` set ms then ms else m # drop_last_mount p ms)"

definition proc_line :: "(mount \<Rightarrow> string) \<Rightarrow> (mount \<Rightarrow> string) \<Rightarrow> mount \<Rightarrow> string" where
  "proc_line f g m = f m @ CHR 0x20 # mangle (mnt_target m) @ CHR 0x20 # g m @ [newline]"

definition proc_format :: "(mount list \<Rightarrow> string) \<Rightarrow> bool" where
  "proc_format text \<longleftrightarrow>
     (\<exists>f g. (\<forall>m. f m \<noteq> [] \<and> (\<forall>c\<in>set (f m). \<not> is_ws c)) \<and> (\<forall>m. newline \<notin> set (g m)) \<and>
            (\<forall>ms. text ms = concat (map (proc_line f g) ms)))"

definition kernel_ok :: "env \<Rightarrow> bool" where
  "kernel_ok E \<longleftrightarrow>
     (\<forall>m ms ms'. k_mount E m ms = Inr ms' \<longrightarrow> ms' = ms @ [m]) \<and>
     (\<forall>p ms ms'. k_umount E p ms = Inr ms' \<longrightarrow> ms' = drop_last_mount p ms) \<and>
     proc_format (mounts_text E)"

section \<open>std::fs\<close>

text \<open>Following a symbolic link in the last position, at most forty times as on Linux.\<close>

definition link_target :: "fpath \<Rightarrow> string \<Rightarrow> fpath" where
  "link_target p tgt = (if is_absolute tgt then resolve tgt else norm (rev (butlast p)) (split_on slash tgt))"

fun follow :: "nat \<Rightarrow> node \<Rightarrow> fpath \<Rightarrow> node option" where
  "follow 0 t p = (case tlookup t p of Some (Symlink tgt) \<Rightarrow> None | r \<Rightarrow> r)"
| "follow (Suc k) t p =
     (case tlookup t p of Some (Symlink tgt) \<Rightarrow> follow k t (link_target p tgt) | r \<Rightarrow> r)"

definition metadata :: "node \<Rightarrow> pathbuf \<Rightarrow> node option" where
  "metadata t p = follow 40 t (resolve p)"

definition path_exists :: "pathbuf \<Rightarrow> world \<Rightarrow> bool" where
  "path_exists p w \<longleftrightarrow> metadata (fs w) p \<noteq> None"

definition may_fail :: "env \<Rightarrow> fs_op \<Rightarrow> pathbuf \<Rightarrow> unit cmd" where
  "may_fail E op p = (\<lambda>w. case fault E op p w of None \<Rightarrow> (Inr (), w) | Some e \<Rightarrow> (Inl (IoError op p e), w))"

text \<open>A failing \<open>create_dir_all\<close> may have made some of the directories on the way.\<close>

definition is_dir :: "pathbuf \<Rightarrow> world \<Rightarrow> bool" where
  "is_dir p w \<longleftrightarrow> (case metadata (fs w) p of Some (Dir es) \<Rightarrow> True | _ \<Rightarrow> False)"

definition create_dir_all :: "env \<Rightarrow> pathbuf \<Rightarrow> unit cmd" where
  "create_dir_all E p = (\<lambda>w.
     if is_dir p w then (Inr (), w)
     else case fault E CreateDirAll p w of
          Some e \<Rightarrow> (Inl (IoError CreateDirAll p e),
                     case tmkdir (take (made E p) (resolve p)) (fs w) of None \<Rightarrow> w | Some t \<Rightarrow> w\<lparr>fs := t\<rparr>)
        | None \<Rightarrow>
            (case tmkdir (resolve p) (fs w) of
               None \<Rightarrow> (Inl (IoError CreateDirAll p ENOTDIR), w)
             | Some t \<Rightarrow> (Inr (), w\<lparr>fs := t\<rparr>)))"

definition mount_under :: "fpath \<Rightarrow> mount list \<Rightarrow> bool" where
  "mount_under p ms \<longleftrightarrow> list_ex (\<lambda>m. prefix p (resolve (mnt_target m))) ms"

text \<open>A failing \<open>remove_dir_all\<close> leaves an unspecified rest of the directory.\<close>

definition remove_dir_all :: "env \<Rightarrow> pathbuf \<Rightarrow> unit cmd" where
  "remove_dir_all E p = (\<lambda>w.
     let q = resolve p;
         failed = (\<lambda>e es. (Inl (IoError RemoveDirAll p e),
                     case tset q (Dir (residue E p es)) (fs w) of None \<Rightarrow> w | Some t \<Rightarrow> w\<lparr>fs := t\<rparr>))
     in if q = [] then (Inl (IoError RemoveDirAll p EBUSY), w)
        else case tlookup (fs w) q of
          None \<Rightarrow> (Inl (IoError RemoveDirAll p ENOENT), w)
        | Some (Dir es) \<Rightarrow>
            (if mount_under q (mtab w) then failed EBUSY es
             else case fault E RemoveDirAll p w of
                    Some e \<Rightarrow> failed e es
                  | None \<Rightarrow> (Inr (), w\<lparr>fs := tdel q (fs w)\<rparr>))
        | Some (Symlink tgt) \<Rightarrow>
            (case fault E RemoveDirAll p w of
               Some e \<Rightarrow> (Inl (IoError RemoveDirAll p e), w)
             | None \<Rightarrow> (Inr (), w\<lparr>fs := tdel q (fs w)\<rparr>))
        | Some _ \<Rightarrow> (Inl (IoError RemoveDirAll p ENOTDIR), w))"

definition is_mountpoint :: "fpath \<Rightarrow> mount list \<Rightarrow> bool" where
  "is_mountpoint p ms \<longleftrightarrow> list_ex (\<lambda>m. resolve (mnt_target m) = p) ms"

definition remove_dir :: "env \<Rightarrow> pathbuf \<Rightarrow> unit cmd" where
  "remove_dir E p = (\<lambda>w.
     let q = resolve p
     in case tlookup (fs w) q of
          None \<Rightarrow> (Inl (IoError RemoveDir p ENOENT), w)
        | Some (Dir es) \<Rightarrow>
            (if q = [] \<or> is_mountpoint q (mtab w) then (Inl (IoError RemoveDir p EBUSY), w)
             else if es \<noteq> [] then (Inl (IoError RemoveDir p ENOTEMPTY), w)
             else case fault E RemoveDir p w of
                    Some e \<Rightarrow> (Inl (IoError RemoveDir p e), w)
                  | None \<Rightarrow> (Inr (), w\<lparr>fs := tdel q (fs w)\<rparr>))
        | Some _ \<Rightarrow> (Inl (IoError RemoveDir p ENOTDIR), w))"

definition remove_file :: "env \<Rightarrow> pathbuf \<Rightarrow> unit cmd" where
  "remove_file E p = (\<lambda>w.
     let q = resolve p
     in case tlookup (fs w) q of
          None \<Rightarrow> (Inl (IoError RemoveFile p ENOENT), w)
        | Some (Dir es) \<Rightarrow> (Inl (IoError RemoveFile p EISDIR), w)
        | Some _ \<Rightarrow>
            (case fault E RemoveFile p w of
               Some e \<Rightarrow> (Inl (IoError RemoveFile p e), w)
             | None \<Rightarrow> (Inr (), w\<lparr>fs := tdel q (fs w)\<rparr>)))"

text \<open>Putting a file at a path: \<open>rename\<close> of a finished temporary file, or \<open>File::create\<close>.\<close>

definition place_file :: "env \<Rightarrow> fs_op \<Rightarrow> (errno \<Rightarrow> error) \<Rightarrow> pathbuf \<Rightarrow> content \<Rightarrow> unit cmd" where
  "place_file E op err p c = (\<lambda>w.
     let q = resolve p
     in case tlookup (fs w) q of
          Some (Dir es) \<Rightarrow> (Inl (err EISDIR), w)
        | _ \<Rightarrow>
          (case fault E op p w of
             Some e \<Rightarrow> (Inl (err e), w)
           | None \<Rightarrow>
               (case tset q (RegFile c) (fs w) of
                  None \<Rightarrow> (Inl (err ENOENT), w)
                | Some t \<Rightarrow> (Inr (), w\<lparr>fs := t\<rparr>))))"

text \<open>\<open>NamedTempFile::new_in(dir)\<close>: the directory must exist. The file itself goes when persisted or dropped.\<close>

definition temp_file_in :: "env \<Rightarrow> pathbuf \<Rightarrow> unit cmd" where
  "temp_file_in E dir =
     bindE (asks (\<lambda>w. metadata (fs w) dir)) (\<lambda>n.
       case n of Some (Dir es) \<Rightarrow> may_fail E TempFile dir
               | _ \<Rightarrow> throw (IoError TempFile dir ENOENT))"

text \<open>\<open>println!\<close> and \<open>eprintln!\<close> panic when the stream cannot be written.\<close>

definition println :: "env \<Rightarrow> json \<Rightarrow> unit cmd" where
  "println E j =
     bindE (map_err (\<lambda>_. Panic ''failed printing to stdout'') (may_fail E WriteStdout [])) (\<lambda>_.
     modify (\<lambda>w. w\<lparr>stdout := stdout w @ [j]\<rparr>))"

definition eprintln :: "env \<Rightarrow> json \<Rightarrow> unit cmd" where
  "eprintln E j =
     bindE (map_err (\<lambda>_. Panic ''failed printing to stderr'') (may_fail E WriteStdout [])) (\<lambda>_.
     modify (\<lambda>w. w\<lparr>stderr := stderr w @ [j]\<rparr>))"

text \<open>\<open>writeln!\<close> on the locked streams returns the error.\<close>

definition write_out :: "env \<Rightarrow> json \<Rightarrow> unit cmd" where
  "write_out E j =
     bindE (may_fail E WriteStdout []) (\<lambda>_. modify (\<lambda>w. w\<lparr>stdout := stdout w @ [j]\<rparr>))"

definition write_err :: "env \<Rightarrow> json \<Rightarrow> unit cmd" where
  "write_err E j =
     bindE (may_fail E WriteStdout []) (\<lambda>_. modify (\<lambda>w. w\<lparr>stderr := stderr w @ [j]\<rparr>))"

text \<open>The system calls \<open>mount(2)\<close> and \<open>umount2(2)\<close>.\<close>

definition sys_mount :: "env \<Rightarrow> (errno \<Rightarrow> error) \<Rightarrow> mount \<Rightarrow> unit cmd" where
  "sys_mount E err m = (\<lambda>w.
     case k_mount E m (mtab w) of Inl e \<Rightarrow> (Inl (err e), w) | Inr ms \<Rightarrow> (Inr (), w\<lparr>mtab := ms\<rparr>))"

definition sys_umount :: "env \<Rightarrow> (errno \<Rightarrow> error) \<Rightarrow> pathbuf \<Rightarrow> unit cmd" where
  "sys_umount E err p = (\<lambda>w.
     case k_umount E p (mtab w) of Inl e \<Rightarrow> (Inl (err e), w) | Inr ms \<Rightarrow> (Inr (), w\<lparr>mtab := ms\<rparr>))"

end
