(* ===== verification/FsLaws.thy ===== *)
theory FsLaws
  imports World
begin

text \<open>
  Laws of the file operations: what a successful call establishes, which part of the world a call
  can change (the rules in \<open>keeps_intros\<close> that carry the frame and invariant proofs of the
  commands), and what reading /proc/mounts tells.
\<close>

named_theorems fs_ops "definitions of the operations on the world"

declare create_dir_all_def [fs_ops] remove_dir_all_def [fs_ops] remove_dir_def [fs_ops]
  remove_file_def [fs_ops] place_file_def [fs_ops] may_fail_def [fs_ops] sys_mount_def [fs_ops]
  sys_umount_def [fs_ops]

section \<open>Success\<close>

lemma may_fail_run [runs]:
  "may_fail E op p w = (Inr u, w') \<longleftrightarrow> fault E op p w = None \<and> w' = w"
  by (auto simp: may_fail_def split: option.splits)

lemma may_fail_err [runs]:
  "may_fail E op p w = (Inl e, w') \<longleftrightarrow> (\<exists>n. fault E op p w = Some n \<and> e = IoError op p n \<and> w' = w)"
  by (auto simp: may_fail_def split: option.splits)

lemma follow_not_symlink:
  "tlookup t p = Some n \<Longrightarrow> (\<And>tgt. n \<noteq> Symlink tgt) \<Longrightarrow> follow k t p = Some n"
  by (cases k; cases n) auto

lemma metadata_not_symlink:
  "tlookup t (resolve p) = Some n \<Longrightarrow> (\<And>tgt. n \<noteq> Symlink tgt) \<Longrightarrow> metadata t p = Some n"
  by (simp add: metadata_def follow_not_symlink)

lemma metadata_absent: "tlookup t (resolve p) = None \<Longrightarrow> metadata t p = None"
  by (simp add: metadata_def numeral_eq_Suc)

lemma is_dirI: "tlookup (fs w) (resolve p) = Some (Dir es) \<Longrightarrow> is_dir p w"
  by (simp add: is_dir_def metadata_not_symlink)

lemma create_dir_all_Inr:
  assumes "create_dir_all E p w = (Inr u, w')"
  shows "is_dir p w'" "\<exists>t. w' = w\<lparr>fs := t\<rparr>"
proof -
  have "is_dir p w' \<and> (\<exists>t. w' = w\<lparr>fs := t\<rparr>)"
  proof (cases "is_dir p w")
    case True
    then have "w' = w" using assms by (simp add: create_dir_all_def)
    moreover have "w = w\<lparr>fs := fs w\<rparr>" by simp
    ultimately show ?thesis using True by metis
  next
    case False
    with assms obtain t where t: "tmkdir (resolve p) (fs w) = Some t" and w': "w' = w\<lparr>fs := t\<rparr>"
      unfolding create_dir_all_def by (simp split: option.splits)
    from tmkdir_is_dir [OF t] w' have "is_dir p w'" by (auto intro: is_dirI)
    with w' show ?thesis by blast
  qed
  then show "is_dir p w'" "\<exists>t. w' = w\<lparr>fs := t\<rparr>" by auto
qed

lemma remove_dir_all_Inr:
  assumes "remove_dir_all E p w = (Inr u, w')"
  shows "w' = w\<lparr>fs := tdel (resolve p) (fs w)\<rparr>" "resolve p \<noteq> []"
    "tlookup (fs w') (resolve p) = None"
proof -
  show w': "w' = w\<lparr>fs := tdel (resolve p) (fs w)\<rparr>"
    using assms by (auto simp: remove_dir_all_def Let_def split: option.splits node.splits if_splits)
  show ne: "resolve p \<noteq> []"
    using assms by (auto simp: remove_dir_all_def Let_def)
  show "tlookup (fs w') (resolve p) = None"
    using w' tdel_lookup [OF ne, of "fs w" "[]"] by simp
qed

lemma place_file_Inr:
  assumes "place_file E op err p c w = (Inr u, w')"
  shows "\<exists>t. tset (resolve p) (RegFile c) (fs w) = Some t \<and> w' = w\<lparr>fs := t\<rparr>"
    "tlookup (fs w') (resolve p) = Some (RegFile c)"
proof -
  show "\<exists>t. tset (resolve p) (RegFile c) (fs w) = Some t \<and> w' = w\<lparr>fs := t\<rparr>"
    using assms by (auto simp: place_file_def Let_def split: option.splits node.splits)
  then show "tlookup (fs w') (resolve p) = Some (RegFile c)"
    by (auto dest: tset_lookup_self)
qed

lemma place_file_Inl: "place_file E op err p c w = (Inl e, w') \<Longrightarrow> w' = w"
  by (auto simp: place_file_def Let_def split: option.splits node.splits)

lemma sys_mount_Inr:
  "kernel_ok E \<Longrightarrow> sys_mount E err m w = (Inr u, w') \<Longrightarrow> w' = w\<lparr>mtab := mtab w @ [m]\<rparr>"
  by (auto simp: sys_mount_def kernel_ok_def split: sum.splits)

lemma sys_umount_Inr:
  "kernel_ok E \<Longrightarrow> sys_umount E err p w = (Inr u, w') \<Longrightarrow> w' = w\<lparr>mtab := drop_last_mount p (mtab w)\<rparr>"
  by (auto simp: sys_umount_def kernel_ok_def split: sum.splits)

lemma sys_mount_Inl: "sys_mount E err m w = (Inl e, w') \<Longrightarrow> w' = w"
  by (auto simp: sys_mount_def split: sum.splits)

lemma sys_umount_Inl: "sys_umount E err m w = (Inl e, w') \<Longrightarrow> w' = w"
  by (auto simp: sys_umount_def split: sum.splits)

section \<open>Frames\<close>

text \<open>An operation on files touches nothing but the tree, and there only paths above or below its own.\<close>

definition fs_blind :: "(world \<Rightarrow> bool) \<Rightarrow> bool" where
  "fs_blind P \<longleftrightarrow> (\<forall>w t. P (w\<lparr>fs := t\<rparr>) = P w)"

definition mtab_blind :: "(world \<Rightarrow> bool) \<Rightarrow> bool" where
  "mtab_blind P \<longleftrightarrow> (\<forall>w t. P (w\<lparr>mtab := t\<rparr>) = P w)"

definition print_blind :: "(world \<Rightarrow> bool) \<Rightarrow> bool" where
  "print_blind P \<longleftrightarrow> (\<forall>w t. P (w\<lparr>stdout := t\<rparr>) = P w) \<and> (\<forall>w t. P (w\<lparr>stderr := t\<rparr>) = P w)"

lemma keeps_may_fail [keeps_intros]: "keeps P (may_fail E op p)"
  by (auto simp: keeps_def may_fail_def split: option.splits)

lemma keeps_temp_file [keeps_intros]: "keeps P (temp_file_in E dir)"
  by (auto simp: temp_file_in_def intro!: keeps_intros split: option.splits node.splits)

lemma keeps_fs_blind:
  assumes "fs_blind P"
  shows "keeps P (create_dir_all E p)" "keeps P (remove_dir_all E p)" "keeps P (remove_dir E p)"
    "keeps P (remove_file E p)" "keeps P (place_file E op err p c)"
  using assms
  by (auto simp: keeps_def fs_blind_def fs_ops Let_def split: option.splits node.splits if_splits)

lemma keeps_mtab_blind:
  assumes "mtab_blind P"
  shows "keeps P (sys_mount E err m)" "keeps P (sys_umount E err p)"
  using assms by (auto simp: keeps_def mtab_blind_def fs_ops split: sum.splits)

lemma keeps_print_blind:
  assumes "print_blind P"
  shows "keeps P (println E j)" "keeps P (eprintln E j)" "keeps P (write_out E j)" "keeps P (write_err E j)"
  using assms
  by (auto simp: println_def eprintln_def write_out_def write_err_def print_blind_def intro!: keeps_intros keeps_modify)

text \<open>Nodes at a place that is neither above nor below the path of an operation.\<close>

lemma prefix_take: "prefix q (take n p) \<Longrightarrow> prefix q p"
  by (metis append_take_drop_id prefix_order.trans prefixI)

lemma tmkdir_take_other:
  "tmkdir (take n p) t = Some t' \<Longrightarrow> \<not> prefix q p \<Longrightarrow> tlookup t' q = tlookup t q"
  by (meson prefix_take tmkdir_other)

lemma parallel_not_prefix: "p \<parallel> q \<Longrightarrow> \<not> prefix q p"
  by (auto simp: parallel_def)

lemma keeps_parallel:
  assumes "resolve p \<parallel> q"
  shows "keeps (\<lambda>w. tlookup (fs w) q = x) (create_dir_all E p)"
    "keeps (\<lambda>w. tlookup (fs w) q = x) (remove_dir_all E p)"
    "keeps (\<lambda>w. tlookup (fs w) q = x) (remove_dir E p)"
    "keeps (\<lambda>w. tlookup (fs w) q = x) (remove_file E p)"
    "keeps (\<lambda>w. tlookup (fs w) q = x) (place_file E op err p c)"
  using assms
  by (auto simp: keeps_def fs_ops Let_def tdel_parallel tset_parallel
      tmkdir_other tmkdir_take_other parallel_not_prefix
      split: option.splits node.splits if_splits)

section \<open>Files\<close>

text \<open>What is true of every regular file, wherever it lies.\<close>

lemma tmkdir_file: "tmkdir p t = Some t' \<Longrightarrow> tlookup t' q = Some (RegFile c) \<Longrightarrow> tlookup t q = Some (RegFile c)"
proof (induction p t arbitrary: t' q rule: tmkdir.induct)
  case (2 x xs es)
  show ?case
  proof (cases q)
    case Nil
    with 2 show ?thesis by (auto split: option.splits)
  next
    case (Cons y ys)
    have empty: "tlookup (Dir []) ys \<noteq> Some (RegFile c)" by (cases ys) auto
    from 2 Cons show ?thesis
      by (cases "y = x") (fastforce split: option.splits simp: empty)+
  qed
qed auto

lemma tset_file:
  "tset p n t = Some t' \<Longrightarrow> tlookup t' q = Some (RegFile c) \<Longrightarrow>
   tlookup t q = Some (RegFile c) \<or> (\<exists>q'. q = p @ q' \<and> tlookup n q' = Some (RegFile c))"
proof (induction p n t arbitrary: t' q rule: tset.induct)
  case (2 x xs new es)
  show ?case
  proof (cases q)
    case Nil
    with 2 show ?thesis by (auto split: option.splits if_splits)
  next
    case (Cons y ys)
    from 2 Cons show ?thesis
      by (cases "y = x") (fastforce split: option.splits if_splits)+
  qed
qed auto

lemma tdel_file: "tlookup (tdel p t) q = Some (RegFile c) \<Longrightarrow> tlookup t q = Some (RegFile c)"
proof (induction p t arbitrary: q rule: tdel.induct)
  case (1 x es)
  then show ?case by (cases q) (auto split: if_splits)
next
  case (2 x y ys es)
  show ?case
  proof (cases q)
    case Nil
    with 2 show ?thesis by (auto split: option.splits)
  next
    case (Cons z zs)
    with 2 show ?thesis by (cases "z = x") (auto split: option.splits)
  qed
qed auto

definition files_ok :: "(fpath \<Rightarrow> content \<Rightarrow> bool) \<Rightarrow> world \<Rightarrow> bool" where
  "files_ok Q w \<longleftrightarrow> (\<forall>q c. tlookup (fs w) q = Some (RegFile c) \<longrightarrow> Q q c)"

text \<open>What a failed removal leaves was there before.\<close>

definition residue_within :: "env \<Rightarrow> bool" where
  "residue_within E \<longleftrightarrow>
     (\<forall>p es q c. tlookup (Dir (residue E p es)) q = Some (RegFile c) \<longrightarrow> tlookup (Dir es) q = Some (RegFile c))"

lemma files_okD: "files_ok Q w \<Longrightarrow> tlookup (fs w) q = Some (RegFile c) \<Longrightarrow> Q q c"
  by (auto simp: files_ok_def)

lemma files_ok_set:
  assumes "files_ok Q w" and "tset p n (fs w) = Some t"
    and "\<And>q c. tlookup n q = Some (RegFile c) \<Longrightarrow> Q (p @ q) c"
  shows "files_ok Q (w\<lparr>fs := t\<rparr>)"
  using assms by (auto simp: files_ok_def dest!: tset_file)

lemma files_ok_mkdir: "files_ok Q w \<Longrightarrow> tmkdir p (fs w) = Some t \<Longrightarrow> files_ok Q (w\<lparr>fs := t\<rparr>)"
  by (auto simp: files_ok_def dest: tmkdir_file)

lemma files_ok_del: "files_ok Q w \<Longrightarrow> files_ok Q (w\<lparr>fs := tdel p (fs w)\<rparr>)"
  by (auto simp: files_ok_def dest: tdel_file)

lemma tlookup_RegFile: "tlookup (RegFile c) q = Some n \<longleftrightarrow> q = [] \<and> n = RegFile c"
  by (cases q) auto

lemma files_ok_place: "files_ok Q w \<Longrightarrow> tset p (RegFile c) (fs w) = Some t \<Longrightarrow> Q p c \<Longrightarrow> files_ok Q (w\<lparr>fs := t\<rparr>)"
  by (rule files_ok_set) (auto simp: tlookup_RegFile)

lemma keeps_files_ok:
  shows "keeps (files_ok Q) (create_dir_all E p)"
    and "keeps (files_ok Q) (remove_dir E p)"
    and "keeps (files_ok Q) (remove_file E p)"
    and "Q (resolve p) c \<Longrightarrow> keeps (files_ok Q) (place_file E op err p c)"
proof -
  show "keeps (files_ok Q) (create_dir_all E p)"
    unfolding keeps_def create_dir_all_def
    by (auto split: option.splits dest: files_ok_mkdir)
  show "keeps (files_ok Q) (remove_dir E p)"
    unfolding keeps_def remove_dir_def Let_def
    by (auto split: option.splits node.splits dest: files_ok_del)
  show "keeps (files_ok Q) (remove_file E p)"
    unfolding keeps_def remove_file_def Let_def
    by (auto split: option.splits node.splits dest: files_ok_del)
  show "keeps (files_ok Q) (place_file E op err p c)" if "Q (resolve p) c"
    unfolding keeps_def place_file_def Let_def
    using that by (auto split: option.splits node.splits dest: files_ok_place)
qed

lemma keeps_files_ok_remove:
  assumes "residue_within E"
  shows "keeps (files_ok Q) (remove_dir_all E p)"
proof (rule keepsI)
  fix w r w'
  assume run: "remove_dir_all E p w = (r, w')" and ok: "files_ok Q w"
  have part: "files_ok Q (w\<lparr>fs := t\<rparr>)"
    if es: "tlookup (fs w) (resolve p) = Some (Dir es)" and t: "tset (resolve p) (Dir (residue E p es)) (fs w) = Some t" for es t
  proof (rule files_ok_set [OF ok t])
    fix q c
    assume "tlookup (Dir (residue E p es)) q = Some (RegFile c)"
    then have "tlookup (Dir es) q = Some (RegFile c)" using assms unfolding residue_within_def by blast
    with es have "tlookup (fs w) (resolve p @ q) = Some (RegFile c)" by (simp add: tlookup_append)
    with ok show "Q (resolve p @ q) c" by (rule files_okD)
  qed
  have del: "files_ok Q (w\<lparr>fs := tdel (resolve p) (fs w)\<rparr>)" by (rule files_ok_del [OF ok])
  have "w' = w \<or> w' = w\<lparr>fs := tdel (resolve p) (fs w)\<rparr> \<or>
      (\<exists>es t. tlookup (fs w) (resolve p) = Some (Dir es) \<and>
         tset (resolve p) (Dir (residue E p es)) (fs w) = Some t \<and> w' = w\<lparr>fs := t\<rparr>)"
    using run unfolding remove_dir_all_def Let_def
    by (auto split: option.splits node.splits if_splits)
  then show "files_ok Q w'" using ok part del by (elim disjE exE conjE) simp_all
qed

end
