(* ===== verification/Mounts.thy ===== *)
theory Mounts
  imports FsLaws
begin

text \<open>
  Reading the mount table: \<open>is_mounted\<close> of src/discard.rs (src/mount_path.rs has the same
  function), what it answers on a table the kernel printed, and the paths it can never find. At the
  end, a concrete environment in which nothing fails, used by the witnesses.
\<close>

section \<open>is_mounted\<close>

definition line_mounts :: "string \<Rightarrow> pathbuf \<Rightarrow> bool" where
  "line_mounts line p = (case split_whitespace line of d # mp # r \<Rightarrow> mp = p | _ \<Rightarrow> False)"

definition mounts_has :: "string \<Rightarrow> pathbuf \<Rightarrow> bool" where
  "mounts_has text p = list_ex (\<lambda>line. line_mounts line p) (lines text)"

definition is_mounted :: "env \<Rightarrow> pathbuf \<Rightarrow> bool cmd" where
  "is_mounted E p =
     bindE (may_fail E ReadMounts ''/proc/mounts'') (\<lambda>_.
     asks (\<lambda>w. mounts_has (mounts_text E (mtab w)) p))"

lemma is_mounted_run [runs]:
  "is_mounted E p w = (Inr b, w') \<longleftrightarrow>
     fault E ReadMounts ''/proc/mounts'' w = None \<and> w' = w \<and> b = mounts_has (mounts_text E (mtab w)) p"
  by (auto simp: is_mounted_def runs)

lemma keeps_is_mounted [keeps_intros]: "keeps P (is_mounted E p)"
  by (auto simp: is_mounted_def intro!: keeps_intros)

text \<open>A path with white space is never found, whatever the table holds.\<close>

lemma split_whitespace_no_ws: "x \<in> set (split_whitespace s) \<Longrightarrow> c \<in> set x \<Longrightarrow> \<not> is_ws c"
  by (auto simp: split_whitespace_def dest: split_by_pieces)

lemma mounts_has_ws: "c \<in> set p \<Longrightarrow> is_ws c \<Longrightarrow> \<not> mounts_has text p"
  by (auto simp: mounts_has_def list_ex_iff line_mounts_def split: list.splits)
     (metis list.set_intros split_whitespace_no_ws)

text \<open>Otherwise the answer is whether some mount has that mount point.\<close>

definition clean_path :: "pathbuf \<Rightarrow> bool" where
  "clean_path p \<longleftrightarrow> p \<noteq> [] \<and> (\<forall>c\<in>set p. \<not> is_ws c \<and> c \<noteq> CHR 0x5C)"

lemma mangle_clean: "clean_path p \<Longrightarrow> mangle p = p"
proof -
  have "(\<forall>c\<in>set p. \<not> is_ws c \<and> c \<noteq> CHR 0x5C) \<Longrightarrow> mangle p = p"
    by (induction p) (auto simp: mangle_def is_ws_def)
  then show "clean_path p \<Longrightarrow> mangle p = p" by (simp add: clean_path_def)
qed

lemma mangle_no_newline: "newline \<notin> set (mangle p)"
  by (induction p) (auto simp: mangle_def)

lemma lines_Cons: "newline \<notin> set l \<Longrightarrow> lines (l @ newline # rest) = strip_cr l # lines rest"
  by (simp add: lines_def Let_def split_on_append split_on_none butlast_append)

lemma lines_Nil [simp]: "lines [] = []"
  by (simp add: lines_def)

lemma split_whitespace_word:
  assumes "w \<noteq> []" and "\<And>c. c \<in> set w \<Longrightarrow> \<not> is_ws c" and "is_ws b"
  shows "split_whitespace (w @ b # rest) = w # split_whitespace rest"
  using assms by (simp add: split_whitespace_def split_by_append split_by_none)

lemma strip_cr_head: "\<exists>s'. strip_cr (a @ CHR 0x20 # s) = a @ CHR 0x20 # s'"
  by (cases s rule: rev_cases) (auto simp: strip_cr_def butlast_append)

lemma proc_line_mounts:
  assumes f: "f m \<noteq> []" "\<And>c. c \<in> set (f m) \<Longrightarrow> \<not> is_ws c" and t: "clean_path (mnt_target m)"
  shows "line_mounts (strip_cr (f m @ CHR 0x20 # mangle (mnt_target m) @ CHR 0x20 # g m)) p
           \<longleftrightarrow> p = mnt_target m"
proof -
  obtain s where s: "strip_cr (f m @ CHR 0x20 # mangle (mnt_target m) @ CHR 0x20 # g m)
      = (f m @ CHR 0x20 # mangle (mnt_target m)) @ CHR 0x20 # s"
    using strip_cr_head [of "f m @ CHR 0x20 # mangle (mnt_target m)" "g m"] by auto
  have ws: "is_ws (CHR 0x20)" by (simp add: is_ws_def)
  have "split_whitespace (mnt_target m @ CHR 0x20 # s) = mnt_target m # split_whitespace s"
    using t ws by (intro split_whitespace_word) (auto simp: clean_path_def)
  moreover have "split_whitespace (f m @ CHR 0x20 # (mnt_target m @ CHR 0x20 # s))
      = f m # split_whitespace (mnt_target m @ CHR 0x20 # s)"
    using f ws by (intro split_whitespace_word) auto
  ultimately show ?thesis using s by (auto simp: line_mounts_def mangle_clean [OF t])
qed

lemma mounts_has_iff:
  assumes "proc_format text" and "\<And>m. m \<in> set ms \<Longrightarrow> clean_path (mnt_target m)"
  shows "mounts_has (text ms) p \<longleftrightarrow> p \<in> mnt_target ` set ms"
proof -
  from assms(1) obtain f g where f: "\<And>m. f m \<noteq> []" "\<And>m c. c \<in> set (f m) \<Longrightarrow> \<not> is_ws c"
    and g: "\<And>m. newline \<notin> set (g m)" and tx: "\<And>ms. text ms = concat (map (proc_line f g) ms)"
    by (auto simp: proc_format_def)
  have nl: "newline \<notin> set (f m @ CHR 0x20 # mangle (mnt_target m) @ CHR 0x20 # g m)" for m
    using f(2) g mangle_no_newline by (auto simp: is_ws_def)
  have lns: "lines (concat (map (proc_line f g) ms))
      = map (\<lambda>m. strip_cr (f m @ CHR 0x20 # mangle (mnt_target m) @ CHR 0x20 # g m)) ms" for ms
  proof (induction ms)
    case (Cons m ms)
    have "concat (map (proc_line f g) (m # ms)) =
        (f m @ CHR 0x20 # mangle (mnt_target m) @ CHR 0x20 # g m) @ newline # concat (map (proc_line f g) ms)"
      by (simp add: proc_line_def [of f g m])
    then show ?case using Cons lines_Cons [OF nl [of m]] by simp
  qed simp
  show ?thesis
    unfolding mounts_has_def tx lns
    using assms(2) by (auto simp: list_ex_iff proc_line_mounts f)
qed

section \<open>The mount list\<close>

lemma drop_last_mount_subset: "set (drop_last_mount p ms) \<subseteq> set ms"
  by (induction ms) auto

lemma drop_last_mount_other: "q \<noteq> p \<Longrightarrow>
  filter (\<lambda>m. mnt_target m = q) (drop_last_mount p ms) = filter (\<lambda>m. mnt_target m = q) ms"
  by (induction ms) auto

lemma drop_last_mount_snoc: "drop_last_mount (mnt_target m) (ms @ [m]) = ms"
  by (induction ms) auto

lemma drop_last_mount_absent: "p \<notin> mnt_target ` set ms \<Longrightarrow> drop_last_mount p ms = ms"
  by (induction ms) auto

lemma drop_last_mount_length:
  "length (filter (\<lambda>m. mnt_target m = p) (drop_last_mount p ms)) =
     length (filter (\<lambda>m. mnt_target m = p) ms) - 1"
proof (induction ms)
  case (Cons m ms)
  show ?case
  proof (cases "mnt_target m = p \<and> p \<notin> mnt_target ` set ms")
    case True
    then have "\<forall>x\<in>set ms. mnt_target x \<noteq> p" by (metis imageI)
    then have "filter (\<lambda>m. mnt_target m = p) ms = []" by simp
    with True show ?thesis by simp
  next
    case False
    have "filter (\<lambda>m. mnt_target m = p) ms \<noteq> []" if "mnt_target m = p"
      using False that by (auto simp: filter_empty_conv)
    with False Cons show ?thesis by (auto simp: Suc_leI)
  qed
qed simp

section \<open>A concrete environment\<close>

definition show_mount_source :: "mount \<Rightarrow> string" where
  "show_mount_source m =
     (if mnt_source m \<noteq> [] \<and> list_all (\<lambda>c. \<not> is_ws c) (mnt_source m) then mnt_source m else ''none'')"

definition linux_mounts_text :: "mount list \<Rightarrow> string" where
  "linux_mounts_text ms = concat (map (proc_line show_mount_source (\<lambda>m. ''overlay rw 0 0'')) ms)"

definition no_fault :: "fs_op \<Rightarrow> pathbuf \<Rightarrow> world \<Rightarrow> errno option" where
  "no_fault op p w = None"

definition nothing_made :: "pathbuf \<Rightarrow> nat" where
  "nothing_made p = 0"

definition nothing_removed :: "pathbuf \<Rightarrow> (string \<times> node) list \<Rightarrow> (string \<times> node) list" where
  "nothing_removed p es = es"

definition torn_empty :: "content \<Rightarrow> content" where
  "torn_empty c = Raw []"

definition append_mount :: "mount \<Rightarrow> mount list \<Rightarrow> errno + mount list" where
  "append_mount m ms = Inr (ms @ [m])"

definition lazy_umount :: "pathbuf \<Rightarrow> mount list \<Rightarrow> errno + mount list" where
  "lazy_umount p ms = (if p \<in> set (map mnt_target ms) then Inr (drop_last_mount p ms) else Inl 22)"

definition no_getxattr :: "pathbuf \<Rightarrow> world \<Rightarrow> errno + fsxattr" where
  "no_getxattr p w = Inl 95"

definition no_setxattr :: "pathbuf \<Rightarrow> fsxattr \<Rightarrow> world \<Rightarrow> errno option" where
  "no_setxattr p x w = Some 95"

definition no_registry :: "content \<Rightarrow> registry_doc option" where
  "no_registry c = None"

definition no_vm :: "content \<Rightarrow> project_vm_record option" where
  "no_vm c = None"

fun raw_len :: "content \<Rightarrow> u64" where
  "raw_len (Raw bs) = of_nat (length bs)"
| "raw_len c = 0"

definition decimal_time :: "int \<Rightarrow> string" where
  "decimal_time t = show_nat (nat t)"

definition decimal_parse :: "string \<Rightarrow> int option" where
  "decimal_parse s = map_option int (parse_digits 0 s)"

definition quiet_env :: env where
  "quiet_env =
     \<lparr>fault = no_fault, made = nothing_made, residue = nothing_removed, torn = torn_empty,
      mounts_text = linux_mounts_text, k_mount = append_mount, k_umount = lazy_umount,
      k_getxattr = no_getxattr, k_setxattr = no_setxattr,
      parse_registry = no_registry, parse_vm = no_vm, content_len = raw_len,
      now_secs = 0, now_nanos = 0, fmt_time = decimal_time, parse_time = decimal_parse\<rparr>"

lemma quiet_env_simps [simp]:
  "fault quiet_env op p w = None" "k_mount quiet_env m ms = Inr (ms @ [m])"
  "mounts_text quiet_env = linux_mounts_text" "now_secs quiet_env = 0" "now_nanos quiet_env = 0"
  "k_getxattr quiet_env p w = Inl 95" "k_setxattr quiet_env p x w = Some 95"
  "parse_time quiet_env = decimal_parse" "fmt_time quiet_env = decimal_time"
  "content_len quiet_env = raw_len"
  by (simp_all add: quiet_env_def no_fault_def append_mount_def no_getxattr_def no_setxattr_def)

lemma quiet_env_kernel_ok: "kernel_ok quiet_env"
proof -
  have "proc_format linux_mounts_text"
    unfolding proc_format_def linux_mounts_text_def
    by (rule exI [of _ show_mount_source], rule exI [of _ "\<lambda>m. ''overlay rw 0 0''"])
       (auto simp: show_mount_source_def list_all_iff is_ws_def)
  then show ?thesis by (simp add: kernel_ok_def quiet_env_def append_mount_def lazy_umount_def)
qed

text \<open>A world with nothing but a file tree.\<close>

definition dir_world :: "node \<Rightarrow> world" where
  "dir_world t = \<lparr>fs = t, mtab = [], xattrs = [], stdout = [], stderr = [], rawout = [], vmms = [], open_fds = [],
     tc_filters = [], trace = [], clock = 0\<rparr>"

end
