(* ===== verification/Registry.thy ===== *)
theory Registry
  imports Mounts
begin

text \<open>
  The snapshot registry of src/registry.rs: the document in \<open>registry.json\<close>, read without a
  lock, changed under the lock file by read, change and rename. The contract of a keyed
  collection is the locale \<open>key_store\<close>, interpreted for the bases and the forks of the
  document; \<open>doc_at\<close> is the document the file system holds, in which the specifications of
  the operations are stated.
\<close>

section \<open>Changing the document\<close>

definition doc_insert_base :: "string \<Rightarrow> base_entry \<Rightarrow> registry_doc \<Rightarrow> registry_doc" where
  "doc_insert_base k e d = d\<lparr>bases := AList.update k e (bases d)\<rparr>"

definition doc_insert_fork :: "string \<Rightarrow> fork_entry \<Rightarrow> registry_doc \<Rightarrow> registry_doc" where
  "doc_insert_fork k e d = d\<lparr>forks := AList.update k e (forks d)\<rparr>"

definition doc_remove_base :: "string \<Rightarrow> registry_doc \<Rightarrow> error + registry_doc" where
  "doc_remove_base k d =
     (case map_of (bases d) k of
        None \<Rightarrow> Inl (RegistryNotFound k)
      | Some e \<Rightarrow> Inr (d\<lparr>bases := AList.delete k (bases d)\<rparr>))"

definition doc_remove_fork :: "string \<Rightarrow> registry_doc \<Rightarrow> error + registry_doc" where
  "doc_remove_fork k d =
     (case map_of (forks d) k of
        None \<Rightarrow> Inl (RegistryNotFound k)
      | Some e \<Rightarrow> Inr (d\<lparr>forks := AList.delete k (forks d)\<rparr>))"

definition base_of :: "registry_doc \<Rightarrow> string \<Rightarrow> base_entry option" where
  "base_of d = map_of (bases d)"

definition fork_of :: "registry_doc \<Rightarrow> string \<Rightarrow> fork_entry option" where
  "fork_of d = map_of (forks d)"

text \<open>What a keyed collection with insert-or-overwrite and checked removal promises.\<close>

locale key_store =
  fixes look :: "'d \<Rightarrow> string \<Rightarrow> 'e option"
    and ins :: "string \<Rightarrow> 'e \<Rightarrow> 'd \<Rightarrow> 'd"
    and rmv :: "string \<Rightarrow> 'd \<Rightarrow> error + 'd"
    and wf :: "'d \<Rightarrow> bool"
  assumes look_ins: "look (ins k e d) = (look d)(k \<mapsto> e)"
    and rmv_absent: "look d k = None \<Longrightarrow> rmv k d = Inl (RegistryNotFound k)"
    and rmv_present: "look d k = Some e \<Longrightarrow> \<exists>d'. rmv k d = Inr d' \<and> look d' = (look d)(k := None)"
    and wf_ins: "wf d \<Longrightarrow> wf (ins k e d)"
    and wf_rmv: "wf d \<Longrightarrow> rmv k d = Inr d' \<Longrightarrow> wf d'"
begin

lemma rmv_Inr_iff: "(\<exists>d'. rmv k d = Inr d') \<longleftrightarrow> look d k \<noteq> None"
proof (cases "look d k")
  case None
  then show ?thesis by (simp add: rmv_absent)
next
  case (Some e)
  then show ?thesis using rmv_present by blast
qed

lemma rmv_look: "rmv k d = Inr d' \<Longrightarrow> look d' = (look d)(k := None) \<and> look d k \<noteq> None"
proof -
  assume r: "rmv k d = Inr d'"
  then have "look d k \<noteq> None" using rmv_Inr_iff by blast
  then obtain e where "look d k = Some e" by blast
  from rmv_present [OF this] r show ?thesis using \<open>look d k \<noteq> None\<close> by auto
qed

lemma rmv_error: "rmv k d = Inl err \<Longrightarrow> err = RegistryNotFound k \<and> look d k = None"
  by (metis Inl_inject old.sum.distinct(1) option.exhaust rmv_absent rmv_present)

lemma ins_rmv: "look d k = None \<Longrightarrow> \<exists>d'. rmv k (ins k e d) = Inr d' \<and> look d' = look d"
  using rmv_present [of "ins k e d" k e] by (auto simp: look_ins fun_upd_idem)

lemma ins_other: "k' \<noteq> k \<Longrightarrow> look (ins k e d) k' = look d k'"
  by (simp add: look_ins)

lemma ins_swap: "k \<noteq> k' \<Longrightarrow> look (ins k e (ins k' e' d)) = look (ins k' e' (ins k e d))"
  by (simp add: look_ins fun_upd_twist)

lemma rmv_twice: "rmv k d = Inr d' \<Longrightarrow> rmv k d' = Inl (RegistryNotFound k)"
  using rmv_look rmv_absent by (metis fun_upd_same)

end

interpretation base_store: key_store base_of doc_insert_base doc_remove_base wf_doc
  by unfold_locales
     (auto simp: base_of_def doc_insert_base_def doc_remove_base_def wf_doc_def distinct_update
       keys_alist_delete distinct_removeAll split: option.splits)

interpretation fork_store: key_store fork_of doc_insert_fork doc_remove_fork wf_doc
  by unfold_locales
     (auto simp: fork_of_def doc_insert_fork_def doc_remove_fork_def wf_doc_def distinct_update
       keys_alist_delete distinct_removeAll split: option.splits)

lemma fork_changes_keep_bases [simp]:
  "base_of (doc_insert_fork k e d) = base_of d"
  "doc_remove_fork k d = Inr d' \<Longrightarrow> base_of d' = base_of d"
  by (auto simp: base_of_def doc_insert_fork_def doc_remove_fork_def split: option.splits)

lemma base_changes_keep_forks [simp]:
  "fork_of (doc_insert_base k e d) = fork_of d"
  "doc_remove_base k d = Inr d' \<Longrightarrow> fork_of d' = fork_of d"
  by (auto simp: fork_of_def doc_insert_base_def doc_remove_base_def split: option.splits)

section \<open>The file\<close>

definition registry_path :: "pathbuf \<Rightarrow> pathbuf" where
  "registry_path root = join root ''registry.json''"

definition lock_path :: "pathbuf \<Rightarrow> pathbuf" where
  "lock_path root = join root ''registry.json.lock''"

definition registry_open :: "env \<Rightarrow> pathbuf \<Rightarrow> unit cmd" where
  "registry_open E root = create_dir_all E root"

definition content_doc :: "env \<Rightarrow> content \<Rightarrow> registry_doc option" where
  "content_doc E c = (case c of RegistryJson d \<Rightarrow> Some d | _ \<Rightarrow> parse_registry E c)"

definition read_doc :: "env \<Rightarrow> pathbuf \<Rightarrow> registry_doc cmd" where
  "read_doc E root =
     (let p = registry_path root in
      bindE (asks (path_exists p)) (\<lambda>ex.
      if \<not> ex then ret default_registry_doc
      else bindE (may_fail E OpenRead p) (\<lambda>_.
           bindE (asks (\<lambda>w. metadata (fs w) p)) (\<lambda>n.
           case n of
             Some (RegFile c) \<Rightarrow>
               (case content_doc E c of Some d \<Rightarrow> ret d | None \<Rightarrow> throw (JsonError p))
           | _ \<Rightarrow> throw (JsonError p)))))"

text \<open>
  The document goes through a \<open>BufWriter\<close> that is dropped unflushed: an error of the last write
  is lost, and what reached the temporary file (\<open>torn\<close>) is renamed into place.
\<close>

definition write_doc :: "env \<Rightarrow> pathbuf \<Rightarrow> registry_doc \<Rightarrow> unit cmd" where
  "write_doc E root d =
     (let p = registry_path root in
      bindE (temp_file_in E root) (\<lambda>_.
      bindE (map_err (\<lambda>_. JsonError p) (may_fail E SerialiseOp p)) (\<lambda>_.
      bindE (asks (fault E FlushOp p)) (\<lambda>lost.
      place_file E PersistOp (PersistError p) p
        (if lost = None then RegistryJson d else torn E (RegistryJson d))))))"

definition lock_acquire :: "env \<Rightarrow> pathbuf \<Rightarrow> unit cmd" where
  "lock_acquire E p =
     bindE (asks (path_exists p)) (\<lambda>ex.
     bindE (if ex then may_fail E OpenLock p
            else place_file E OpenLock (IoError OpenLock p) p (Raw [])) (\<lambda>_.
     may_fail E FlockOp p))"

definition with_exclusive_lock ::
    "env \<Rightarrow> pathbuf \<Rightarrow> (registry_doc \<Rightarrow> error + registry_doc) \<Rightarrow> unit cmd" where
  "with_exclusive_lock E root f =
     bindE (lock_acquire E (lock_path root)) (\<lambda>_.
     bindE (read_doc E root) (\<lambda>d.
     bindE (of_result (f d)) (\<lambda>d'.
     write_doc E root d')))"

section \<open>Operations\<close>

definition insert_base :: "env \<Rightarrow> pathbuf \<Rightarrow> string \<Rightarrow> base_entry \<Rightarrow> unit cmd" where
  "insert_base E root k e = with_exclusive_lock E root (\<lambda>d. Inr (doc_insert_base k e d))"

definition get_base :: "env \<Rightarrow> pathbuf \<Rightarrow> string \<Rightarrow> base_entry cmd" where
  "get_base E root k =
     bindE (read_doc E root) (\<lambda>d.
     case map_of (bases d) k of Some e \<Rightarrow> ret e | None \<Rightarrow> throw (RegistryNotFound k))"

definition list_bases :: "env \<Rightarrow> pathbuf \<Rightarrow> (string \<times> base_entry) list cmd" where
  "list_bases E root = bindE (read_doc E root) (\<lambda>d. ret (bases d))"

definition remove_base :: "env \<Rightarrow> pathbuf \<Rightarrow> string \<Rightarrow> unit cmd" where
  "remove_base E root k = with_exclusive_lock E root (doc_remove_base k)"

definition insert_fork :: "env \<Rightarrow> pathbuf \<Rightarrow> string \<Rightarrow> fork_entry \<Rightarrow> unit cmd" where
  "insert_fork E root k e = with_exclusive_lock E root (\<lambda>d. Inr (doc_insert_fork k e d))"

definition get_fork :: "env \<Rightarrow> pathbuf \<Rightarrow> string \<Rightarrow> fork_entry cmd" where
  "get_fork E root k =
     bindE (read_doc E root) (\<lambda>d.
     case map_of (forks d) k of Some e \<Rightarrow> ret e | None \<Rightarrow> throw (RegistryNotFound k))"

definition list_forks :: "env \<Rightarrow> pathbuf \<Rightarrow> (string \<times> fork_entry) list cmd" where
  "list_forks E root = bindE (read_doc E root) (\<lambda>d. ret (forks d))"

definition remove_fork :: "env \<Rightarrow> pathbuf \<Rightarrow> string \<Rightarrow> unit cmd" where
  "remove_fork E root k = with_exclusive_lock E root (doc_remove_fork k)"

section \<open>Specification\<close>

text \<open>
  The document the disk holds: empty when there is no file, \<open>None\<close> when the file cannot be
  read as a document.
\<close>

definition doc_at :: "env \<Rightarrow> pathbuf \<Rightarrow> world \<Rightarrow> registry_doc option" where
  "doc_at E root w =
     (case tlookup (fs w) (resolve (registry_path root)) of
        None \<Rightarrow> Some default_registry_doc
      | Some (RegFile c) \<Rightarrow> content_doc E c
      | Some _ \<Rightarrow> None)"

lemma seg_ok_registry [simp]: "seg_ok ''registry.json''" "seg_ok ''registry.json.lock''"
  by (auto simp: seg_ok_def)

lemma resolve_registry_path [simp]: "resolve (registry_path root) = resolve root @ [''registry.json'']"
  by (simp add: registry_path_def resolve_join)

lemma resolve_lock_path [simp]: "resolve (lock_path root) = resolve root @ [''registry.json.lock'']"
  by (simp add: lock_path_def resolve_join)

text \<open>A path beside the two files of the registry.\<close>

definition beside_registry :: "pathbuf \<Rightarrow> fpath \<Rightarrow> bool" where
  "beside_registry root q \<longleftrightarrow>
     (resolve root @ [''registry.json'']) \<parallel> q \<and> (resolve root @ [''registry.json.lock'']) \<parallel> q"

lemma keeps_read_doc [keeps_intros]: "keeps P (read_doc E root)"
  unfolding read_doc_def Let_def
  by (intro keeps_intros) (auto intro!: keeps_intros split: option.splits node.splits)

lemma read_doc_state: "read_doc E root w = (r, w') \<Longrightarrow> w' = w"
  using keepsD [OF keeps_read_doc [of "\<lambda>x. x = w"]] by auto

lemma read_doc_Inr:
  assumes "doc_at E root w = Some d" and "read_doc E root w = (Inr d', w')"
  shows "d' = d"
  using assms
  by (auto simp: read_doc_def doc_at_def path_exists_def metadata_absent metadata_not_symlink Let_def runs
      split: option.splits node.splits if_splits)

lemma get_fork_Inr:
  "get_fork E root k w = (Inr e, w') \<longleftrightarrow>
     (\<exists>d. read_doc E root w = (Inr d, w') \<and> fork_of d k = Some e)"
  by (auto simp: get_fork_def fork_of_def runs split: option.splits)

lemma get_base_Inr:
  "get_base E root k w = (Inr e, w') \<longleftrightarrow>
     (\<exists>d. read_doc E root w = (Inr d, w') \<and> base_of d k = Some e)"
  by (auto simp: get_base_def base_of_def runs split: option.splits)

lemma keeps_get [keeps_intros]:
  "keeps P (get_fork E root k)" "keeps P (get_base E root k)"
  "keeps P (list_forks E root)" "keeps P (list_bases E root)"
  by (auto simp: get_fork_def get_base_def list_forks_def list_bases_def intro!: keeps_intros)

lemma keeps_lock_acquire:
  assumes "(resolve p) \<parallel> q"
  shows "keeps (\<lambda>w. tlookup (fs w) q = x) (lock_acquire E p)"
  unfolding lock_acquire_def by (intro keeps_intros keeps_parallel assms)

lemma keeps_lock_acquire_blind: "fs_blind P \<Longrightarrow> keeps P (lock_acquire E p)"
  unfolding lock_acquire_def by (intro keeps_intros keeps_fs_blind)

lemma keeps_write_doc_blind: "fs_blind P \<Longrightarrow> keeps P (write_doc E root d)"
  unfolding write_doc_def Let_def by (intro keeps_intros keeps_fs_blind)

lemma keeps_registry_blind:
  assumes "fs_blind P"
  shows "keeps P (with_exclusive_lock E root f)"
  unfolding with_exclusive_lock_def
  by (intro keeps_intros keeps_lock_acquire_blind keeps_write_doc_blind assms)

lemma keeps_registry_beside:
  assumes "beside_registry root q"
  shows "keeps (\<lambda>w. tlookup (fs w) q = x) (with_exclusive_lock E root f)"
proof -
  have "keeps (\<lambda>w. tlookup (fs w) q = x) (write_doc E root d)" for d
    unfolding write_doc_def Let_def
    by (intro keeps_intros keeps_parallel) (use assms in \<open>simp add: beside_registry_def\<close>)
  then show ?thesis
    unfolding with_exclusive_lock_def
    by (intro keeps_intros keeps_lock_acquire) (use assms in \<open>simp add: beside_registry_def\<close>)
qed

lemmas registry_op_defs = insert_base_def remove_base_def insert_fork_def remove_fork_def

lemma registry_paths_parallel: "(resolve root @ [''registry.json.lock'']) \<parallel> (resolve root @ [''registry.json''])"
  using parallel_snoc [of "''registry.json.lock''" "''registry.json''" "resolve root" "[]" "[]"] by simp

lemma lock_acquire_doc: "lock_acquire E (lock_path root) w = (r, w') \<Longrightarrow> doc_at E root w' = doc_at E root w"
  using keepsD [OF keeps_lock_acquire [of "lock_path root" "resolve (registry_path root)"
      "tlookup (fs w) (resolve (registry_path root))"]] registry_paths_parallel [of root]
  by (auto simp: doc_at_def)

text \<open>No write is lost between the buffer and the disk.\<close>

definition flush_ok :: "env \<Rightarrow> pathbuf \<Rightarrow> bool" where
  "flush_ok E root \<longleftrightarrow> (\<forall>w. fault E FlushOp (registry_path root) w = None)"

lemma write_doc_Inr:
  "flush_ok E root \<Longrightarrow> write_doc E root d w = (Inr u, w') \<Longrightarrow> doc_at E root w' = Some d"
  by (auto simp: write_doc_def flush_ok_def Let_def runs doc_at_def content_doc_def
      dest!: place_file_Inr(2))

lemma write_doc_Inl: "write_doc E root d w = (Inl e, w') \<Longrightarrow> w' = w"
  using keepsD [OF keeps_temp_file [of "\<lambda>x. x = w"]]
  by (auto simp: write_doc_def Let_def runs dest!: place_file_Inl)

text \<open>A change that succeeds is in the document; one that fails left the document as it was.\<close>

lemma with_exclusive_lock_Inr:
  assumes "flush_ok E root" and "doc_at E root w = Some d"
    and run: "with_exclusive_lock E root f w = (Inr u, w')"
  shows "\<exists>d'. f d = Inr d' \<and> doc_at E root w' = Some d'"
proof -
  from run obtain w1 d1 w2 d2 where 1: "lock_acquire E (lock_path root) w = (Inr (), w1)"
    and 2: "read_doc E root w1 = (Inr d1, w2)" and 3: "f d1 = Inr d2"
    and 4: "write_doc E root d2 w2 = (Inr u, w')"
    by (auto simp: with_exclusive_lock_def runs)
  from 1 assms(2) have "doc_at E root w1 = Some d" by (simp add: lock_acquire_doc)
  with 2 have "d1 = d" by (blast intro: read_doc_Inr)
  with 3 4 assms(1) show ?thesis by (blast dest: write_doc_Inr)
qed

lemma with_exclusive_lock_Inl:
  assumes "with_exclusive_lock E root f w = (Inl e, w')"
  shows "doc_at E root w' = doc_at E root w"
  using assms lock_acquire_doc [of E root w]
  by (auto simp: with_exclusive_lock_def runs dest!: read_doc_state write_doc_Inl)

lemma insert_fork_Inr:
  "flush_ok E root \<Longrightarrow> doc_at E root w = Some d \<Longrightarrow> insert_fork E root k e w = (Inr u, w') \<Longrightarrow>
   doc_at E root w' = Some (doc_insert_fork k e d)"
  by (auto simp: insert_fork_def dest: with_exclusive_lock_Inr)

lemma insert_base_Inr:
  "flush_ok E root \<Longrightarrow> doc_at E root w = Some d \<Longrightarrow> insert_base E root k e w = (Inr u, w') \<Longrightarrow>
   doc_at E root w' = Some (doc_insert_base k e d)"
  by (auto simp: insert_base_def dest: with_exclusive_lock_Inr)

lemma remove_fork_Inr:
  "flush_ok E root \<Longrightarrow> doc_at E root w = Some d \<Longrightarrow> remove_fork E root k w = (Inr u, w') \<Longrightarrow>
   \<exists>d'. doc_remove_fork k d = Inr d' \<and> doc_at E root w' = Some d'"
  unfolding remove_fork_def by (rule with_exclusive_lock_Inr)

end
