(* ===== verification/Quota.thy ===== *)
theory Quota
  imports Registry
begin

text \<open>
  src/quota.rs: the size parser with its double-precision arithmetic, the probe of /proc/mounts for
  \<open>prjquota\<close>, the assignment of a project id through the extended-attribute ioctls (parameters of
  \<open>env\<close>), and the project-id hash.
\<close>

section \<open>Double precision on non-negative values\<close>

text \<open>
  A double is a pair of a mantissa of at most 53 bits and a binary exponent without bounds: values
  below the range of a double round to 0 bytes and values above it saturate, as they do with
  subnormals and infinity.
\<close>

type_synonym f64 = "nat \<times> int"

fun bit_len :: "nat \<Rightarrow> nat" where
  "bit_len n = (if n = 0 then 0 else Suc (bit_len (n div 2)))"

declare bit_len.simps [simp del]

definition round_half_even :: "nat \<Rightarrow> nat \<Rightarrow> nat" where
  "round_half_even p q =
     (let k = p div q; r = p mod q in if 2 * r < q \<or> (2 * r = q \<and> even k) then k else k + 1)"

definition scaled :: "nat \<Rightarrow> nat \<Rightarrow> int \<Rightarrow> nat \<times> nat" where
  "scaled n d e = (if e < 0 then (n * 2 ^ nat (- e), d) else (n, d * 2 ^ nat e))"

definition f64_of_ratio :: "nat \<Rightarrow> nat \<Rightarrow> f64" where
  "f64_of_ratio n d =
     (if n = 0 then (0, 0)
      else let e0 = int (bit_len n) - int (bit_len d) - 53;
               e = (if 2 ^ 53 * snd (scaled n d e0) \<le> fst (scaled n d e0) then e0 + 1 else e0)
           in (round_half_even (fst (scaled n d e)) (snd (scaled n d e)), e))"

text \<open>The product with a power of two is exact; \<open>round\<close> is half away from zero; \<open>as u64\<close> saturates.\<close>

definition f64_shift :: "f64 \<Rightarrow> nat \<Rightarrow> f64" where
  "f64_shift v s = (fst v, snd v + int s)"

definition f64_round :: "f64 \<Rightarrow> nat" where
  "f64_round v =
     (if 0 \<le> snd v then fst v * 2 ^ nat (snd v)
      else (let k = nat (- snd v) in (fst v + 2 ^ (k - 1)) div 2 ^ k))"

definition as_u64 :: "nat \<Rightarrow> u64" where
  "as_u64 n = of_nat (min n (2 ^ 64 - 1))"

text \<open>\<open>str::parse::<f64>\<close> on text made of digits and points.\<close>

definition parse_f64 :: "string \<Rightarrow> f64 option" where
  "parse_f64 s =
     (case split_on CHR ''.'' s of
        [a] \<Rightarrow> (if a = [] then None else map_option (\<lambda>n. f64_of_ratio n 1) (parse_digits 0 a))
      | [a, b] \<Rightarrow>
          (if a = [] \<and> b = [] then None
           else map_option (\<lambda>n. f64_of_ratio n (10 ^ length b)) (parse_digits 0 (a @ b)))
      | _ \<Rightarrow> None)"

section \<open>Sizes\<close>

definition size_shift :: "string \<Rightarrow> nat option" where
  "size_shift u =
     (if u = '''' \<or> u = ''B'' then Some 0
      else if u = ''K'' \<or> u = ''KIB'' then Some 10
      else if u = ''M'' \<or> u = ''MIB'' then Some 20
      else if u = ''G'' \<or> u = ''GIB'' then Some 30
      else if u = ''T'' \<or> u = ''TIB'' then Some 40
      else if u = ''KB'' then Some 10
      else if u = ''MB'' then Some 20
      else if u = ''GB'' then Some 30
      else if u = ''TB'' then Some 40
      else None)"

definition parse_quota_size :: "string \<Rightarrow> error + u64" where
  "parse_quota_size s0 =
     (let s = trim s0;
          num_str = takeWhile (\<lambda>c. is_digit c \<or> c = CHR ''.'') s;
          suffix = trim (dropWhile (\<lambda>c. is_digit c \<or> c = CHR ''.'') s)
      in if num_str = [] then Inl (Bail ''invalid quota size: no numeric prefix'')
         else case parse_f64 num_str of
                None \<Rightarrow> Inl (Bail ''invalid quota size: cannot parse number'')
              | Some v \<Rightarrow>
                  (case size_shift (map to_upper suffix) of
                     None \<Rightarrow> Inl (Bail ''invalid quota size: unknown suffix'')
                   | Some sh \<Rightarrow> Inr (as_u64 (f64_round (f64_shift v sh)))))"

section \<open>Probing for project quotas\<close>

definition prj_line :: "string \<Rightarrow> pathbuf \<Rightarrow> nat \<times> bool option \<Rightarrow> nat \<times> bool option" where
  "prj_line line root best =
     (case split_whitespace line of
        dev # mp # ty # opts # r \<Rightarrow>
          (if path_starts_with root mp \<and> fst best \<le> length mp
           then (length mp, Some (''prjquota'' \<in> set (split_on CHR '','' opts)))
           else best)
      | _ \<Rightarrow> best)"

definition parse_proc_mounts_has_prjquota :: "string \<Rightarrow> pathbuf \<Rightarrow> bool" where
  "parse_proc_mounts_has_prjquota text root =
     (case snd (fold (\<lambda>line. prj_line line root) (lines text) (0, None)) of None \<Rightarrow> False | Some b \<Rightarrow> b)"

definition has_prjquota :: "env \<Rightarrow> pathbuf \<Rightarrow> bool cmd" where
  "has_prjquota E root =
     bindE (attempt (may_fail E ReadMounts ''/proc/mounts'')) (\<lambda>r.
     case r of Inl e \<Rightarrow> ret False
             | Inr u \<Rightarrow> asks (\<lambda>w. parse_proc_mounts_has_prjquota (mounts_text E (mtab w)) root))"

section \<open>Project ids\<close>

definition fnv_step :: "char \<Rightarrow> u32 \<Rightarrow> u32" where
  "fnv_step b h = (xor h (of_nat (of_char b))) * 16777619"

definition alloc_project_id :: "string \<Rightarrow> u32" where
  "alloc_project_id k = max (fold fnv_step k 2166136261) 2"

definition FS_XFLAG_PROJINHERIT :: u32 where
  "FS_XFLAG_PROJINHERIT = 0x200"

definition assign_project_quota :: "env \<Rightarrow> pathbuf \<Rightarrow> u32 \<Rightarrow> u64 \<Rightarrow> quota_mode cmd" where
  "assign_project_quota E upper pid qb =
     bindE (may_fail E OpenRead upper) (\<lambda>_.
     bindE (asks (is_dir upper)) (\<lambda>d.
     if \<not> d then throw (IoError OpenRead upper ENOTDIR)
     else bindE (asks (\<lambda>w. k_getxattr E upper w)) (\<lambda>existing.
     let flags = (case existing of Inr xa \<Rightarrow> fsx_xflags xa | Inl e \<Rightarrow> 0);
         xa = \<lparr>fsx_xflags = or flags FS_XFLAG_PROJINHERIT, fsx_extsize = 0, fsx_nextents = 0,
               fsx_projid = pid, fsx_cowextsize = 0\<rparr>
     in bindE (asks (\<lambda>w. k_setxattr E upper xa w)) (\<lambda>r.
     case r of
       None \<Rightarrow> bindE (modify (\<lambda>w. w\<lparr>xattrs := AList.update (resolve upper) xa (xattrs w)\<rparr>)) (\<lambda>_. ret Hard)
     | Some e \<Rightarrow> ret Soft))))"

section \<open>Properties\<close>

lemma bit_len_le: "n < 2 ^ k \<Longrightarrow> bit_len n \<le> k"
proof (induction k arbitrary: n)
  case 0
  then show ?case by (simp add: bit_len.simps)
next
  case (Suc k)
  then have "bit_len (n div 2) \<le> k" by simp
  then show ?case by (subst bit_len.simps) simp
qed

lemma round_half_even_exact: "0 < q \<Longrightarrow> round_half_even (k * q) q = k"
  by (simp add: round_half_even_def Let_def)

text \<open>An integer below \<open>2^53\<close> is represented exactly.\<close>

lemma f64_exact:
  assumes "n < 2 ^ 53"
  shows "\<exists>j. f64_of_ratio n 1 = (n * 2 ^ j, - int j)"
proof (cases "n = 0")
  case True
  then show ?thesis by (auto simp: f64_of_ratio_def intro: exI [of _ 0])
next
  case False
  have one: "bit_len 1 = 1" by (simp add: bit_len.simps)
  have len: "bit_len n \<le> 53" using assms by (rule bit_len_le)
  define e0 where "e0 = int (bit_len n) - int (bit_len 1) - 53"
  define e where "e = (if 2 ^ 53 * snd (scaled n 1 e0) \<le> fst (scaled n 1 e0) then e0 + 1 else e0)"
  have e: "f64_of_ratio n 1 = (round_half_even (fst (scaled n 1 e)) (snd (scaled n 1 e)), e)"
    using False by (simp add: f64_of_ratio_def Let_def e_def e0_def)
  have le: "e \<le> 0" using len one by (simp add: e_def e0_def)
  have "scaled n 1 e = (n * 2 ^ nat (- e), 1)" using le by (simp add: scaled_def)
  then have "round_half_even (fst (scaled n 1 e)) (snd (scaled n 1 e)) = n * 2 ^ nat (- e)"
    using round_half_even_exact [of 1 "n * 2 ^ nat (- e)"] by simp
  with e le show ?thesis by (intro exI [of _ "nat (- e)"]) simp
qed

lemma f64_round_exact: "f64_round (f64_shift (n * 2 ^ j, - int j) s) = n * 2 ^ s"
proof (cases "j \<le> s")
  case True
  then have "nat (int s - int j) = s - j" by simp
  moreover have "(2::nat) ^ j * 2 ^ (s - j) = 2 ^ s" using True by (metis le_add_diff_inverse power_add)
  ultimately show ?thesis using True by (simp add: f64_round_def f64_shift_def)
next
  case False
  define k where "k = j - s"
  have k: "0 < k" "nat (int j - int s) = k" using False by (auto simp: k_def)
  have p: "(2::nat) ^ j = 2 ^ s * 2 ^ k" using False by (simp add: k_def flip: power_add)
  have lt: "(2::nat) ^ (k - 1) < 2 ^ k" using k by simp
  have "(n * 2 ^ j + 2 ^ (k - 1)) div 2 ^ k = (2 ^ (k - 1) + n * 2 ^ s * 2 ^ k) div 2 ^ k"
    by (simp add: p algebra_simps)
  also have "\<dots> = n * 2 ^ s"
    using lt by (subst div_mult_self1) auto
  finally show ?thesis using False k by (simp add: f64_round_def f64_shift_def Let_def)
qed

lemma parse_f64_show_nat: "parse_f64 (show_nat n) = Some (f64_of_ratio n 1)"
proof -
  have "CHR ''.'' \<notin> set (show_nat n)"
    by (auto dest!: show_nat_digits simp: is_digit_range)
  then show ?thesis by (simp add: parse_f64_def split_on_none parse_digits_show_nat)
qed

text \<open>C40: A size made of a whole number below \<open>2^53\<close> and a known suffix in any case is that number
  times the suffix's power of two, saturated at the largest \<open>u64\<close>: the detour through doubles
  loses nothing there.\<close>

theorem parse_quota_size_exact:
  assumes "n < 2 ^ 53" and "\<forall>c\<in>set u. \<not> is_ws c \<and> \<not> is_digit c \<and> c \<noteq> CHR ''.''"
    and "size_shift (map to_upper u) = Some sh"
  shows "parse_quota_size (show_nat n @ u) = Inr (of_nat (min (n * 2 ^ sh) (2 ^ 64 - 1)))"
proof -
  have ws: "trim (show_nat n @ u) = show_nat n @ u"
    using assms(2) by (intro trim_no_ws) (auto dest: show_nat_digits is_digit_not_ws)
  have u: "trim u = u" using assms(2) by (intro trim_no_ws) auto
  let ?P = "\<lambda>c. is_digit c \<or> c = CHR ''.''"
  have none: "takeWhile ?P u = [] \<and> dropWhile ?P u = u" using assms(2) by (cases u) auto
  have all: "\<forall>c\<in>set (show_nat n). ?P c" by (auto dest: show_nat_digits)
  have "takeWhile ?P (show_nat n @ u) = show_nat n" "dropWhile ?P (show_nat n @ u) = u"
    using all none by (simp_all add: takeWhile_append2 dropWhile_append2)
  moreover obtain j where "f64_of_ratio n 1 = (n * 2 ^ j, - int j)"
    using f64_exact [OF assms(1)] by blast
  ultimately show ?thesis
    using assms(3)
    by (simp add: parse_quota_size_def ws Let_def u parse_f64_show_nat f64_round_exact as_u64_def)
qed

theorem parse_quota_size_exact_witness:
  "parse_quota_size (show_nat 10 @ ''MiB'') = Inr 10485760"
proof -
  have "size_shift (map to_upper ''MiB'') = Some 20" by code_simp
  then show ?thesis
    using parse_quota_size_exact [of 10 "''MiB''" 20] by (simp add: is_ws_def is_digit_def digit_val_def)
qed

text \<open>The mounts that cover the root, in the order of the table, with the length of the mount point.\<close>

definition covering :: "string list \<Rightarrow> pathbuf \<Rightarrow> (nat \<times> bool) list" where
  "covering ls root =
     List.map_filter (\<lambda>line. case split_whitespace line of
        dev # mp # ty # opts # r \<Rightarrow>
          (if path_starts_with root mp
           then Some (length mp, ''prjquota'' \<in> set (split_on CHR '','' opts)) else None)
      | _ \<Rightarrow> None) ls"

definition best_covering :: "(nat \<times> bool) list \<Rightarrow> bool" where
  "best_covering cs \<longleftrightarrow>
     cs \<noteq> [] \<and> snd (last (filter (\<lambda>c. \<forall>c'\<in>set cs. fst c' \<le> fst c) cs))"

definition best_step :: "nat \<times> bool \<Rightarrow> nat \<times> bool option \<Rightarrow> nat \<times> bool option" where
  "best_step c best = (if fst best \<le> fst c then (fst c, Some (snd c)) else best)"

lemma prj_fold: "fold (\<lambda>line. prj_line line root) ls b = fold best_step (covering ls root) b"
proof (induction ls arbitrary: b)
  case (Cons l ls)
  then show ?case
    by (auto simp: covering_def map_filter_simps prj_line_def best_step_def split: list.splits)
qed (simp add: covering_def map_filter_simps)

lemma best_fold:
  "fold best_step cs (0, None) =
     (if cs = [] then (0, None)
      else let m = filter (\<lambda>c. \<forall>c'\<in>set cs. fst c' \<le> fst c) cs
           in (fst (last m), Some (snd (last m)))) \<and>
   (cs \<noteq> [] \<longrightarrow> filter (\<lambda>c. \<forall>c'\<in>set cs. fst c' \<le> fst c) cs \<noteq> [])"
proof (induction cs rule: rev_induct)
  case (snoc c cs)
  show ?case
  proof (cases "cs = []")
    case True
    then show ?thesis by (simp add: best_step_def)
  next
    case False
    define m where "m = filter (\<lambda>c. \<forall>c'\<in>set cs. fst c' \<le> fst c) cs"
    have m: "m \<noteq> []" and f: "fold best_step cs (0, None) = (fst (last m), Some (snd (last m)))"
      using snoc False by (simp_all add: m_def Let_def)
    have top: "last m \<in> set m" using m by simp
    then have mx: "\<forall>c'\<in>set cs. fst c' \<le> fst (last m)" by (simp add: m_def)
    show ?thesis
    proof (cases "fst (last m) \<le> fst c")
      case True
      then have "\<forall>c'\<in>set cs. fst c' \<le> fst c" using mx by fastforce
      then show ?thesis using f True by (simp add: best_step_def [of c])
    next
      case less: False
      have nc: "\<not> (\<forall>c'\<in>set cs. fst c' \<le> fst c)" using less top by (auto simp: m_def)
      have "filter (\<lambda>d. \<forall>c'\<in>set (cs @ [c]). fst c' \<le> fst d) cs = m"
      proof -
        have "last m \<in> set cs" using top by (simp add: m_def)
        with less show ?thesis unfolding m_def by (intro filter_cong) (fastforce simp flip: m_def)+
      qed
      then have m': "filter (\<lambda>d. \<forall>c'\<in>set (cs @ [c]). fst c' \<le> fst d) (cs @ [c]) = m"
        using nc by auto
      have "fold best_step (cs @ [c]) (0, None) = (fst (last m), Some (snd (last m)))"
        using f less by (simp add: best_step_def [of c])
      with m m' show ?thesis by (simp only: m' Let_def) simp
    qed
  qed
qed simp

text \<open>The probe answers for the most specific mount that covers the root, the last one of those in
  the table when several are equally long, and no when none covers it.\<close>

theorem prjquota_most_specific:
  "parse_proc_mounts_has_prjquota text root = best_covering (covering (lines text) root)"
  using best_fold [of "covering (lines text) root"]
  by (auto simp: parse_proc_mounts_has_prjquota_def prj_fold best_covering_def Let_def)

text \<open>A project id is never one of the reserved ids 0 and 1.\<close>

theorem alloc_project_id_bounds: "2 \<le> alloc_project_id k"
  by (simp add: alloc_project_id_def)

lemma keeps_has_prjquota [keeps_intros]: "keeps P (has_prjquota E root)"
  by (auto simp: has_prjquota_def intro!: keeps_intros)

lemma assign_project_quota_state:
  "assign_project_quota E u pid qb w = (r, w') \<Longrightarrow> \<exists>x. w' = w\<lparr>xattrs := x\<rparr>"
proof -
  have *: "\<exists>x. v = v\<lparr>xattrs := x\<rparr>" for v :: world by (metis world.surjective world.update_convs(3))
  assume "assign_project_quota E u pid qb w = (r, w')"
  then show ?thesis
    by (cases r)
       (auto simp: assign_project_quota_def Let_def runs intro: * split: if_splits option.splits)
qed

text \<open>Assigning a project quota never sets a limit: the number of bytes asked for has no influence
  on what is done or returned, only the project id is stored, and any refusal of the kernel is
  soft mode and not an error.\<close>

theorem assign_project_quota_no_limit:
  "assign_project_quota E u pid qb = assign_project_quota E u pid qb' \<and>
   (is_dir u w \<and> fault E OpenRead u w = None \<longrightarrow>
      (\<exists>m w'. assign_project_quota E u pid qb w = (Inr m, w') \<and>
              (m = Hard \<longrightarrow> map_option fsx_projid (map_of (xattrs w') (resolve u)) = Some pid) \<and>
              (m = Soft \<longrightarrow> w' = w)))"
  by (auto simp: assign_project_quota_def Let_def io_defs may_fail_def split: option.splits)

theorem assign_project_quota_no_limit_witness:
  "\<exists>m w'. assign_project_quota quiet_env [] 7 1 (dir_world (Dir [])) = (Inr m, w')"
  using assign_project_quota_no_limit [of quiet_env "[]" 7 1 1 "dir_world (Dir [])"]
    is_dirI [of "dir_world (Dir [])" "[]" "[]"]
  by (auto simp: dir_world_def)

end
