(* ===== verification/Layout.thy ===== *)
theory Layout
  imports Quota
begin

text \<open>
  Where a fork lives under the data root, and the invariant of the registry document: keys are
  single names and every entry points to its own directories. The lemmas say that the directories
  of different forks, the bases and the registry file lie beside each other, and how the document
  and a subtree fare under the operations of the file system.
\<close>

section \<open>Paths\<close>

definition fork_dir :: "pathbuf \<Rightarrow> string \<Rightarrow> pathbuf" where
  "fork_dir root k = join (join root ''forks'') k"

definition upper_of :: "pathbuf \<Rightarrow> string \<Rightarrow> pathbuf" where
  "upper_of root k = join (fork_dir root k) ''upper''"

definition work_of :: "pathbuf \<Rightarrow> string \<Rightarrow> pathbuf" where
  "work_of root k = join (fork_dir root k) ''work''"

definition merged_of :: "pathbuf \<Rightarrow> string \<Rightarrow> pathbuf" where
  "merged_of root k = join (fork_dir root k) ''merged''"

definition rfc3339_now :: "env \<Rightarrow> string" where
  "rfc3339_now E = fmt_time E (now_secs E)"

definition not_found :: "error \<Rightarrow> bool" where
  "not_found e = (case e of RegistryNotFound k \<Rightarrow> True | _ \<Rightarrow> False)"

lemma seg_ok_names [simp]:
  "seg_ok ''forks''" "seg_ok ''upper''" "seg_ok ''work''" "seg_ok ''merged''" "seg_ok ''bases''"
  by (auto simp: seg_ok_def)

lemma resolve_fork_paths:
  assumes "seg_ok k"
  shows "resolve (fork_dir root k) = resolve root @ [''forks'', k]"
    "resolve (upper_of root k) = resolve root @ [''forks'', k, ''upper'']"
    "resolve (work_of root k) = resolve root @ [''forks'', k, ''work'']"
    "resolve (merged_of root k) = resolve root @ [''forks'', k, ''merged'']"
  using assms by (simp_all add: fork_dir_def upper_of_def work_of_def merged_of_def resolve_join)

lemma fork_path_parallel_registry:
  "(resolve root @ ''forks'' # p) \<parallel> (resolve root @ [''registry.json''])"
  "(resolve root @ ''forks'' # p) \<parallel> (resolve root @ [''registry.json.lock''])"
  "(resolve root @ [''registry.json'']) \<parallel> (resolve root @ ''forks'' # p)"
  "(resolve root @ [''registry.json.lock'']) \<parallel> (resolve root @ ''forks'' # p)"
  using parallel_snoc [of "''forks''" "''registry.json''" "resolve root" p "[]"]
    parallel_snoc [of "''forks''" "''registry.json.lock''" "resolve root" p "[]"]
    parallel_snoc [of "''registry.json''" "''forks''" "resolve root" "[]" p]
    parallel_snoc [of "''registry.json.lock''" "''forks''" "resolve root" "[]" p]
  by simp_all

lemma fork_paths_parallel:
  "k \<noteq> k' \<Longrightarrow> (resolve root @ ''forks'' # k # p) \<parallel> (resolve root @ ''forks'' # k' # q)"
  using parallel_snoc [of k k' "resolve root @ [''forks'']" p q] by simp

lemma beside_fork: "beside_registry root (resolve root @ ''forks'' # p)"
  by (simp add: beside_registry_def fork_path_parallel_registry)

section \<open>Reading entries\<close>

lemma read_doc_Inl_other: "read_doc E root w = (Inl e, w') \<Longrightarrow> \<not> not_found e"
  by (auto simp: read_doc_def Let_def runs not_found_def split: if_splits option.splits node.splits)

lemma read_doc_ok:
  "doc_at E root w = Some d \<Longrightarrow> (\<And>p. fault E OpenRead p w = None) \<Longrightarrow> read_doc E root w = (Inr d, w)"
  by (auto simp: doc_at_def read_doc_def Let_def path_exists_def metadata_absent metadata_not_symlink
      io_defs may_fail_def split: option.splits node.splits)

lemma get_fork_absent:
  assumes "doc_at E root w = Some d" and "get_fork E root k w = (Inl e, w')" and "not_found e"
  shows "fork_of d k = None"
  using assms read_doc_Inr [OF assms(1)]
  by (auto simp: get_fork_def runs fork_of_def dest: read_doc_Inl_other split: option.splits)

lemma get_base_absent:
  assumes "doc_at E root w = Some d" and "get_base E root k w = (Inl e, w')" and "not_found e"
  shows "base_of d k = None"
  using assms read_doc_Inr [OF assms(1)]
  by (auto simp: get_base_def runs base_of_def dest: read_doc_Inl_other split: option.splits)

lemma get_fork_known:
  "doc_at E root w = Some d \<Longrightarrow> get_fork E root k w = (Inr e, w') \<Longrightarrow> fork_of d k = Some e \<and> w' = w"
  by (auto simp: get_fork_Inr dest: read_doc_Inr read_doc_state)

lemma get_base_known:
  "doc_at E root w = Some d \<Longrightarrow> get_base E root k w = (Inr e, w') \<Longrightarrow> base_of d k = Some e \<and> w' = w"
  by (auto simp: get_base_Inr dest: read_doc_Inr read_doc_state)

section \<open>The document under file operations\<close>

lemma keeps_create_dir_other:
  "\<not> prefix q (resolve p) \<Longrightarrow> keeps (\<lambda>w. tlookup (fs w) q = x) (create_dir_all E p)"
  by (auto simp: keeps_def create_dir_all_def tmkdir_other tmkdir_take_other
      split: option.splits if_splits)

lemma doc_at_cong:
  "tlookup (fs w) (resolve root @ [''registry.json'']) = tlookup (fs w') (resolve root @ [''registry.json'']) \<Longrightarrow>
   doc_at E root w = doc_at E root w'"
  by (simp add: doc_at_def)

lemma keeps_doc:
  assumes "\<And>x. keeps (\<lambda>w. tlookup (fs w) (resolve root @ [''registry.json'']) = x) m"
  shows "keeps (\<lambda>w. Q (doc_at E root w)) m"
proof (rule keepsI)
  fix s r s'
  assume "m s = (r, s')" and q: "Q (doc_at E root s)"
  then have "tlookup (fs s') (resolve root @ [''registry.json'']) = tlookup (fs s) (resolve root @ [''registry.json''])"
    using keepsD [OF assms] by blast
  then have "doc_at E root s' = doc_at E root s" by (rule doc_at_cong)
  with q show "Q (doc_at E root s')" by simp
qed

lemma keeps_doc_open [keeps_intros]: "keeps (\<lambda>w. Q (doc_at E root w)) (registry_open E root)"
  unfolding registry_open_def by (intro keeps_doc keeps_create_dir_other) simp

lemma keeps_doc_parallel:
  assumes "resolve p \<parallel> (resolve root @ [''registry.json''])"
  shows "keeps (\<lambda>w. Q (doc_at E root w)) (create_dir_all E p)"
    "keeps (\<lambda>w. Q (doc_at E root w)) (remove_dir_all E p)"
    "keeps (\<lambda>w. Q (doc_at E root w)) (remove_dir E p)"
    "keeps (\<lambda>w. Q (doc_at E root w)) (remove_file E p)"
    "keeps (\<lambda>w. Q (doc_at E root w)) (place_file E op err p c)"
  by (intro keeps_doc keeps_parallel assms)+

lemma keeps_doc_fork_path:
  assumes "seg_ok k" and "p \<in> {fork_dir root k, upper_of root k, work_of root k, merged_of root k}"
  shows "keeps (\<lambda>w. Q (doc_at E root w)) (create_dir_all E p)"
    "keeps (\<lambda>w. Q (doc_at E root w)) (remove_dir_all E p)"
    "keeps (\<lambda>w. Q (doc_at E root w)) (remove_dir E p)"
proof -
  have "resolve p \<parallel> (resolve root @ [''registry.json''])"
    using assms by (auto simp: resolve_fork_paths fork_path_parallel_registry)
  then show "keeps (\<lambda>w. Q (doc_at E root w)) (create_dir_all E p)"
    "keeps (\<lambda>w. Q (doc_at E root w)) (remove_dir_all E p)"
    "keeps (\<lambda>w. Q (doc_at E root w)) (remove_dir E p)"
    by (intro keeps_doc_parallel; assumption)+
qed

lemma doc_at_blind:
  "doc_at E root (w\<lparr>mtab := m\<rparr>) = doc_at E root w"
  "doc_at E root (w\<lparr>stdout := o1\<rparr>) = doc_at E root w"
  "doc_at E root (w\<lparr>stderr := o1\<rparr>) = doc_at E root w"
  "doc_at E root (w\<lparr>xattrs := xa\<rparr>) = doc_at E root w"
  by (simp_all add: doc_at_def)

lemma doc_mtab_blind: "mtab_blind (\<lambda>w. Q (doc_at E root w))"
  by (simp add: mtab_blind_def doc_at_blind)

lemma doc_print_blind: "print_blind (\<lambda>w. Q (doc_at E root w))"
  by (simp add: print_blind_def doc_at_blind)

section \<open>Invariant of the document\<close>

definition entry_ok :: "pathbuf \<Rightarrow> string \<Rightarrow> fork_entry \<Rightarrow> bool" where
  "entry_ok root k e \<longleftrightarrow>
     upper_path e = upper_of root k \<and> work_path e = work_of root k \<and>
     (merged_path e = None \<or> merged_path e = Some (merged_of root k))"

definition doc_ok :: "pathbuf \<Rightarrow> registry_doc \<Rightarrow> bool" where
  "doc_ok root d \<longleftrightarrow>
     wf_doc d \<and> (\<forall>(k, e)\<in>set (forks d). seg_ok k \<and> entry_ok root k e)"

definition reg_inv :: "env \<Rightarrow> pathbuf \<Rightarrow> world \<Rightarrow> bool" where
  "reg_inv E root w \<longleftrightarrow> (case doc_at E root w of None \<Rightarrow> False | Some d \<Rightarrow> doc_ok root d)"

lemma reg_invE: "reg_inv E root w \<Longrightarrow> (\<And>d. doc_at E root w = Some d \<Longrightarrow> doc_ok root d \<Longrightarrow> P) \<Longrightarrow> P"
  by (auto simp: reg_inv_def split: option.splits)

lemma doc_ok_fork: "doc_ok root d \<Longrightarrow> fork_of d k = Some e \<Longrightarrow> seg_ok k \<and> entry_ok root k e"
  by (auto simp: doc_ok_def fork_of_def dest: map_of_SomeD)

lemma set_alist_update: "x \<in> set (AList.update k v al) \<Longrightarrow> x = (k, v) \<or> x \<in> set al"
  by (induction al) (auto split: if_splits)

lemma set_alist_delete: "x \<in> set (AList.delete k al) \<Longrightarrow> x \<in> set al"
  by (auto simp: AList.delete_eq)

lemma doc_ok_insert_fork:
  "doc_ok root d \<Longrightarrow> seg_ok k \<Longrightarrow> entry_ok root k e \<Longrightarrow> doc_ok root (doc_insert_fork k e d)"
  using fork_store.wf_ins [of d k e]
  by (auto simp: doc_ok_def doc_insert_fork_def dest!: set_alist_update)

lemma doc_ok_remove_fork: "doc_ok root d \<Longrightarrow> doc_remove_fork k d = Inr d' \<Longrightarrow> doc_ok root d'"
  using fork_store.wf_rmv [of d k d']
  by (auto simp: doc_ok_def doc_remove_fork_def split: option.splits dest!: set_alist_delete)

lemma doc_ok_insert_base: "doc_ok root d \<Longrightarrow> doc_ok root (doc_insert_base k e d)"
  using base_store.wf_ins [of d k e] by (auto simp: doc_ok_def doc_insert_base_def)

lemma doc_ok_remove_base: "doc_ok root d \<Longrightarrow> doc_remove_base k d = Inr d' \<Longrightarrow> doc_ok root d'"
  using base_store.wf_rmv [of d k d']
  by (auto simp: doc_ok_def doc_remove_base_def split: option.splits)

lemma doc_ok_default: "doc_ok root default_registry_doc"
  by (simp add: doc_ok_def default_registry_doc_def wf_doc_def)

text \<open>A locked change keeps the invariant when its function on documents does.\<close>

lemma keeps_inv_lock:
  assumes flush: "flush_ok E root" and step: "\<And>d d'. doc_ok root d \<Longrightarrow> f d = Inr d' \<Longrightarrow> doc_ok root d'"
  shows "keeps (reg_inv E root) (with_exclusive_lock E root f)"
proof (rule keepsI)
  fix w r w'
  assume run: "with_exclusive_lock E root f w = (r, w')" and "reg_inv E root w"
  then obtain d where d: "doc_at E root w = Some d" "doc_ok root d" by (blast elim: reg_invE)
  show "reg_inv E root w'"
  proof (cases r)
    case (Inl e)
    then show ?thesis using run d with_exclusive_lock_Inl [of E root f w e w'] by (simp add: reg_inv_def)
  next
    case (Inr u)
    then show ?thesis
      using run d with_exclusive_lock_Inr [OF flush d(1)] step by (fastforce simp: reg_inv_def)
  qed
qed

lemma reg_inv_Q: "reg_inv E root = (\<lambda>w. (case doc_at E root w of None \<Rightarrow> False | Some d \<Rightarrow> doc_ok root d))"
  by (rule ext) (simp add: reg_inv_def)

lemma keeps_inv_open [keeps_intros]: "keeps (reg_inv E root) (registry_open E root)"
  unfolding reg_inv_Q by (rule keeps_doc_open)

lemma keeps_inv_fork_path:
  assumes "seg_ok k" and "p \<in> {fork_dir root k, upper_of root k, work_of root k, merged_of root k}"
  shows "keeps (reg_inv E root) (create_dir_all E p)"
    "keeps (reg_inv E root) (remove_dir_all E p)"
    "keeps (reg_inv E root) (remove_dir E p)"
  unfolding reg_inv_Q by (rule keeps_doc_fork_path [OF assms])+

lemma keeps_inv_mount [keeps_intros]:
  "keeps (reg_inv E root) (sys_mount E err m)" "keeps (reg_inv E root) (sys_umount E err p)"
  unfolding reg_inv_Q by (intro keeps_mtab_blind doc_mtab_blind)+

lemma keeps_inv_print [keeps_intros]:
  "keeps (reg_inv E root) (println E j)" "keeps (reg_inv E root) (eprintln E j)"
  "keeps (reg_inv E root) (write_out E j)" "keeps (reg_inv E root) (write_err E j)"
  unfolding reg_inv_Q by (intro keeps_print_blind doc_print_blind)+

lemma errs_keep_lock: "errs_keep (\<lambda>w. Q (doc_at E root w)) (with_exclusive_lock E root f)"
  using with_exclusive_lock_Inl by (fastforce simp: errs_keep_def)

text \<open>Only the file tree changes.\<close>

lemma keeps_mtab [keeps_intros]:
  "keeps (\<lambda>w. Q (mtab w)) (registry_open E root)"
  "keeps (\<lambda>w. Q (mtab w)) (create_dir_all E p)"
  "keeps (\<lambda>w. Q (mtab w)) (remove_dir_all E p)"
  "keeps (\<lambda>w. Q (mtab w)) (remove_dir E p)"
  "keeps (\<lambda>w. Q (mtab w)) (with_exclusive_lock E root f)"
  unfolding registry_open_def
  by (intro keeps_fs_blind keeps_registry_blind; simp add: fs_blind_def)+

lemma keeps_mtab_ops [keeps_intros]:
  "keeps (\<lambda>w. Q (mtab w)) (insert_fork E root k e)"
  "keeps (\<lambda>w. Q (mtab w)) (remove_fork E root k)"
  "keeps (\<lambda>w. Q (mtab w)) (insert_base E root k b)"
  "keeps (\<lambda>w. Q (mtab w)) (remove_base E root k)"
  unfolding registry_op_defs by (intro keeps_intros)+

section \<open>A concrete root\<close>

text \<open>The registry of the witnesses: a base, and a fork of it when asked for.\<close>

definition sample_base :: base_entry where
  "sample_base = \<lparr>lower_path = ''/d/bases/b/lower'', meta_path = ''/d/bases/b/meta.json'',
     base_created_at = ''t'', cache_lower_paths = []\<rparr>"

definition sample_fork :: "string \<Rightarrow> fork_entry" where
  "sample_fork k = \<lparr>base_key = ''b'', upper_path = upper_of ''/d'' k, work_path = work_of ''/d'' k,
     merged_path = Some (merged_of ''/d'' k), quota_bytes = None, quota_mode = Soft,
     fork_created_at = ''t'', labels = []\<rparr>"

definition sample_doc :: "string list \<Rightarrow> registry_doc" where
  "sample_doc ks = \<lparr>bases = [(''b'', sample_base)], forks = map (\<lambda>k. (k, sample_fork k)) ks\<rparr>"

definition sample_fork_dir :: node where
  "sample_fork_dir = Dir [(''upper'', Dir [(''x'', RegFile (Raw [1, 2, 3]))]), (''work'', Dir []), (''merged'', Dir [])]"

definition sample_world :: "string list \<Rightarrow> world" where
  "sample_world ks = dir_world (Dir [(''d'', Dir
     [(''registry.json'', RegFile (RegistryJson (sample_doc ks))),
      (''bases'', Dir [(''b'', Dir [(''lower'', Dir [])])]),
      (''forks'', Dir (map (\<lambda>k. (k, sample_fork_dir)) ks))])])"

definition no_flock :: "fs_op \<Rightarrow> pathbuf \<Rightarrow> world \<Rightarrow> errno option" where
  "no_flock op p w = (if op = FlockOp then Some 11 else None)"

definition locked_env :: env where
  "locked_env = quiet_env\<lparr>fault := no_flock\<rparr>"

lemma flush_ok_quiet [simp]: "flush_ok quiet_env root"
  by (simp add: flush_ok_def)

lemma flush_ok_locked [simp]: "flush_ok locked_env root"
  by (simp add: flush_ok_def locked_env_def no_flock_def)

lemma kernel_ok_locked [simp]: "kernel_ok locked_env"
  using quiet_env_kernel_ok by (simp add: locked_env_def kernel_ok_def)

lemma resolve_d [simp]: "resolve ''/d'' = [''d'']"
  by code_simp

lemma doc_at_sample: "doc_at E ''/d'' (sample_world ks) = Some (sample_doc ks)"
  by (simp add: doc_at_def sample_world_def dir_world_def content_doc_def)

lemma doc_ok_sample: "distinct ks \<Longrightarrow> \<forall>k\<in>set ks. seg_ok k \<Longrightarrow> doc_ok ''/d'' (sample_doc ks)"
  by (auto simp: doc_ok_def sample_doc_def wf_doc_def sample_fork_def entry_ok_def comp_def)

lemma doc_ok_sample_f: "doc_ok ''/d'' (sample_doc [''f''])"
  by (rule doc_ok_sample) (auto simp: seg_ok_def)

lemma fork_of_sample: "fork_of (sample_doc [''f'']) ''f'' = Some (sample_fork ''f'')"
  by (simp add: fork_of_def sample_doc_def)

lemma merged_of_sample: "merged_of ''/d'' ''f'' = ''/d/forks/f/merged''"
  by code_simp

lemma base_key_sample: "base_key (sample_fork k) = ''b''"
  by (simp add: sample_fork_def)

lemma base_of_sample: "base_of (sample_doc ks) ''b'' = Some sample_base"
  by (simp add: base_of_def sample_doc_def)

end
