(* ===== verification/RegistryLock.thy ===== *)
theory RegistryLock
  imports Layout
begin

text \<open>
  Processes updating one registry at the same time (src/registry.rs, \<open>with_exclusive_lock\<close>): the
  update is cut into its steps, each of them the command of \<open>Registry\<close>, and the steps of any number
  of processes interleave. The kernel's exclusive lock is \<open>holder\<close>. The specification is that of
  updates applied one after another.
\<close>

section \<open>Steps\<close>

datatype phase =
    Start
  | Holding
  | HasDoc registry_doc
  | Ready registry_doc
  | Persisted
  | Finished "error + unit"

record lock_cfg =
  cfg_world :: world
  holder :: "nat option"
  phase_of :: "nat \<Rightarrow> phase"
  commits :: "nat list"

definition at_start :: "world \<Rightarrow> lock_cfg" where
  "at_start w = \<lparr>cfg_world = w, holder = None, phase_of = (\<lambda>i. Start), commits = []\<rparr>"

definition move :: "nat \<Rightarrow> phase \<Rightarrow> world \<Rightarrow> lock_cfg \<Rightarrow> lock_cfg" where
  "move i ph w c = c\<lparr>cfg_world := w, phase_of := (phase_of c)(i := ph)\<rparr>"

text \<open>Process \<open>i\<close> makes the change \<open>f i\<close>. An error, at whatever step, drops the guard.\<close>

inductive lock_step ::
    "env \<Rightarrow> pathbuf \<Rightarrow> (nat \<Rightarrow> registry_doc \<Rightarrow> error + registry_doc) \<Rightarrow> lock_cfg \<Rightarrow> lock_cfg \<Rightarrow> bool"
  for E root f where
  acquire: "phase_of c i = Start \<Longrightarrow> holder c = None \<Longrightarrow>
    lock_acquire E (lock_path root) (cfg_world c) = (Inr (), w) \<Longrightarrow>
    lock_step E root f c ((move i Holding w c)\<lparr>holder := Some i\<rparr>)"
| acquire_err: "phase_of c i = Start \<Longrightarrow>
    lock_acquire E (lock_path root) (cfg_world c) = (Inl e, w) \<Longrightarrow>
    lock_step E root f c (move i (Finished (Inl e)) w c)"
| read: "phase_of c i = Holding \<Longrightarrow> read_doc E root (cfg_world c) = (Inr d, w) \<Longrightarrow>
    lock_step E root f c (move i (HasDoc d) w c)"
| read_err: "phase_of c i = Holding \<Longrightarrow> read_doc E root (cfg_world c) = (Inl e, w) \<Longrightarrow>
    lock_step E root f c ((move i (Finished (Inl e)) w c)\<lparr>holder := None\<rparr>)"
| change: "phase_of c i = HasDoc d \<Longrightarrow> f i d = Inr d' \<Longrightarrow>
    lock_step E root f c (move i (Ready d') (cfg_world c) c)"
| change_err: "phase_of c i = HasDoc d \<Longrightarrow> f i d = Inl e \<Longrightarrow>
    lock_step E root f c ((move i (Finished (Inl e)) (cfg_world c) c)\<lparr>holder := None\<rparr>)"
| persist: "phase_of c i = Ready d \<Longrightarrow> write_doc E root d (cfg_world c) = (Inr (), w) \<Longrightarrow>
    lock_step E root f c ((move i Persisted w c)\<lparr>commits := commits c @ [i]\<rparr>)"
| persist_err: "phase_of c i = Ready d \<Longrightarrow> write_doc E root d (cfg_world c) = (Inl e, w) \<Longrightarrow>
    lock_step E root f c ((move i (Finished (Inl e)) w c)\<lparr>holder := None\<rparr>)"
| unlock: "phase_of c i = Persisted \<Longrightarrow>
    lock_step E root f c ((move i (Finished (Inr ())) (cfg_world c) c)\<lparr>holder := None\<rparr>)"
| others: "doc_at E root w = doc_at E root (cfg_world c) \<Longrightarrow>
    lock_step E root f c (c\<lparr>cfg_world := w\<rparr>)"

inductive_cases lock_stepE: "lock_step E root f c c'"

definition lock_run ::
    "env \<Rightarrow> pathbuf \<Rightarrow> (nat \<Rightarrow> registry_doc \<Rightarrow> error + registry_doc) \<Rightarrow> lock_cfg \<Rightarrow> lock_cfg \<Rightarrow> bool" where
  "lock_run E root f = (lock_step E root f)\<^sup>*\<^sup>*"

section \<open>Specification\<close>

primrec apply_updates ::
    "(nat \<Rightarrow> registry_doc \<Rightarrow> error + registry_doc) \<Rightarrow> nat list \<Rightarrow> registry_doc \<Rightarrow> error + registry_doc" where
  "apply_updates f [] d = Inr d"
| "apply_updates f (i # is) d = (case f i d of Inl e \<Rightarrow> Inl e | Inr d' \<Rightarrow> apply_updates f is d')"

lemma apply_updates_snoc:
  "apply_updates f is d = Inr d' \<Longrightarrow> apply_updates f (is @ [i]) d = f i d'"
  by (induction "is" arbitrary: d) (auto split: sum.splits)

section \<open>One process alone\<close>

text \<open>Alone, the steps are exactly the command \<open>with_exclusive_lock\<close>.\<close>

text \<open>From \<open>c\<close>, steps of \<open>i\<close> alone end it with result \<open>r\<close> in world \<open>w'\<close>, the lock released.\<close>

definition finishes ::
    "env \<Rightarrow> pathbuf \<Rightarrow> (nat \<Rightarrow> registry_doc \<Rightarrow> error + registry_doc) \<Rightarrow> nat \<Rightarrow> lock_cfg \<Rightarrow> error + unit \<Rightarrow> world \<Rightarrow> bool" where
  "finishes E root f i c r w' \<longleftrightarrow>
     (\<exists>c'. lock_run E root f c c' \<and> phase_of c' = (phase_of c)(i := Finished r) \<and> cfg_world c' = w' \<and> holder c' = None)"

lemma finishes_last:
  "lock_step E root f c c' \<Longrightarrow> phase_of c' = (phase_of c)(i := Finished r) \<Longrightarrow> cfg_world c' = w' \<Longrightarrow> holder c' = None \<Longrightarrow>
   finishes E root f i c r w'"
  unfolding finishes_def lock_run_def by blast

lemma finishes_step:
  assumes "lock_step E root f c c1" and "finishes E root f i c1 r w'" and "phase_of c1 = (phase_of c)(i := ph)"
  shows "finishes E root f i c r w'"
  using assms unfolding finishes_def lock_run_def by (metis converse_rtranclp_into_rtranclp fun_upd_upd)

lemma solo_write:
  assumes "write_doc E root d (cfg_world c) = (r, w')" and "phase_of c i = Ready d"
  shows "finishes E root f i c r w'"
proof (cases r)
  case (Inl e)
  with assms show ?thesis
    by (intro finishes_last [OF persist_err [of c i d E root e w' f]]) (auto simp: move_def)
next
  case (Inr u)
  let ?c1 = "(move i Persisted w' c)\<lparr>commits := commits c @ [i]\<rparr>"
  have "finishes E root f i ?c1 r w'"
    using Inr by (intro finishes_last [OF unlock [of ?c1 i]]) (auto simp: move_def)
  with assms Inr show ?thesis
    by (intro finishes_step [OF persist [of c i d E root w' f]]) (auto simp: move_def)
qed

lemma solo_change:
  assumes "bindE (of_result (f i d)) (write_doc E root) (cfg_world c) = (r, w')" and "phase_of c i = HasDoc d"
  shows "finishes E root f i c r w'"
proof (cases "f i d")
  case (Inl e)
  with assms show ?thesis
    by (intro finishes_last [OF change_err [of c i d f e]]) (auto simp: move_def bindE_def of_result_def)
next
  case (Inr d')
  with assms have "finishes E root f i (move i (Ready d') (cfg_world c) c) r w'"
    by (intro solo_write) (auto simp: move_def bindE_def of_result_def)
  with assms Inr show ?thesis
    by (intro finishes_step [OF change [of c i d f d']]) (auto simp: move_def)
qed

lemma solo_read:
  assumes "bindE (read_doc E root) (\<lambda>d. bindE (of_result (f i d)) (write_doc E root)) (cfg_world c) = (r, w')"
    and "phase_of c i = Holding"
  shows "finishes E root f i c r w'"
proof (cases "read_doc E root (cfg_world c)")
  case (Pair q w1)
  show ?thesis
  proof (cases q)
    case (Inl e)
    with assms Pair show ?thesis
      by (intro finishes_last [OF read_err [of c i E root e w1 f]]) (auto simp: move_def bindE_def)
  next
    case (Inr d)
    with assms Pair have "finishes E root f i (move i (HasDoc d) w1 c) r w'"
      by (intro solo_change) (auto simp: move_def bindE_def)
    with assms Pair Inr show ?thesis
      by (intro finishes_step [OF read [of c i E root d w1 f]]) (auto simp: move_def)
  qed
qed

lemma solo_run:
  assumes "with_exclusive_lock E root (f i) (cfg_world c) = (r, w')"
    and "holder c = None" "phase_of c i = Start"
  shows "finishes E root f i c r w'"
proof (cases "lock_acquire E (lock_path root) (cfg_world c)")
  case (Pair q w1)
  show ?thesis
  proof (cases q)
    case (Inl e)
    with assms Pair show ?thesis
      by (intro finishes_last [OF acquire_err [of c i E root e w1 f]]) (auto simp: move_def with_exclusive_lock_def bindE_def)
  next
    case (Inr u)
    with assms(1) Pair have "finishes E root f i ((move i Holding w1 c)\<lparr>holder := Some i\<rparr>) r w'"
      by (intro solo_read) (auto simp: move_def with_exclusive_lock_def bindE_def)
    with assms Pair Inr show ?thesis
      by (intro finishes_step [OF acquire [of c i E root w1 f]]) (auto simp: move_def)
  qed
qed

section \<open>Many processes\<close>

definition in_section :: "phase \<Rightarrow> bool" where
  "in_section ph \<longleftrightarrow> (case ph of Start \<Rightarrow> False | Finished r \<Rightarrow> False | _ \<Rightarrow> True)"

definition committed :: "phase \<Rightarrow> bool" where
  "committed ph \<longleftrightarrow> ph = Persisted \<or> ph = Finished (Inr ())"

text \<open>One process at a time is between its lock and its unlock, and what it has read is what is there.\<close>

definition lock_inv ::
    "env \<Rightarrow> pathbuf \<Rightarrow> (nat \<Rightarrow> registry_doc \<Rightarrow> error + registry_doc) \<Rightarrow> registry_doc \<Rightarrow> lock_cfg \<Rightarrow> bool" where
  "lock_inv E root f d0 c \<longleftrightarrow>
     (\<exists>d. doc_at E root (cfg_world c) = Some d \<and> apply_updates f (commits c) d0 = Inr d \<and>
        (\<forall>i x. phase_of c i = HasDoc x \<longrightarrow> x = d) \<and> (\<forall>i x. phase_of c i = Ready x \<longrightarrow> f i d = Inr x)) \<and>
     distinct (commits c) \<and> (\<forall>i. in_section (phase_of c i) \<longleftrightarrow> holder c = Some i) \<and>
     (\<forall>i. i \<in> set (commits c) \<longleftrightarrow> committed (phase_of c i))"

lemma lock_inv_start: "doc_at E root w = Some d \<Longrightarrow> lock_inv E root f d (at_start w)"
  by (simp add: lock_inv_def at_start_def in_section_def committed_def)

text \<open>A step that leaves the document alone.\<close>

lemma lock_inv_move:
  assumes inv: "lock_inv E root f d0 c" and doc: "doc_at E root w = doc_at E root (cfg_world c)"
    and com: "committed ph = committed (phase_of c i)"
    and hold: "h = (if in_section ph then Some i else if in_section (phase_of c i) then None else holder c)"
    and enter: "in_section ph \<Longrightarrow> \<not> in_section (phase_of c i) \<Longrightarrow> holder c = None"
    and data: "\<And>d x. doc_at E root (cfg_world c) = Some d \<Longrightarrow> ph = HasDoc x \<Longrightarrow> x = d"
      "\<And>d x. doc_at E root (cfg_world c) = Some d \<Longrightarrow> ph = Ready x \<Longrightarrow> f i d = Inr x"
  shows "lock_inv E root f d0 ((move i ph w c)\<lparr>holder := h\<rparr>)"
  using inv doc com hold enter data
  unfolding lock_inv_def move_def by (fastforce split: if_splits)

lemma lock_inv_holder: "lock_inv E root f d0 c \<Longrightarrow> in_section (phase_of c i) \<Longrightarrow> holder c = Some i"
  by (simp add: lock_inv_def)

lemma lock_inv_doc:
  "lock_inv E root f d0 c \<Longrightarrow> \<exists>d. doc_at E root (cfg_world c) = Some d"
  by (auto simp: lock_inv_def)

lemma lock_inv_persist:
  assumes inv: "lock_inv E root f d0 c" and ph: "phase_of c i = Ready x"
    and doc: "doc_at E root w = Some x"
  shows "lock_inv E root f d0 ((move i Persisted w c)\<lparr>commits := commits c @ [i]\<rparr>)"
proof -
  obtain d where d: "doc_at E root (cfg_world c) = Some d" "apply_updates f (commits c) d0 = Inr d"
    and r: "\<forall>i x. phase_of c i = Ready x \<longrightarrow> f i d = Inr x"
    using inv by (auto simp: lock_inv_def)
  have f: "f i d = Inr x" using r ph by simp
  have "apply_updates f (commits c @ [i]) d0 = Inr x" using apply_updates_snoc [OF d(2), of i] f by simp
  moreover have "i \<notin> set (commits c)" using inv ph by (auto simp: lock_inv_def committed_def)
  moreover have alone: "phase_of c j \<noteq> HasDoc y" "phase_of c j \<noteq> Ready y" if "j \<noteq> i" for j y
  proof -
    have "holder c = Some i" using lock_inv_holder [OF inv, of i] ph by (simp add: in_section_def)
    then have "\<not> in_section (phase_of c j)" using inv that by (simp add: lock_inv_def)
    then show "phase_of c j \<noteq> HasDoc y" "phase_of c j \<noteq> Ready y" by (auto simp: in_section_def)
  qed
  moreover have "in_section Persisted" "in_section (Ready x)" "committed Persisted" "\<not> committed (Ready x)"
    by (simp_all add: in_section_def committed_def)
  ultimately show ?thesis
    using inv doc ph unfolding lock_inv_def move_def
    by simp (metis)
qed

lemma lock_step_inv:
  assumes "lock_step E root f c c'" and inv: "lock_inv E root f d0 c" and flush: "flush_ok E root"
  shows "lock_inv E root f d0 c'"
  using assms(1)
proof cases
  case (acquire i w)
  then show ?thesis
    using inv by (auto intro!: lock_inv_move simp: committed_def in_section_def dest: lock_acquire_doc)
next
  case (acquire_err i e w)
  have "lock_inv E root f d0 ((move i (Finished (Inl e)) w c)\<lparr>holder := holder c\<rparr>)"
    using inv acquire_err by (intro lock_inv_move) (auto simp: committed_def in_section_def dest: lock_acquire_doc)
  then show ?thesis using acquire_err by (simp add: move_def)
next
  case (read i d w)
  have "w = cfg_world c" using read read_doc_state by blast
  then have "lock_inv E root f d0 ((move i (HasDoc d) w c)\<lparr>holder := holder c\<rparr>)"
    using inv read lock_inv_holder [OF inv, of i]
    by (intro lock_inv_move) (auto simp: committed_def in_section_def dest: read_doc_Inr)
  then show ?thesis using read by (simp add: move_def)
next
  case (read_err i e w)
  then have "w = cfg_world c" using read_doc_state by blast
  then show ?thesis
    using inv read_err by (auto intro!: lock_inv_move simp: committed_def in_section_def)
next
  case (change i d d')
  have same: "x = d" if "doc_at E root (cfg_world c) = Some x" for x
    using inv change that by (auto simp: lock_inv_def)
  have "lock_inv E root f d0 ((move i (Ready d') (cfg_world c) c)\<lparr>holder := holder c\<rparr>)"
    using inv change lock_inv_holder [OF inv, of i] same
    by (intro lock_inv_move) (auto simp: committed_def in_section_def)
  then show ?thesis using change by (simp add: move_def)
next
  case (change_err i d e)
  then show ?thesis
    using inv by (auto intro!: lock_inv_move simp: committed_def in_section_def)
next
  case (persist i d w)
  then show ?thesis using lock_inv_persist [OF inv] write_doc_Inr [OF flush] by simp
next
  case (persist_err i d e w)
  then have "w = cfg_world c" using write_doc_Inl by blast
  then show ?thesis
    using inv persist_err by (auto intro!: lock_inv_move simp: committed_def in_section_def)
next
  case (unlock i)
  then show ?thesis
    using inv by (auto intro!: lock_inv_move simp: committed_def in_section_def)
next
  case (others w)
  then show ?thesis using inv by (simp add: lock_inv_def)
qed

lemma lock_run_inv:
  "lock_run E root f c c' \<Longrightarrow> flush_ok E root \<Longrightarrow> lock_inv E root f d0 c \<Longrightarrow> lock_inv E root f d0 c'"
  unfolding lock_run_def by (induction rule: rtranclp_induct) (auto intro: lock_step_inv)

text \<open>C4: However the updates of any number of processes interleave, the document on disk is always the
  one that the committed updates give when they are applied one after another in the order of their
  commits. An update is reported as a success only when it is among them, exactly once, and at most
  one process at a time is between locking and unlocking.\<close>

theorem registry_serializable:
  assumes "lock_run E root f (at_start w) c" and "doc_at E root w = Some d0" and "flush_ok E root"
  shows "\<exists>d. doc_at E root (cfg_world c) = Some d \<and> apply_updates f (commits c) d0 = Inr d \<and>
    distinct (commits c) \<and> (\<forall>i. phase_of c i = Finished (Inr ()) \<longrightarrow> i \<in> set (commits c)) \<and>
    (\<forall>i e. phase_of c i = Finished (Inl e) \<longrightarrow> i \<notin> set (commits c)) \<and>
    (\<forall>i j. in_section (phase_of c i) \<and> in_section (phase_of c j) \<longrightarrow> i = j)"
  using lock_run_inv [OF assms(1,3) lock_inv_start [OF assms(2)]]
  unfolding lock_inv_def by (force simp: committed_def)

text \<open>Two processes, each inserting a fork of its own.\<close>

definition two_inserts :: "nat \<Rightarrow> registry_doc \<Rightarrow> error + registry_doc" where
  "two_inserts i d = (let k = (if i = 0 then ''f'' else ''g'') in Inr (doc_insert_fork k (sample_fork k) d))"

abbreviation two_run :: "(error + unit) \<times> world" where
  "two_run \<equiv> with_exclusive_lock quiet_env ''/d'' (two_inserts 1)
     (snd (with_exclusive_lock quiet_env ''/d'' (two_inserts 0) (sample_world [])))"

theorem registry_serializable_witness:
  "\<exists>c d. lock_run quiet_env ''/d'' two_inserts (at_start (sample_world [])) c \<and>
     doc_at quiet_env ''/d'' (cfg_world c) = Some d \<and> apply_updates two_inserts (commits c) (sample_doc []) = Inr d \<and>
     {0, 1} \<subseteq> set (commits c)"
proof -
  let ?one = "with_exclusive_lock quiet_env ''/d'' (two_inserts 0) (sample_world [])"
  have 1: "?one = (Inr (), snd ?one)" by (rule succeeds) code_simp
  have 2: "two_run = (Inr (), snd two_run)" by (rule succeeds) code_simp
  have start: "cfg_world (at_start (sample_world [])) = sample_world []" "holder (at_start (sample_world [])) = None"
    "phase_of (at_start (sample_world [])) = (\<lambda>i. Start)"
    by (simp_all add: at_start_def)
  from solo_run [of quiet_env "''/d''" two_inserts 0 "at_start (sample_world [])", unfolded finishes_def] 1 start
  obtain c1 where c1: "lock_run quiet_env ''/d'' two_inserts (at_start (sample_world [])) c1"
    "phase_of c1 = (\<lambda>i. Start)(0 := Finished (Inr ()))" "cfg_world c1 = snd ?one" "holder c1 = None"
    by metis
  from solo_run [of quiet_env "''/d''" two_inserts 1 c1, unfolded finishes_def] 2 c1
  obtain c2 where c2: "lock_run quiet_env ''/d'' two_inserts c1 c2"
    "phase_of c2 = (phase_of c1)(1 := Finished (Inr ()))" by fastforce
  have run: "lock_run quiet_env ''/d'' two_inserts (at_start (sample_world [])) c2"
    using c1(1) c2(1) unfolding lock_run_def by (rule rtranclp_trans)
  have "phase_of c2 0 = Finished (Inr ())" "phase_of c2 1 = Finished (Inr ())" using c1(2) c2(2) by simp_all
  with registry_serializable [OF run doc_at_sample flush_ok_quiet] run show ?thesis by blast
qed

text \<open>Inserting under different keys: none is lost.\<close>

lemma apply_inserts:
  assumes "apply_updates (\<lambda>i d. Inr (doc_insert_fork (k i) (e i) d)) is d0 = Inr d" and "inj k" and "distinct is"
  shows "(\<forall>i\<in>set is. fork_of d (k i) = Some (e i)) \<and> (\<forall>x. x \<notin> k ` set is \<longrightarrow> fork_of d x = fork_of d0 x)"
  using assms(1,3)
proof (induction "is" arbitrary: d0)
  case (Cons i "is")
  then have IH: "\<forall>j\<in>set is. fork_of d (k j) = Some (e j)"
    "\<forall>x. x \<notin> k ` set is \<longrightarrow> fork_of d x = fork_of (doc_insert_fork (k i) (e i) d0) x"
    by auto
  have "k i \<notin> k ` set is" using Cons.prems(2) assms(2) by (auto dest: injD)
  then have "fork_of d (k i) = Some (e i)" using IH(2) fork_store.look_ins [of "k i" "e i" d0] by simp
  with IH show ?case using fork_store.ins_other [of _ "k i" "e i" d0] by auto
qed simp

lemma concurrent_inserts:
  assumes "lock_run E root (\<lambda>i d. Inr (doc_insert_fork (k i) (e i) d)) (at_start w) c"
    and "doc_at E root w = Some d0" and "flush_ok E root" and "inj k"
  shows "\<exists>d. doc_at E root (cfg_world c) = Some d \<and>
    (\<forall>i. phase_of c i = Finished (Inr ()) \<longrightarrow> fork_of d (k i) = Some (e i))"
proof -
  have inv: "lock_inv E root (\<lambda>i d. Inr (doc_insert_fork (k i) (e i) d)) d0 c"
    using lock_run_inv [OF assms(1,3) lock_inv_start [OF assms(2)]] .
  then obtain d where d: "doc_at E root (cfg_world c) = Some d"
    "apply_updates (\<lambda>i d. Inr (doc_insert_fork (k i) (e i) d)) (commits c) d0 = Inr d" "distinct (commits c)"
    and fin: "phase_of c i = Finished (Inr ()) \<Longrightarrow> i \<in> set (commits c)" for i
    by (auto simp: lock_inv_def committed_def)
  from apply_inserts [OF d(2) assms(4) d(3)] fin d(1) show ?thesis by blast
qed

end
