(* ===== verification/Elf.thy ===== *)
theory Elf
  imports Mounts
begin

text \<open>
  The ELF reader that both BPF loaders share in shape: the host's in src/host_ebpf.rs and the
  guest's copy in src/guest_ebpf.rs, with the byte-level helpers. Offsets are \<open>usize\<close> as 64-bit
  words and wrap as in a release build; \<open>slice::get\<close> answers \<open>None\<close> for a range that is reversed
  or leaves the file. What the scan of the section headers finds is compared with a description of
  it by lists, and the two parsers with each other.
\<close>

section \<open>Bytes and text\<close>

definition get_range :: "'a list \<Rightarrow> nat \<Rightarrow> nat \<Rightarrow> 'a list option" where
  "get_range xs a b = (if a \<le> b \<and> b \<le> length xs then Some (take (b - a) (drop a xs)) else None)"

primrec from_le :: "u8 list \<Rightarrow> 'a::len word" where
  "from_le [] = 0"
| "from_le (b # bs) = ucast b + 256 * from_le bs"

definition byte_char :: "u8 \<Rightarrow> char" where
  "byte_char b = char_of (unat b)"

definition char_byte :: "char \<Rightarrow> u8" where
  "char_byte c = of_nat (of_char c)"

text \<open>UTF-8: how many continuation bytes a lead byte asks for, and which second byte it allows.\<close>

definition utf8_more :: "u8 \<Rightarrow> nat" where
  "utf8_more b =
     (if 194 \<le> b \<and> b \<le> 223 then 1 else if 224 \<le> b \<and> b \<le> 239 then 2
      else if 240 \<le> b \<and> b \<le> 244 then 3 else 0)"

definition utf8_second :: "u8 \<Rightarrow> u8 \<Rightarrow> bool" where
  "utf8_second b c \<longleftrightarrow>
     (if b = 224 then 160 \<le> c \<and> c \<le> 191 else if b = 237 then 128 \<le> c \<and> c \<le> 159
      else if b = 240 then 144 \<le> c \<and> c \<le> 191 else if b = 244 then 128 \<le> c \<and> c \<le> 143
      else 128 \<le> c \<and> c \<le> 191)"

definition utf8_tail :: "u8 \<Rightarrow> u8 list \<Rightarrow> nat" where
  "utf8_tail b r =
     (case r of [] \<Rightarrow> 0
      | c # r' \<Rightarrow>
         if utf8_more b = 0 \<or> \<not> utf8_second b c then 0
         else Suc (length (takeWhile (\<lambda>x. 128 \<le> x \<and> x \<le> 191) (take (utf8_more b - 1) r'))))"

text \<open>The characters of a byte string, and its maximal ill-formed pieces.\<close>

function utf8_chunks :: "u8 list \<Rightarrow> (bool \<times> u8 list) list" where
  "utf8_chunks [] = []"
| "utf8_chunks (b # r) =
     (if b < 128 then (True, [b]) # utf8_chunks r
      else (utf8_more b \<noteq> 0 \<and> utf8_tail b r = utf8_more b, b # take (utf8_tail b r) r)
             # utf8_chunks (drop (utf8_tail b r) r))"
  by pat_completeness auto
termination by (relation "measure length") auto

definition from_utf8 :: "u8 list \<Rightarrow> string option" where
  "from_utf8 bs = (if list_all fst (utf8_chunks bs) then Some (map byte_char bs) else None)"

definition from_utf8_lossy :: "u8 list \<Rightarrow> string" where
  "from_utf8_lossy bs =
     map byte_char (concat (map (\<lambda>(ok, c). if ok then c else [239, 191, 189]) (utf8_chunks bs)))"

definition unwrap_or :: "'a option \<Rightarrow> 'a \<Rightarrow> 'a" where
  "unwrap_or x d = (case x of None \<Rightarrow> d | Some a \<Rightarrow> a)"

definition trim_nul :: "string \<Rightarrow> string" where
  "trim_nul = trim_end_by (\<lambda>c. c = CHR 0x00)"

text \<open>\<open>CString::new(s)\<close> refuses a string with a NUL in it.\<close>

definition cstring :: "string \<Rightarrow> u8 list option" where
  "cstring s = (if CHR 0x00 \<in> set s then None else Some (map char_byte s @ [0]))"

lemma unwrap_or_simps [simp]: "unwrap_or None d = d" "unwrap_or (Some a) d = a"
  by (simp_all add: unwrap_or_def)

lemma get_range_Some:
  "get_range xs a b = Some ys \<longleftrightarrow> a \<le> b \<and> b \<le> length xs \<and> ys = take (b - a) (drop a xs)"
  by (auto simp: get_range_def)

lemma get_range_length: "get_range xs a b = Some ys \<Longrightarrow> length ys = b - a"
  by (auto simp: get_range_def split: if_splits)

lemma get_range_sublist: "get_range xs a b = Some ys \<Longrightarrow> sublist ys xs"
  by (auto simp: get_range_Some sublist_def) (metis append_take_drop_id)

lemma utf8_chunks_concat: "concat (map snd (utf8_chunks bs)) = bs"
  by (induction bs rule: utf8_chunks.induct) auto

lemma from_utf8_lossy_valid: "from_utf8 bs = Some s \<Longrightarrow> from_utf8_lossy bs = s"
proof -
  assume a: "from_utf8 bs = Some s"
  then have ok: "\<forall>x\<in>set (utf8_chunks bs). fst x" and s: "s = map byte_char bs"
    by (auto simp: from_utf8_def list_all_iff split: if_splits)
  from ok have "map (\<lambda>(ok, c). if ok then c else [239, 191, 189]) (utf8_chunks bs) = map snd (utf8_chunks bs)"
    by (intro map_cong) (auto split: prod.splits)
  then show ?thesis unfolding from_utf8_lossy_def by (simp only: utf8_chunks_concat s)
qed

section \<open>Reading an ELF file\<close>

definition read_u16_le :: "u8 list \<Rightarrow> u64 \<Rightarrow> u16" where
  "read_u16_le data off = from_le (unwrap_or (get_range data (unat off) (unat (off + 2))) [0, 0])"

definition read_u32_le :: "u8 list \<Rightarrow> u64 \<Rightarrow> u32" where
  "read_u32_le data off = from_le (unwrap_or (get_range data (unat off) (unat (off + 4))) [0, 0, 0, 0])"

definition read_u64_le :: "u8 list \<Rightarrow> u64 \<Rightarrow> u64" where
  "read_u64_le data off = from_le (unwrap_or (get_range data (unat off) (unat (off + 8))) [0, 0, 0, 0, 0, 0, 0, 0])"

definition read_section_data :: "u8 list \<Rightarrow> u64 \<Rightarrow> u64 \<Rightarrow> u64 \<Rightarrow> u8 list option" where
  "read_section_data data e_shoff e_shentsize idx =
     (let hdr = e_shoff + idx * e_shentsize;
          off = read_u64_le data (hdr + 24);
          sz = read_u64_le data (hdr + 32)
      in get_range data (unat off) (unat (off + sz)))"

text \<open>\<open>&data[off..]\<close> panics (\<open>None\<close>) when \<open>off\<close> is beyond the end.\<close>

definition read_cstr :: "u8 list \<Rightarrow> u64 \<Rightarrow> string option" where
  "read_cstr data off =
     (if unat off \<le> length data
      then Some (unwrap_or (from_utf8 (takeWhile (\<lambda>b. b \<noteq> 0) (drop (unat off) data))) [])
      else None)"

definition is_bpf_prog_section :: "string \<Rightarrow> bool" where
  "is_bpf_prog_section name \<longleftrightarrow>
     name \<in> {''classifier'', ''.text'', ''action'', ''xdp'', ''kprobe'', ''kretprobe'', ''tracepoint'',
             ''raw_tracepoint'', ''sockops'', ''cgroup/connect4'', ''cgroup/connect6''}
     \<or> starts_with ''tc'' name \<or> starts_with ''tracepoint/'' name \<or> starts_with ''kprobe/'' name
     \<or> starts_with ''kretprobe/'' name \<or> starts_with ''xdp'' name \<or> starts_with ''cgroup/'' name
     \<or> starts_with ''sk_msg'' name \<or> starts_with ''sockops'' name"

text \<open>The guest's list (src/guest_ebpf.rs).\<close>

definition is_bpf_section :: "string \<Rightarrow> bool" where
  "is_bpf_section name \<longleftrightarrow>
     name \<in> {''.text'', ''classifier'', ''action'', ''xdp'', ''kprobe'', ''kretprobe'', ''tracepoint'',
             ''raw_tracepoint''}
     \<or> starts_with ''tc'' name \<or> starts_with ''tracepoint/'' name \<or> starts_with ''kprobe/'' name
     \<or> starts_with ''kretprobe/'' name \<or> starts_with ''xdp'' name \<or> starts_with ''cgroup/'' name
     \<or> starts_with ''sk_msg'' name \<or> starts_with ''sockops'' name"

abbreviation (input) BPF_PROG_TYPE_UNSPECIFIED :: u32 where "BPF_PROG_TYPE_UNSPECIFIED \<equiv> 0"
abbreviation (input) BPF_PROG_TYPE_KPROBE :: u32 where "BPF_PROG_TYPE_KPROBE \<equiv> 2"
abbreviation (input) BPF_PROG_TYPE_SCHED_CLS :: u32 where "BPF_PROG_TYPE_SCHED_CLS \<equiv> 3"
abbreviation (input) BPF_PROG_TYPE_CGROUP_SKB :: u32 where "BPF_PROG_TYPE_CGROUP_SKB \<equiv> 4"
abbreviation (input) BPF_PROG_TYPE_TRACEPOINT :: u32 where "BPF_PROG_TYPE_TRACEPOINT \<equiv> 5"
abbreviation (input) BPF_MAX_PROG_SIZE :: nat where "BPF_MAX_PROG_SIZE \<equiv> 4194304"

definition infer_prog_type_from_section :: "string \<Rightarrow> u32" where
  "infer_prog_type_from_section name =
     (if starts_with ''tc'' name \<or> name = ''classifier'' \<or> name = ''action'' then BPF_PROG_TYPE_SCHED_CLS
      else if starts_with ''tracepoint/'' name \<or> name = ''tracepoint'' then BPF_PROG_TYPE_TRACEPOINT
      else if starts_with ''kprobe/'' name \<or> starts_with ''kretprobe/'' name \<or> name = ''kprobe''
      then BPF_PROG_TYPE_KPROBE
      else BPF_PROG_TYPE_UNSPECIFIED)"

text \<open>The checks of the first 64 bytes, and the four header fields the readers use.\<close>

definition elf_ident :: "u8 list \<Rightarrow> string option" where
  "elf_ident data =
     (if length data < 16 then Some ''too small''
      else if take 4 data \<noteq> [127, 69, 76, 70] then Some ''not an ELF file''
      else if data ! 4 \<noteq> 2 then Some ''must be 64-bit ELF''
      else if data ! 5 \<noteq> 1 then Some ''must be little-endian ELF''
      else None)"

record elf_header =
  e_shoff :: u64
  e_shentsize :: u64
  e_shnum :: u64
  e_shstrndx :: u64

definition elf_header_of :: "u8 list \<Rightarrow> elf_header" where
  "elf_header_of data =
     \<lparr>e_shoff = read_u64_le data 40, e_shentsize = ucast (read_u16_le data 58),
      e_shnum = ucast (read_u16_le data 60), e_shstrndx = ucast (read_u16_le data 62)\<rparr>"

text \<open>One section header: where it stands, and what it says.\<close>

record section_header =
  sh_name_idx :: u64
  sh_type :: u32
  sh_addr :: u64
  sh_off :: u64
  sh_size :: u64

definition sh_pos :: "elf_header \<Rightarrow> nat \<Rightarrow> u64" where
  "sh_pos h i = e_shoff h + of_nat i * e_shentsize h"

definition sh_in_file :: "u8 list \<Rightarrow> elf_header \<Rightarrow> nat \<Rightarrow> bool" where
  "sh_in_file data h i \<longleftrightarrow> unat (sh_pos h i + e_shentsize h) \<le> length data"

definition read_sh :: "u8 list \<Rightarrow> u64 \<Rightarrow> section_header" where
  "read_sh data p =
     \<lparr>sh_name_idx = ucast (read_u32_le data p), sh_type = read_u32_le data (p + 4),
      sh_addr = read_u64_le data (p + 16), sh_off = read_u64_le data (p + 24),
      sh_size = read_u64_le data (p + 32)\<rparr>"

definition sh_skipped :: "section_header \<Rightarrow> bool" where
  "sh_skipped s \<longleftrightarrow> sh_type s \<noteq> 1 \<or> sh_addr s \<noteq> 0 \<or> sh_off s = 0 \<or> sh_size s = 0"

definition sh_data :: "u8 list \<Rightarrow> section_header \<Rightarrow> u8 list option" where
  "sh_data data s = get_range data (unat (sh_off s)) (unat (sh_off s + sh_size s))"

definition license_of :: "u8 list option \<Rightarrow> string" where
  "license_of sec = trim_nul (unwrap_or (from_utf8 (unwrap_or sec [])) ''GPL'')"

section \<open>The host's parser\<close>

record elf_scan =
  sc_prog :: "u8 list option"
  sc_license :: string
  sc_hint :: u32

fun scan_sections :: "u8 list \<Rightarrow> elf_header \<Rightarrow> u8 list \<Rightarrow> nat list \<Rightarrow> elf_scan \<Rightarrow> elf_scan option" where
  "scan_sections data h strtab [] sc = Some sc"
| "scan_sections data h strtab (i # idxs) sc =
     (if \<not> sh_in_file data h i then Some sc
      else let s = read_sh data (sh_pos h i) in
        if sh_skipped s then scan_sections data h strtab idxs sc
        else case read_cstr strtab (sh_name_idx s) of
            None \<Rightarrow> None
          | Some name \<Rightarrow>
              scan_sections data h strtab idxs
                (if name = ''license'' then sc\<lparr>sc_license := license_of (sh_data data s)\<rparr>
                 else if sc_prog sc = None \<and> is_bpf_prog_section name
                 then sc\<lparr>sc_prog := sh_data data s, sc_hint := infer_prog_type_from_section name\<rparr>
                 else sc))"

definition parse_bpf_object :: "u8 list \<Rightarrow> error + (u8 list \<times> string \<times> u32)" where
  "parse_bpf_object data =
     (case elf_ident data of
        Some m \<Rightarrow> Inl (Bail m)
      | None \<Rightarrow>
        (let h = elf_header_of data in
         if e_shoff h = 0 \<or> e_shnum h = 0 then Inl (Bail ''no section headers'')
         else case read_section_data data (e_shoff h) (e_shentsize h) (e_shstrndx h) of
             None \<Rightarrow> Inl (Bail ''cannot read section name string table'')
           | Some strtab \<Rightarrow>
             (case scan_sections data h strtab [0..<unat (e_shnum h)]
                     \<lparr>sc_prog = None, sc_license = ''GPL'', sc_hint = BPF_PROG_TYPE_UNSPECIFIED\<rparr> of
                None \<Rightarrow> Inl (Panic ''slice index out of range'')
              | Some sc \<Rightarrow>
                (case sc_prog sc of
                   None \<Rightarrow> Inl (Bail ''no BPF program section found'')
                 | Some p \<Rightarrow>
                     if p = [] then Inl (Bail ''BPF program section is empty'')
                     else if length p mod 8 \<noteq> 0 then Inl (Bail ''not a multiple of 8'')
                     else if BPF_MAX_PROG_SIZE < length p then Inl (Bail ''BPF program too large'')
                     else Inr (p, sc_license sc, sc_hint sc)))))"

section \<open>The guest's parser\<close>

fun guest_scan :: "u8 list \<Rightarrow> elf_header \<Rightarrow> u8 list \<Rightarrow> nat list \<Rightarrow>
    u8 list option \<times> string \<Rightarrow> (u8 list option \<times> string) option" where
  "guest_scan data h strtab [] acc = Some acc"
| "guest_scan data h strtab (i # idxs) (prog, lic) =
     (if \<not> sh_in_file data h i then Some (prog, lic)
      else let s = read_sh data (sh_pos h i) in
        if sh_skipped s then guest_scan data h strtab idxs (prog, lic)
        else case read_cstr strtab (sh_name_idx s) of
            None \<Rightarrow> None
          | Some name \<Rightarrow>
              guest_scan data h strtab idxs
                (if name = ''license'' then (prog, license_of (sh_data data s))
                 else if prog = None \<and> is_bpf_section name then (sh_data data s, lic)
                 else (prog, lic)))"

definition load_bpf_bytes :: "u8 list \<Rightarrow> error + (u8 list \<times> string)" where
  "load_bpf_bytes data =
     (case elf_ident data of
        Some m \<Rightarrow> Inl (Bail m)
      | None \<Rightarrow>
        (let h = elf_header_of data in
         if e_shoff h = 0 \<or> e_shnum h = 0 then Inl (Bail ''no section headers'')
         else case read_section_data data (e_shoff h) (e_shentsize h) (e_shstrndx h) of
             None \<Rightarrow> Inl (Bail ''cannot read shstrtab'')
           | Some strtab \<Rightarrow>
             (case guest_scan data h strtab [0..<unat (e_shnum h)] (None, ''GPL'') of
                None \<Rightarrow> Inl (Panic ''slice index out of range'')
              | Some (None, lic) \<Rightarrow> Inl (Bail ''no BPF program section'')
              | Some (Some p, lic) \<Rightarrow> Inr (p, lic))))"

text \<open>The size checks of \<open>load_guest_bpf_prog\<close>, which the host makes in the parser.\<close>

definition guest_size_check :: "u8 list \<Rightarrow> error + unit" where
  "guest_size_check p =
     (if p = [] then Inl (Bail ''BPF program bytes are empty'')
      else if length p mod 8 \<noteq> 0 then Inl (Bail ''not a multiple of 8'')
      else if BPF_MAX_PROG_SIZE < length p then Inl (Bail ''BPF program too large'')
      else Inr ())"

text \<open>The bound compared as an integer, so that evaluation keeps the numeral in binary.\<close>

lemma guest_size_check_code [code]:
  "guest_size_check p =
     (if p = [] then Inl (Bail ''BPF program bytes are empty'')
      else if length p mod 8 \<noteq> 0 then Inl (Bail ''not a multiple of 8'')
      else if 4194304 < int (length p) then Inl (Bail ''BPF program too large'')
      else Inr ())"
  by (simp add: guest_size_check_def)

section \<open>What the scan finds\<close>

text \<open>
  The named sections the scan looks at: those before the first header that leaves the file, without
  the skipped ones. \<open>None\<close> when one of them has its name beyond the string table.
\<close>

definition section_table :: "u8 list \<Rightarrow> elf_header \<Rightarrow> u8 list \<Rightarrow> nat list \<Rightarrow> (string \<times> u8 list option) list option" where
  "section_table data h strtab idxs =
     those (map (\<lambda>i. map_option (\<lambda>n. (n, sh_data data (read_sh data (sh_pos h i))))
                        (read_cstr strtab (sh_name_idx (read_sh data (sh_pos h i)))))
       (filter (\<lambda>i. \<not> sh_skipped (read_sh data (sh_pos h i))) (takeWhile (sh_in_file data h) idxs)))"

definition program_section :: "(string \<times> u8 list option) list \<Rightarrow> (string \<times> u8 list option) option" where
  "program_section tbl = find (\<lambda>(n, d). n \<noteq> ''license'' \<and> is_bpf_prog_section n \<and> d \<noteq> None) tbl"

definition license_section :: "(string \<times> u8 list option) list \<Rightarrow> string" where
  "license_section tbl =
     (case filter (\<lambda>(n, d). n = ''license'') tbl of [] \<Rightarrow> ''GPL'' | ls \<Rightarrow> license_of (snd (last ls)))"

definition scan_step :: "elf_scan \<Rightarrow> string \<times> u8 list option \<Rightarrow> elf_scan" where
  "scan_step sc = (\<lambda>(name, d).
     if name = ''license'' then sc\<lparr>sc_license := license_of d\<rparr>
     else if sc_prog sc = None \<and> is_bpf_prog_section name
     then sc\<lparr>sc_prog := d, sc_hint := infer_prog_type_from_section name\<rparr>
     else sc)"

lemma scan_sections_table:
  "scan_sections data h strtab idxs sc = map_option (foldl scan_step sc) (section_table data h strtab idxs)"
proof (induction idxs arbitrary: sc)
  case (Cons i idxs)
  then show ?case
    by (auto simp: section_table_def Let_def scan_step_def option.map_comp comp_def split: option.splits)
qed (simp add: section_table_def)

lemma foldl_scan_license:
  "sc_license (foldl scan_step sc tbl) =
     (case filter (\<lambda>(n, d). n = ''license'') tbl of [] \<Rightarrow> sc_license sc | ls \<Rightarrow> license_of (snd (last ls)))"
proof (induction tbl arbitrary: sc)
  case (Cons x tbl)
  obtain n d where x: "x = (n, d)" by (cases x)
  show ?case
    by (simp add: Cons.IH x) (auto simp: scan_step_def split: list.splits)
qed simp

lemma foldl_scan_fixed:
  "sc_prog sc = Some p \<Longrightarrow> sc_prog (foldl scan_step sc tbl) = Some p \<and> sc_hint (foldl scan_step sc tbl) = sc_hint sc"
  by (induction tbl arbitrary: sc) (auto simp: scan_step_def)

lemma foldl_scan_prog:
  "sc_prog sc = None \<Longrightarrow> sc_prog (foldl scan_step sc tbl) = Some p \<Longrightarrow>
   \<exists>n. program_section tbl = Some (n, Some p) \<and>
       sc_hint (foldl scan_step sc tbl) = infer_prog_type_from_section n"
proof (induction tbl arbitrary: sc)
  case (Cons x tbl)
  obtain n d where x: "x = (n, d)" by (cases x)
  show ?case
  proof (cases "n \<noteq> ''license'' \<and> is_bpf_prog_section n \<and> d \<noteq> None")
    case True
    then obtain q where d: "d = Some q" by blast
    let ?sc = "scan_step sc x"
    have "sc_prog ?sc = Some q" "sc_hint ?sc = infer_prog_type_from_section n"
      using True Cons.prems d x by (auto simp: scan_step_def)
    with foldl_scan_fixed [of ?sc q tbl] Cons.prems True d x show ?thesis
      by (auto simp: program_section_def)
  next
    case False
    then have "sc_prog (scan_step sc x) = None" using Cons.prems x by (auto simp: scan_step_def)
    with Cons.IH [of "scan_step sc x"] Cons.prems False x show ?thesis
      by (auto simp: program_section_def)
  qed
qed simp

lemma those_member: "those xs = Some ys \<Longrightarrow> y \<in> set ys \<Longrightarrow> Some y \<in> set xs"
  by (induction xs arbitrary: ys) (auto split: option.splits)

lemma section_table_data:
  "section_table data h strtab idxs = Some tbl \<Longrightarrow> (n, Some p) \<in> set tbl \<Longrightarrow> sublist p data"
  unfolding section_table_def
  by (drule (1) those_member) (auto simp: sh_data_def map_option_case split: option.splits intro: get_range_sublist)

lemma find_in: "find P xs = Some x \<Longrightarrow> x \<in> set xs \<and> P x"
  by (auto simp: find_Some_iff)

section \<open>The two lists of section names are the same\<close>

lemma starts_with_self [simp]: "starts_with p p"
  by (simp add: starts_with_iff)

lemma bpf_section_names: "is_bpf_section name = is_bpf_prog_section name"
proof -
  have c4: "starts_with ''cgroup/'' ''cgroup/connect4''" and c6: "starts_with ''cgroup/'' ''cgroup/connect6''"
    and so: "starts_with ''sockops'' ''sockops''"
    by code_simp+
  have "name = ''cgroup/connect4'' \<longrightarrow> starts_with ''cgroup/'' name"
    "name = ''cgroup/connect6'' \<longrightarrow> starts_with ''cgroup/'' name"
    "name = ''sockops'' \<longrightarrow> starts_with ''sockops'' name"
    using c4 c6 so by metis+
  then show ?thesis
    unfolding is_bpf_section_def is_bpf_prog_section_def insert_iff empty_iff by sat
qed

lemma guest_scan_host:
  "guest_scan data h strtab idxs (sc_prog sc, sc_license sc) =
     map_option (\<lambda>s. (sc_prog s, sc_license s)) (scan_sections data h strtab idxs sc)"
proof (induction idxs arbitrary: sc)
  case (Cons i idxs)
  let ?s = "read_sh data (sh_pos h i)"
  have step: "guest_scan data h strtab idxs
       (if name = ''license'' then (sc_prog sc, license_of (sh_data data ?s))
        else if sc_prog sc = None \<and> is_bpf_section name then (sh_data data ?s, sc_license sc)
        else (sc_prog sc, sc_license sc)) =
     map_option (\<lambda>s. (sc_prog s, sc_license s)) (scan_sections data h strtab idxs (scan_step sc (name, sh_data data ?s)))" for name
    using Cons [of "scan_step sc (name, sh_data data ?s)"]
    by (auto simp: scan_step_def bpf_section_names)
  show ?case
    using step Cons [of sc] by (auto simp: Let_def scan_step_def split: option.splits)
qed simp

section \<open>A small object file\<close>

definition le64 :: "nat \<Rightarrow> u8 list" where
  "le64 n = [of_nat n, of_nat (n div 256), 0, 0, 0, 0, 0, 0]"

definition le32 :: "nat \<Rightarrow> u8 list" where
  "le32 n = [of_nat n, of_nat (n div 256), 0, 0]"

definition sample_sh :: "nat \<Rightarrow> nat \<Rightarrow> nat \<Rightarrow> nat \<Rightarrow> u8 list" where
  "sample_sh name ty off sz = le32 name @ le32 ty @ le64 0 @ le64 0 @ le64 off @ le64 sz @ replicate 24 0"

text \<open>
  Sections: the string table (\<open>.text\<close> at 2, \<open>license\<close> at 8), a program of two instructions, and
  the license. The name index of the program is a parameter.
\<close>

definition sample_elf :: "nat \<Rightarrow> u8 list" where
  "sample_elf name =
     [127, 69, 76, 70, 2, 1] @ replicate 34 0 @ le64 101 @ replicate 10 0 @ [64, 0, 3, 0, 0, 0] @
     (0 # 0 # map char_byte ''.text'' @ 0 # map char_byte ''license'' @ [0]) @ [183, 0, 0, 0, 0, 0, 0, 0, 149, 0, 0, 0, 0, 0, 0, 0] @
     map char_byte ''MIT'' @ [0, 0] @
     sample_sh 0 3 64 16 @ sample_sh name 1 80 16 @ sample_sh 8 1 96 4"

definition sample_prog :: "u8 list" where
  "sample_prog = [183, 0, 0, 0, 0, 0, 0, 0, 149, 0, 0, 0, 0, 0, 0, 0]"

definition sample_header :: elf_header where
  "sample_header = \<lparr>e_shoff = 101, e_shentsize = 64, e_shnum = 3, e_shstrndx = 0\<rparr>"

definition sample_strtab :: "u8 list" where
  "sample_strtab = 0 # 0 # map char_byte ''.text'' @ 0 # map char_byte ''license'' @ [0]"

lemma sample_elf_header:
  "elf_ident (sample_elf 2) = None" "elf_ident (sample_elf 17) = None"
  "elf_header_of (sample_elf 2) = sample_header" "elf_header_of (sample_elf 17) = sample_header"
  "read_section_data (sample_elf 2) 101 64 0 = Some sample_strtab"
  "read_section_data (sample_elf 17) 101 64 0 = Some sample_strtab"
  by code_simp+

lemma sample_elf_sections:
  "sh_skipped (read_sh (sample_elf 2) 101)" "sh_skipped (read_sh (sample_elf 17) 101)"
  "read_sh (sample_elf 2) 165 = \<lparr>sh_name_idx = 2, sh_type = 1, sh_addr = 0, sh_off = 80, sh_size = 16\<rparr>"
  "sh_name_idx (read_sh (sample_elf 17) 165) = 17" "\<not> sh_skipped (read_sh (sample_elf 17) 165)"
  "read_sh (sample_elf 2) 229 = \<lparr>sh_name_idx = 8, sh_type = 1, sh_addr = 0, sh_off = 96, sh_size = 4\<rparr>"
  "get_range (sample_elf 2) 80 96 = Some sample_prog"
  "license_of (get_range (sample_elf 2) 96 100) = ''MIT''"
  "length (sample_elf 2) = 293" "length (sample_elf 17) = 293"
  by code_simp+

lemma sample_strtab_names:
  "read_cstr sample_strtab 2 = Some ''.text''" "read_cstr sample_strtab 8 = Some ''license''"
  "read_cstr sample_strtab 17 = None" "is_bpf_prog_section ''.text''" "infer_prog_type_from_section ''.text'' = 0"
  by code_simp+

lemma sample_elf_parses: "parse_bpf_object (sample_elf 2) = Inr (sample_prog, ''MIT'', 0)"
proof -
  have "[0..<unat (3::u64)] = [0, 1, 2]" by code_simp
  moreover have "sample_prog \<noteq> [] \<and> length sample_prog = 16" by (simp add: sample_prog_def)
  ultimately show ?thesis
    using sample_elf_sections sample_strtab_names
    by (simp add: parse_bpf_object_def sample_elf_header sample_header_def sh_in_file_def sh_pos_def
        sh_skipped_def [of "\<lparr>sh_name_idx = n, sh_type = t, sh_addr = a, sh_off = off, sh_size = sz\<rparr>" for n t a off sz]
        sh_data_def)
qed

text \<open>A section name index one past the string table takes the parser down instead of an error.\<close>

lemma sample_elf_panics: "parse_bpf_object (sample_elf 17) = Inl (Panic ''slice index out of range'')"
proof -
  have "[0..<unat (3::u64)] = [0, 1, 2]" by code_simp
  then show ?thesis
    using sample_elf_sections sample_strtab_names
    by (simp add: parse_bpf_object_def sample_elf_header sample_header_def sh_in_file_def sh_pos_def)
qed

section \<open>Properties\<close>



text \<open>C20: The host's loader and the guest's copy of it take the same files and hand over the same
  instructions and license, though they make the size checks at different places and spell the
  list of section names differently.\<close>

theorem loaders_agree:
  "(\<exists>hint. parse_bpf_object data = Inr (p, lic, hint)) \<longleftrightarrow>
   load_bpf_bytes data = Inr (p, lic) \<and> guest_size_check p = Inr ()"
proof -
  let ?h = "elf_header_of data"
  let ?sc = "\<lparr>sc_prog = None, sc_license = ''GPL'', sc_hint = 0\<rparr>"
  have "guest_scan data ?h strtab idxs (None, ''GPL'') =
      map_option (\<lambda>s. (sc_prog s, sc_license s)) (scan_sections data ?h strtab idxs ?sc)" for strtab idxs
    using guest_scan_host [of data ?h strtab idxs ?sc] by simp
  then show ?thesis
    by (auto simp: parse_bpf_object_def load_bpf_bytes_def guest_size_check_def Let_def
        split: option.splits if_splits)
qed

end
