(* ===== verification/PerfRing.thy ===== *)
theory PerfRing
  imports Elf
begin

text \<open>
  The consumer of the perf ring buffer (src/host_ebpf.rs): the loop over the records between its
  read head and the kernel's \<open>data_head\<close>, the copy of a payload that wraps around the end of the
  ring, the decoding of an event, and the polling loop over what the kernel shows at each turn. A
  read outside the mapping and an overflow of the head are \<open>None\<close>. The contract is that of a
  queue: what the kernel appends comes out once and in order.
\<close>

unbundle bit_operations_syntax

section \<open>Events\<close>

record policy_event =
  ev_prog_name :: string
  ev_action :: string
  ev_raw :: "u8 list"

definition decode_policy_event :: "u8 list \<Rightarrow> policy_event" where
  "decode_policy_event payload =
     \<lparr>ev_prog_name =
        (if 16 \<le> length payload then from_utf8_lossy (takeWhile (\<lambda>b. b \<noteq> 0) (take 16 payload)) else ''unknown''),
      ev_action =
        (if 17 \<le> length payload
         then (if payload ! 16 = 0 then ''allow'' else if payload ! 16 = 1 then ''deny''
               else show_nat (unat (payload ! 16)))
         else ''unknown''),
      ev_raw = payload\<rparr>"

section \<open>The ring\<close>

text \<open>\<open>from_raw_parts(data_start + off, n)\<close>\<close>

definition raw_slice :: "u8 list \<Rightarrow> nat \<Rightarrow> nat \<Rightarrow> u8 list option" where
  "raw_slice ring off n = get_range ring off (off + n)"

definition ring_payload :: "u8 list \<Rightarrow> nat \<Rightarrow> nat \<Rightarrow> u8 list option" where
  "ring_payload ring off n =
     (if off + n \<le> length ring then raw_slice ring off n
      else (case (raw_slice ring off (length ring - off), raw_slice ring 0 (n - (length ring - off))) of
              (Some a, Some b) \<Rightarrow> Some (a @ b) | _ \<Rightarrow> None))"

definition record_type :: "u8 list \<Rightarrow> u32" where
  "record_type hdr = from_le (take 4 hdr)"

definition record_size :: "u8 list \<Rightarrow> u16" where
  "record_size hdr = from_le (take 2 (drop 6 hdr))"

text \<open>The events of the records from \<open>rd\<close> to \<open>head\<close>, and where the read head stops.\<close>

function drain :: "u8 list \<Rightarrow> nat \<Rightarrow> nat \<Rightarrow> (policy_event list \<times> nat) option" where
  "drain ring head rd =
     (if rd < head then
        if head - rd < 8 then Some ([], rd)
        else
          let mask = length ring - 1; offset = rd AND mask in
          case raw_slice ring offset 8 of
            None \<Rightarrow> None
          | Some hdr \<Rightarrow>
             (let sz = unat (record_size hdr) in
              if sz = 0 \<or> length ring < sz then Some ([], rd + 8)
              else if 2 ^ 64 \<le> rd + sz then None
              else
                case (if record_type hdr = 9 \<and> 8 < sz
                      then map_option (\<lambda>p. [decode_policy_event p]) (ring_payload ring ((offset + 8) AND mask) (sz - 8))
                      else Some []) of
                  None \<Rightarrow> None
                | Some evs \<Rightarrow> map_option (\<lambda>(es, r). (evs @ es, r)) (drain ring head (rd + sz)))
      else Some ([], rd))"
  by pat_completeness auto
termination by (relation "measure (\<lambda>(ring, head, rd). head - rd)") auto

declare drain.simps [simp del]

text \<open>
  The polling loop on what it finds at each turn: the stop signal, and the ring with its
  \<open>data_head\<close>. It returns the events and the tail it last wrote.
\<close>

fun poll_ring :: "(bool \<times> nat \<times> u8 list) list \<Rightarrow> nat \<Rightarrow> nat \<Rightarrow> (policy_event list \<times> nat) option" where
  "poll_ring [] rd tail = Some ([], tail)"
| "poll_ring ((stop, head, ring) # obs) rd tail =
     (if stop then Some ([], tail)
      else if head = rd then poll_ring obs rd tail
      else case drain ring head rd of
          None \<Rightarrow> None
        | Some (evs, rd') \<Rightarrow> map_option (\<lambda>(es, t). (evs @ es, t)) (poll_ring obs rd' rd'))"

section \<open>The producer\<close>

primrec to_le :: "nat \<Rightarrow> nat \<Rightarrow> u8 list" where
  "to_le 0 n = []"
| "to_le (Suc k) n = of_nat n # to_le k (n div 256)"

record perf_record =
  pr_type :: u32
  pr_misc :: u16
  pr_payload :: "u8 list"

definition record_len :: "perf_record \<Rightarrow> nat" where
  "record_len r = 8 + length (pr_payload r)"

definition encode_record :: "perf_record \<Rightarrow> u8 list" where
  "encode_record r = to_le 4 (unat (pr_type r)) @ to_le 2 (unat (pr_misc r)) @ to_le 2 (record_len r) @ pr_payload r"

definition stream_of :: "perf_record list \<Rightarrow> u8 list" where
  "stream_of rs = concat (map encode_record rs)"

text \<open>What the kernel writes: whole records, 8-aligned, each smaller than the ring and than 64 KiB.\<close>

definition record_ok :: "nat \<Rightarrow> perf_record \<Rightarrow> bool" where
  "record_ok len r \<longleftrightarrow> 8 dvd record_len r \<and> record_len r \<le> len \<and> record_len r < 65536"

definition event_of :: "perf_record \<Rightarrow> policy_event list" where
  "event_of r = (if pr_type r = 9 \<and> pr_payload r \<noteq> [] then [decode_policy_event (pr_payload r)] else [])"

text \<open>The ring holds the bytes \<open>bs\<close> at positions \<open>rd\<close>, \<open>rd + 1\<close>, ... modulo its length.\<close>

definition ring_holds :: "u8 list \<Rightarrow> nat \<Rightarrow> u8 list \<Rightarrow> bool" where
  "ring_holds ring rd bs \<longleftrightarrow>
     length bs \<le> length ring \<and> (\<forall>i<length bs. ring ! ((rd + i) mod length ring) = bs ! i)"

section \<open>Laws\<close>

lemma to_le_length [simp]: "length (to_le k n) = k"
  by (induction k arbitrary: n) auto

lemma from_le_to_le: "(from_le (to_le k n) :: 'a::len word) = of_nat (n mod 256 ^ k)"
proof (induction k arbitrary: n)
  case (Suc k)
  have b: "(ucast (of_nat n :: u8) :: 'a word) = of_nat (n mod 256)"
    by (simp add: unsigned_of_nat take_bit_eq_mod)
  have "n mod (256 * 256 ^ k) = n mod 256 + 256 * (n div 256 mod 256 ^ k)"
    by (simp add: mod_mult2_eq)
  then show ?case using b Suc by simp
qed simp

lemma encode_record_length [simp]: "length (encode_record r) = record_len r"
  by (simp add: encode_record_def record_len_def)

lemma encode_record_type: "record_type (take 8 (encode_record r)) = pr_type r"
proof -
  have "unat (pr_type r) < 256 ^ 4" using unsigned_less [of "pr_type r", where 'a = nat] by simp
  then show ?thesis by (simp add: record_type_def encode_record_def from_le_to_le)
qed

lemma encode_record_size:
  assumes "record_len r < 65536"
  shows "unat (record_size (take 8 (encode_record r))) = record_len r"
proof -
  have "record_size (take 8 (encode_record r)) = of_nat (record_len r)"
    using assms by (simp add: record_size_def encode_record_def from_le_to_le)
  with assms show ?thesis by (simp add: unat_of_nat take_bit_nat_eq_self)
qed

lemma and_mask_mod: "(x::nat) AND (2 ^ n - 1) = x mod 2 ^ n"
  by (metis mask_eq_exp_minus_1 take_bit_eq_mask take_bit_eq_mod)

lemma ring_holds_append:
  "ring_holds ring rd (a @ b) \<Longrightarrow> ring_holds ring rd a \<and> ring_holds ring (rd + length a) b"
  unfolding ring_holds_def
proof (intro conjI allI impI; elim conjE)
  assume l: "length (a @ b) \<le> length ring" and h: "\<forall>i<length (a @ b). ring ! ((rd + i) mod length ring) = (a @ b) ! i"
  show "length a \<le> length ring" "length b \<le> length ring" using l by auto
  show "ring ! ((rd + i) mod length ring) = a ! i" if "i < length a" for i
    using h [rule_format, of i] that by (simp add: nth_append)
  show "ring ! ((rd + length a + i) mod length ring) = b ! i" if "i < length b" for i
    using h [rule_format, of "length a + i"] that by (simp add: nth_append add.assoc)
qed

lemma ring_holds_flat:
  assumes "ring_holds ring rd bs" and "rd mod length ring + length bs \<le> length ring"
  shows "raw_slice ring (rd mod length ring) (length bs) = Some bs"
proof -
  let ?o = "rd mod length ring"
  have "take (length bs) (drop ?o ring) = bs"
  proof (rule nth_equalityI)
    show len: "length (take (length bs) (drop ?o ring)) = length bs" using assms(2) by simp
    fix i assume "i < length (take (length bs) (drop ?o ring))"
    then have i: "i < length bs" using len by simp
    then have "?o + i < length ring" using assms(2) by linarith
    then have "(rd + i) mod length ring = ?o + i"
      using mod_add_left_eq [of rd "length ring" i] by simp
    moreover have "ring ! ((rd + i) mod length ring) = bs ! i" using assms(1) i by (simp add: ring_holds_def)
    ultimately show "take (length bs) (drop ?o ring) ! i = bs ! i" using i assms(2) by simp
  qed
  with assms(2) show ?thesis by (simp add: raw_slice_def get_range_def)
qed

lemma ring_holds_payload:
  assumes "ring_holds ring rd bs" and "ring \<noteq> []"
  shows "ring_payload ring (rd mod length ring) (length bs) = Some bs"
proof (cases "rd mod length ring + length bs \<le> length ring")
  case True
  then show ?thesis using ring_holds_flat [OF assms(1)] by (simp add: ring_payload_def)
next
  case False
  let ?o = "rd mod length ring" and ?f = "length ring - rd mod length ring"
  let ?a = "take ?f bs" and ?b = "drop ?f bs"
  have o: "?o < length ring" using assms(2) by simp
  have la: "length ?a = ?f" using False by simp
  have h: "ring_holds ring rd ?a \<and> ring_holds ring (rd + ?f) ?b"
    using ring_holds_append [of ring rd ?a ?b] assms(1) la by simp
  have z: "(rd + ?f) mod length ring = 0"
    using o by (metis le_add_diff_inverse less_imp_le_nat mod_add_left_eq mod_self)
  have "raw_slice ring ?o ?f = Some ?a"
    using ring_holds_flat [of ring rd ?a] h la o by simp
  moreover have "raw_slice ring 0 (length bs - ?f) = Some ?b"
    using ring_holds_flat [of ring "rd + ?f" ?b] h z assms(1) by (auto simp: ring_holds_def)
  ultimately show ?thesis using False by (simp add: ring_payload_def)
qed

lemma drain_record:
  assumes ok: "record_ok (length ring) r" and holds: "ring_holds ring rd (encode_record r)"
    and len: "length ring = 2 ^ n" "3 \<le> n" and al: "8 dvd rd"
    and head: "rd + record_len r \<le> head" and word: "head < 2 ^ 64"
  shows "drain ring head rd = map_option (\<lambda>(es, q). (event_of r @ es, q)) (drain ring head (rd + record_len r))"
proof -
  let ?o = "rd mod length ring"
  define hb where "hb = take 8 (encode_record r)"
  have ne: "ring \<noteq> []" using len by auto
  have d8: "8 dvd length ring" using len(1) le_imp_power_dvd [OF len(2), of 2] by simp
  have off: "?o + 8 \<le> length ring"
  proof -
    have "?o < length ring" using ne by simp
    moreover have "8 dvd ?o" using al d8 by (simp add: dvd_mod)
    ultimately show ?thesis using d8 by (auto simp: dvd_def)
  qed
  have split: "encode_record r = hb @ pr_payload r" and l8: "length hb = 8"
    by (simp_all add: hb_def encode_record_def)
  have ty: "record_type hb = pr_type r" by (simp add: hb_def encode_record_type)
  have h: "ring_holds ring rd hb \<and> ring_holds ring (rd + 8) (pr_payload r)"
    using ring_holds_append [of ring rd hb "pr_payload r"] holds split l8 by simp
  have hdr: "raw_slice ring ?o 8 = Some hb"
    using ring_holds_flat [of ring rd hb] h off l8 by simp
  have pay: "ring_payload ring ((rd + 8) mod length ring) (length (pr_payload r)) = Some (pr_payload r)"
    using h ne by (intro ring_holds_payload) auto
  have mask: "x AND (length ring - Suc 0) = x mod length ring" for x
    using and_mask_mod [of x n] len(1) by simp
  have po: "(?o + 8) mod length ring = (rd + 8) mod length ring" by (simp add: mod_add_left_eq)
  have sz: "unat (record_size hb) = record_len r"
    using ok unfolding hb_def by (intro encode_record_size) (simp add: record_ok_def)
  have lt: "rd < head" "\<not> head - rd < 8" using head by (auto simp: record_len_def)
  have pl: "record_len r - 8 = length (pr_payload r)" "0 < record_len r" "8 < record_len r \<longleftrightarrow> pr_payload r \<noteq> []"
    by (auto simp: record_len_def)
  have "record_len r \<le> length ring" "rd + record_len r < 2 ^ 64"
    using ok head word by (auto simp: record_ok_def)
  then show ?thesis
    by (simp add: drain.simps [of ring head rd] lt mask hdr sz pl po pay ty event_of_def Let_def)
qed

lemma stream_of_Cons [simp]: "stream_of (r # rs) = encode_record r @ stream_of rs"
  by (simp add: stream_of_def)

lemma stream_of_Nil [simp]: "stream_of [] = []"
  by (simp add: stream_of_def)

lemma stream_of_append [simp]: "stream_of (a @ b) = stream_of a @ stream_of b"
  by (simp add: stream_of_def)

lemma stream_aligned: "\<forall>r\<in>set rs. record_ok len r \<Longrightarrow> 8 dvd length (stream_of rs)"
  by (induction rs) (auto simp: record_ok_def)

lemma drain_stream:
  assumes len: "length ring = 2 ^ n" "3 \<le> n"
  shows "\<forall>r\<in>set rs. record_ok (length ring) r \<Longrightarrow> ring_holds ring rd (stream_of rs) \<Longrightarrow> 8 dvd rd \<Longrightarrow>
    rd + length (stream_of rs) < 2 ^ 64 \<Longrightarrow>
    drain ring (rd + length (stream_of rs)) rd = Some (concat (map event_of rs), rd + length (stream_of rs))"
proof (induction rs arbitrary: rd)
  case Nil
  then show ?case by (simp add: drain.simps)
next
  case (Cons r rs)
  let ?head = "rd + length (stream_of (r # rs))"
  have ok: "record_ok (length ring) r" "\<forall>r\<in>set rs. record_ok (length ring) r" using Cons.prems(1) by auto
  have h: "ring_holds ring rd (encode_record r)" "ring_holds ring (rd + record_len r) (stream_of rs)"
    using ring_holds_append [of ring rd "encode_record r" "stream_of rs"] Cons.prems(2) by auto
  have al: "8 dvd rd + record_len r" using Cons.prems(3) ok(1) by (simp add: record_ok_def)
  have "drain ring ?head (rd + record_len r) = Some (concat (map event_of rs), ?head)"
    using Cons.IH [OF ok(2) h(2) al] Cons.prems(4) by (simp add: add.assoc)
  moreover have "drain ring ?head rd = map_option (\<lambda>(es, q). (event_of r @ es, q)) (drain ring ?head (rd + record_len r))"
    using ok(1) h(1) len Cons.prems(3,4) by (intro drain_record) auto
  ultimately show ?case by simp
qed

section \<open>The polling loop\<close>

text \<open>
  The kernel appends records between the turns: at each turn the records \<open>rs\<close> are new, \<open>data_head\<close>
  stands behind them and the ring holds their bytes.
\<close>

primrec feed :: "nat \<Rightarrow> (perf_record list \<times> u8 list) list \<Rightarrow> (bool \<times> nat \<times> u8 list) list" where
  "feed rd [] = []"
| "feed rd (x # xs) =
     (False, rd + length (stream_of (fst x)), snd x) # feed (rd + length (stream_of (fst x))) xs"

primrec feed_ok :: "nat \<Rightarrow> nat \<Rightarrow> (perf_record list \<times> u8 list) list \<Rightarrow> bool" where
  "feed_ok n rd [] = True"
| "feed_ok n rd (x # xs) =
     (list_all (record_ok (length (snd x))) (fst x) \<and> length (snd x) = 2 ^ n \<and>
      ring_holds (snd x) rd (stream_of (fst x)) \<and> rd + length (stream_of (fst x)) < 2 ^ 64 \<and>
      feed_ok n (rd + length (stream_of (fst x))) xs)"

lemma stream_nonempty: "stream_of rs = [] \<longleftrightarrow> rs = []"
proof
  assume a: "stream_of rs = []"
  show "rs = []"
  proof (cases rs)
    case (Cons r t)
    with a have "encode_record r = []" by simp
    then have "length (encode_record r) = 0" by simp
    then show ?thesis by (simp add: record_len_def)
  qed
qed simp

lemma poll_feed:
  assumes "3 \<le> n"
  shows "feed_ok n rd xs \<Longrightarrow> 8 dvd rd \<Longrightarrow>
    poll_ring (feed rd xs @ [(True, h, q)]) rd rd =
      Some (concat (map event_of (concat (map fst xs))), rd + length (stream_of (concat (map fst xs))))"
proof (induction xs arbitrary: rd)
  case (Cons x xs)
  obtain rs ring where x: "x = (rs, ring)" by (cases x)
  let ?rd = "rd + length (stream_of rs)"
  have ok: "\<forall>r\<in>set rs. record_ok (length ring) r" "length ring = 2 ^ n" "ring_holds ring rd (stream_of rs)"
    "?rd < 2 ^ 64" "feed_ok n ?rd xs"
    using Cons.prems(1) x by (auto simp: list_all_iff)
  have al: "8 dvd ?rd" using Cons.prems(2) stream_aligned [OF ok(1)] by simp
  have rest: "poll_ring (feed ?rd xs @ [(True, h, q)]) ?rd ?rd =
      Some (concat (map event_of (concat (map fst xs))), ?rd + length (stream_of (concat (map fst xs))))"
    using ok(5) al by (rule Cons.IH)
  have drained: "drain ring ?rd rd = Some (concat (map event_of rs), ?rd)"
    using ok(1-4) Cons.prems(2) by (intro drain_stream [OF ok(2) assms]) auto
  show ?case
  proof (cases "rs = []")
    case True
    then show ?thesis using rest x by simp
  next
    case False
    then have "?rd \<noteq> rd" using stream_nonempty [of rs] by auto
    then show ?thesis using rest drained x by (simp add: add.assoc)
  qed
qed simp

text \<open>The layout documented in the module puts a 32-bit size before the data. The decoder is given
  that size as the first bytes of the program name.\<close>

lemma from_utf8_lossy_ascii: "b < 128 \<Longrightarrow> from_utf8_lossy [b] = [byte_char b]"
  by (simp add: from_utf8_lossy_def)

lemma decode_size_prefix:
  assumes "12 \<le> length data" and "length data < 128"
  shows "ev_prog_name (decode_policy_event (to_le 4 (length data) @ data)) = [byte_char (of_nat (length data))]"
proof -
  define b :: u8 where "b = of_nat (length data)"
  have small: "length data mod 256 = length data" "length data div 256 = 0" using assms by auto
  have u: "unat b = length data" by (simp add: b_def unat_of_nat small(1))
  have ne: "b \<noteq> 0" using u assms(1) by (metis le_zero_eq unat_0 zero_neq_numeral)
  have lt: "b < 128" unfolding word_less_nat_alt u using assms(2) by simp
  have four: "(4::nat) = Suc (Suc (Suc (Suc 0)))" by simp
  have le: "to_le 4 (length data) = [b, 0, 0, 0]" unfolding four to_le.simps small by (simp add: b_def)
  have "takeWhile (\<lambda>x. x \<noteq> 0) (take 16 ([b, 0, 0, 0] @ data)) = [b]" using ne by simp
  then show ?thesis
    using assms lt unfolding b_def [symmetric] le by (simp add: decode_policy_event_def from_utf8_lossy_ascii)
qed

section \<open>Properties\<close>

text \<open>C22: The consumer loses, repeats and reorders nothing: whatever batches of records the kernel
  appends between its turns, records that wrap around the end of the ring included, it reports
  the event of each sample record once, in the order written, frees exactly the space of all
  records, and never reads outside the ring.\<close>

theorem poll_ring_exact:
  assumes "feed_ok n rd xs" and "3 \<le> n" and "8 dvd rd"
  shows "poll_ring (feed rd xs @ [(True, h, q)]) rd rd =
     Some (concat (map event_of (concat (map fst xs))), rd + length (stream_of (concat (map fst xs))))"
  using assms by (intro poll_feed)

definition sample_record :: perf_record where
  "sample_record = \<lparr>pr_type = 9, pr_misc = 0, pr_payload = map char_byte ''guard'' @ replicate 11 0 @ [1, 0, 0, 0, 0, 0, 0, 0]\<rparr>"

definition sample_ring :: "u8 list" where
  "sample_ring = drop 16 (encode_record sample_record) @ replicate 32 0 @ take 16 (encode_record sample_record)"

lemma all_less_list_all: "(\<forall>i<n. P i) = list_all P [0..<n]"
  by (auto simp: list_all_iff)

theorem poll_ring_exact_witness:
  "map ev_prog_name (fst (the (poll_ring (feed 48 [([sample_record], sample_ring)] @ [(True, 0, [])]) 48 48))) = [''guard'']"
proof -
  have h: "list_all (\<lambda>i. sample_ring ! ((48 + i) mod 64) = stream_of [sample_record] ! i) [0..<32]" by code_simp
  have l: "length sample_ring = 64" "length (stream_of [sample_record]) = 32" by code_simp+
  have "ring_holds sample_ring 48 (stream_of [sample_record])"
    unfolding ring_holds_def l all_less_list_all by (intro conjI h) simp
  moreover have "record_ok 64 sample_record" by (simp add: record_ok_def record_len_def sample_record_def)
  ultimately have ok: "feed_ok 6 48 [([sample_record], sample_ring)]"
    using l by (simp del: stream_of_Cons)
  have "map ev_prog_name (concat (map event_of [sample_record])) = [''guard'']" by code_simp
  moreover have "poll_ring (feed 48 [([sample_record], sample_ring)] @ [(True, 0, [])]) 48 48 =
      Some (concat (map event_of (concat (map fst [([sample_record], sample_ring)]))), 48 + length (stream_of (concat (map fst [([sample_record], sample_ring)]))))"
    by (rule poll_ring_exact [OF ok]) simp_all
  ultimately show ?thesis by simp
qed

end
