(* ===== verification/BpfKernel.thy ===== *)
theory BpfKernel
  imports Elf Layout
begin

text \<open>
  The kernel as the two BPF loaders see it: \<open>bpf(2)\<close> for loading and pinning, closing a descriptor,
  reading a file, and the \<open>tc\<close> tool. What the kernel answers is the record \<open>kern\<close>; the
  descriptors the process holds are \<open>open_fds\<close> of the world, a pin is a special file in the tree.
  Both loaders fill the same load request and pin in the same way; that shared contract is the
  locale \<open>pin_store\<close>.
\<close>

section \<open>Requests\<close>

record prog_load_attr =
  attr_prog_type :: u32
  attr_insn_cnt :: u32
  attr_insns :: "u8 list"
  attr_license :: "u8 list"
  attr_log_level :: u32
  attr_prog_name :: "u8 list"

record kern =
  bpf_load :: "prog_load_attr \<Rightarrow> world \<Rightarrow> errno + nat"
  bpf_pin :: "nat \<Rightarrow> pathbuf \<Rightarrow> world \<Rightarrow> errno option"
  run_tc :: "string list \<Rightarrow> world \<Rightarrow> errno + (bool \<times> (string \<times> string) list)"
  rendered :: "content \<Rightarrow> u8 list"

text \<open>The name field: 15 bytes of the name at most, filled with NUL to 16.\<close>

definition prog_name_field :: "string \<Rightarrow> u8 list" where
  "prog_name_field name =
     (let bs = map char_byte name; n = min (length bs) 15 in take n bs @ replicate (16 - n) 0)"

definition load_attr :: "u32 \<Rightarrow> u8 list \<Rightarrow> string \<Rightarrow> string \<Rightarrow> prog_load_attr" where
  "load_attr ty bytes lic name =
     \<lparr>attr_prog_type = ty, attr_insn_cnt = of_nat (length bytes div 8), attr_insns = bytes,
      attr_license = unwrap_or (cstring lic) (map char_byte ''GPL'' @ [0]),
      attr_log_level = 1, attr_prog_name = prog_name_field name\<rparr>"

definition sys_bpf_load :: "kern \<Rightarrow> prog_load_attr \<Rightarrow> nat cmd" where
  "sys_bpf_load K a = (\<lambda>w.
     case bpf_load K a w of
       Inl e \<Rightarrow> (Inl (Bail ''bpf(BPF_PROG_LOAD) failed''), w)
     | Inr fd \<Rightarrow> (Inr fd, w\<lparr>open_fds := open_fds w @ [fd]\<rparr>))"

definition sys_bpf_pin :: "kern \<Rightarrow> nat \<Rightarrow> pathbuf \<Rightarrow> unit cmd" where
  "sys_bpf_pin K fd p = (\<lambda>w.
     case bpf_pin K fd p w of
       Some e \<Rightarrow> (Inl (Bail ''bpf(BPF_OBJ_PIN) failed''), w)
     | None \<Rightarrow>
         (case tset (resolve p) Special (fs w) of
            None \<Rightarrow> (Inl (Bail ''bpf(BPF_OBJ_PIN) failed''), w)
          | Some t \<Rightarrow> (Inr (), w\<lparr>fs := t\<rparr>)))"

definition sys_close :: "nat \<Rightarrow> unit cmd" where
  "sys_close fd = modify (\<lambda>w. w\<lparr>open_fds := remove1 fd (open_fds w)\<rparr>)"

text \<open>\<open>std::fs::read\<close>\<close>

definition fs_read :: "env \<Rightarrow> kern \<Rightarrow> pathbuf \<Rightarrow> u8 list cmd" where
  "fs_read E K p =
     bindE (asks (\<lambda>w. metadata (fs w) p)) (\<lambda>n.
       case n of
         None \<Rightarrow> throw (IoError OpenRead p ENOENT)
       | Some (RegFile c) \<Rightarrow>
           bindE (may_fail E OpenRead p) (\<lambda>_. ret (case c of Raw bs \<Rightarrow> bs | _ \<Rightarrow> rendered K c))
       | Some _ \<Rightarrow> throw (IoError OpenRead p EISDIR))"

text \<open>\<open>pin_bpf_prog\<close> (src/host_ebpf.rs); the guest's function has the same body.\<close>

definition pin_bpf_prog :: "env \<Rightarrow> kern \<Rightarrow> nat \<Rightarrow> pathbuf \<Rightarrow> unit cmd" where
  "pin_bpf_prog E K fd p =
     bindE (case path_parent p of None \<Rightarrow> ret () | Some d \<Rightarrow> create_dir_all E d) (\<lambda>_.
     if CHR 0x00 \<in> set p then throw (Bail ''BPF pin path contains NUL byte'')
     else sys_bpf_pin K fd p)"

definition pin_guest_bpf_prog :: "env \<Rightarrow> kern \<Rightarrow> nat \<Rightarrow> pathbuf \<Rightarrow> unit cmd" where
  "pin_guest_bpf_prog E K fd p =
     bindE (case path_parent p of None \<Rightarrow> ret () | Some d \<Rightarrow> create_dir_all E d) (\<lambda>_.
     if CHR 0x00 \<in> set p then throw (Bail ''BPF pin path contains NUL byte'')
     else sys_bpf_pin K fd p)"

text \<open>Removing a pin, then its directory if that is empty (errors of the latter ignored).\<close>

definition remove_parent_dir :: "env \<Rightarrow> pathbuf \<Rightarrow> unit cmd" where
  "remove_parent_dir E p =
     (case path_parent p of
        None \<Rightarrow> ret ()
      | Some d \<Rightarrow> bindE (attempt (remove_dir E d)) (\<lambda>r. ret ()))"

definition unpin_bpf_prog :: "env \<Rightarrow> pathbuf \<Rightarrow> unit cmd" where
  "unpin_bpf_prog E p =
     bindE (asks (path_exists p)) (\<lambda>x.
     whenE x (bindE (remove_file E p) (\<lambda>_. remove_parent_dir E p)))"

section \<open>Laws\<close>

lemma prog_name_field_length [simp]: "length (prog_name_field name) = 16"
  by (simp add: prog_name_field_def Let_def)

lemma prog_name_field_nul: "last (prog_name_field name) = 0"
  by (simp add: prog_name_field_def Let_def)

lemma prog_name_field_prefix:
  "map char_byte (take 15 name) = take (min (length name) 15) (prog_name_field name)"
  by (cases "length name \<le> 15") (simp_all add: prog_name_field_def Let_def take_map)

text \<open>The instruction count of an accepted program counts all of it.\<close>

lemma load_attr_insns:
  assumes "8 dvd length p" and "length p \<le> BPF_MAX_PROG_SIZE"
  shows "unat (attr_insn_cnt (load_attr ty p lic name)) * 8 = length p"
proof -
  have "length p div 8 < 2 ^ 32" using assms(2) by simp
  then have "unat (of_nat (length p div 8) :: u32) = length p div 8"
    by (simp add: unat_of_nat take_bit_nat_eq_self)
  with assms(1) show ?thesis by (simp add: load_attr_def)
qed

lemma sys_bpf_load_Inr:
  "sys_bpf_load K a w = (Inr fd, w') \<longleftrightarrow> bpf_load K a w = Inr fd \<and> w' = w\<lparr>open_fds := open_fds w @ [fd]\<rparr>"
  by (auto simp: sys_bpf_load_def split: sum.splits)

lemma sys_bpf_load_Inl: "sys_bpf_load K a w = (Inl e, w') \<Longrightarrow> w' = w"
  by (auto simp: sys_bpf_load_def split: sum.splits)

lemma sys_bpf_pin_Inr:
  "sys_bpf_pin K fd p w = (Inr u, w') \<Longrightarrow>
   \<exists>t. tset (resolve p) Special (fs w) = Some t \<and> w' = w\<lparr>fs := t\<rparr>"
  by (auto simp: sys_bpf_pin_def split: option.splits)

lemma fs_read_state: "fs_read E K p w = (r, w') \<Longrightarrow> w' = w"
  by (auto simp: fs_read_def io_defs may_fail_def split: option.splits node.splits)

lemma keeps_fs_read [keeps_intros]: "keeps P (fs_read E K p)"
  by (auto simp: keeps_def dest: fs_read_state)

definition fds_blind :: "(world \<Rightarrow> bool) \<Rightarrow> bool" where
  "fds_blind P \<longleftrightarrow> (\<forall>w t. P (w\<lparr>open_fds := t\<rparr>) = P w)"

lemma keeps_fds_blind:
  assumes "fds_blind P"
  shows "keeps P (sys_bpf_load K a)" "keeps P (sys_close fd)"
  using assms by (auto simp: keeps_def fds_blind_def sys_bpf_load_def sys_close_def modify_def split: sum.splits)

lemma keeps_fs_blind_pin:
  assumes "fs_blind P"
  shows "keeps P (pin_bpf_prog E K fd p)" "keeps P (remove_parent_dir E p)" "keeps P (unpin_bpf_prog E p)"
proof -
  have pin: "keeps P (sys_bpf_pin K fd p)"
    using assms by (auto simp: keeps_def fs_blind_def sys_bpf_pin_def split: option.splits)
  show "keeps P (pin_bpf_prog E K fd p)"
    unfolding pin_bpf_prog_def by (intro keeps_intros pin keeps_fs_blind assms)
  show par: "keeps P (remove_parent_dir E p)"
    unfolding remove_parent_dir_def by (intro keeps_intros keeps_fs_blind assms)
  show "keeps P (unpin_bpf_prog E p)"
    unfolding unpin_bpf_prog_def by (intro keeps_intros keeps_fs_blind assms par)
qed

lemma guest_pin_same: "pin_guest_bpf_prog = pin_bpf_prog"
  by (simp add: fun_eq_iff pin_guest_bpf_prog_def pin_bpf_prog_def)

section \<open>The contract of a pin\<close>

text \<open>
  A successful \<open>pin\<close> leaves a special file at its path; a successful \<open>unpin\<close> leaves nothing
  there. Neither touches the process's descriptors.
\<close>

locale pin_store =
  fixes pin :: "nat \<Rightarrow> pathbuf \<Rightarrow> unit cmd" and unpin :: "pathbuf \<Rightarrow> unit cmd"
  assumes pinned: "pin fd p w = (Inr (), w') \<Longrightarrow> tlookup (fs w') (resolve p) = Some Special"
    and unpinned: "tlookup (fs w) (resolve p) = Some Special \<Longrightarrow> resolve p \<noteq> [] \<Longrightarrow>
      unpin p w = (Inr (), w') \<Longrightarrow> tlookup (fs w') (resolve p) = None"
    and pin_frame: "fs_blind P \<Longrightarrow> keeps P (pin fd p)"
    and unpin_frame: "fs_blind P \<Longrightarrow> keeps P (unpin p)"
begin

lemma pin_unpin:
  "pin fd p w = (Inr (), w1) \<Longrightarrow> unpin p w1 = (Inr (), w2) \<Longrightarrow> resolve p \<noteq> [] \<Longrightarrow>
   tlookup (fs w2) (resolve p) = None"
  by (blast intro: unpinned pinned)

lemma pin_unpin_rest:
  assumes "pin fd p w = (Inr (), w1)" and "unpin p w1 = (Inr (), w2)" and "fs_blind P"
  shows "P w \<Longrightarrow> P w2"
  using keepsD [OF pin_frame [OF assms(3)] assms(1)] keepsD [OF unpin_frame [OF assms(3)] assms(2)] by blast

end

lemma tlookup_tdel_None: "p \<noteq> [] \<Longrightarrow> tlookup (tdel p t) p = None"
  using tdel_lookup [of p t "[]"] by simp

lemma tlookup_tdel_absent: "tlookup t q = None \<Longrightarrow> tlookup (tdel p t) q = None"
proof (induction p t arbitrary: q rule: tdel.induct)
  case (1 x es)
  then show ?case by (cases q) auto
next
  case (2 x y ys es)
  then show ?case by (cases q) (auto split: option.splits)
qed auto

lemma remove_file_Inr:
  "remove_file E p w = (Inr u, w') \<Longrightarrow> w' = w\<lparr>fs := tdel (resolve p) (fs w)\<rparr>"
  by (auto simp: remove_file_def Let_def split: option.splits node.splits)

lemma remove_dir_absent:
  "remove_dir E d w = (r, w') \<Longrightarrow> tlookup (fs w) q = None \<Longrightarrow> tlookup (fs w') q = None"
  by (auto simp: remove_dir_def Let_def tlookup_tdel_absent split: option.splits node.splits if_splits)

lemma remove_parent_dir_absent:
  "remove_parent_dir E p w = (r, w') \<Longrightarrow> tlookup (fs w) q = None \<Longrightarrow> tlookup (fs w') q = None"
  by (cases r) (auto simp: remove_parent_dir_def runs dest: remove_dir_absent split: option.splits)

lemma resolve_special: "tlookup (fs w) (resolve p) = Some Special \<Longrightarrow> fs w = Special \<or> resolve p \<noteq> []"
  by (cases "resolve p") auto

lemma pin_bpf_prog_Inr:
  "pin_bpf_prog E K fd p w = (Inr u, w') \<Longrightarrow> tlookup (fs w') (resolve p) = Some Special"
  by (auto simp: pin_bpf_prog_def runs dest!: sys_bpf_pin_Inr tset_lookup_self split: option.splits if_splits)

lemma unpin_bpf_prog_Inr:
  assumes "tlookup (fs w) (resolve p) = Some Special" and "unpin_bpf_prog E p w = (Inr u, w')"
    and "resolve p \<noteq> []"
  shows "tlookup (fs w') (resolve p) = None"
proof -
  have "path_exists p w" using assms(1) by (simp add: path_exists_def metadata_not_symlink)
  then obtain w1 where 1: "remove_file E p w = (Inr (), w1)" and 2: "remove_parent_dir E p w1 = (Inr (), w')"
    using assms(2) by (auto simp: unpin_bpf_prog_def runs)
  have "tlookup (fs w1) (resolve p) = None"
    using remove_file_Inr [OF 1] assms(3) by (simp add: tlookup_tdel_None)
  with 2 show ?thesis by (rule remove_parent_dir_absent)
qed

interpretation host_pins: pin_store "pin_bpf_prog E K" "unpin_bpf_prog E" for E K
  by unfold_locales (auto intro: pin_bpf_prog_Inr unpin_bpf_prog_Inr keeps_fs_blind_pin)

section \<open>A concrete kernel\<close>

definition load_next_fd :: "prog_load_attr \<Rightarrow> world \<Rightarrow> errno + nat" where
  "load_next_fd a w = Inr (foldr max (map Suc (open_fds w)) 7)"

definition load_denied :: "prog_load_attr \<Rightarrow> world \<Rightarrow> errno + nat" where
  "load_denied a w = Inl 1"

definition pin_granted :: "nat \<Rightarrow> pathbuf \<Rightarrow> world \<Rightarrow> errno option" where
  "pin_granted fd p w = None"

text \<open>\<open>tc filter add\<close> installs a filter; \<open>tc filter del\<close> takes every filter of that hook away.\<close>

definition tc_effect :: "bool \<Rightarrow> string list \<Rightarrow> (string \<times> string) list \<Rightarrow> (string \<times> string) list" where
  "tc_effect ok args fl =
     (if ok \<and> take 3 args = [''filter'', ''add'', ''dev''] then fl @ [(args ! 3, args ! 4)]
      else if ok \<and> take 3 args = [''filter'', ''del'', ''dev''] then filter (\<lambda>f. f \<noteq> (args ! 3, args ! 4)) fl
      else fl)"

definition tc_tool :: "string list \<Rightarrow> world \<Rightarrow> errno + (bool \<times> (string \<times> string) list)" where
  "tc_tool args w = Inr (True, tc_effect True args (tc_filters w))"

definition json_text :: "content \<Rightarrow> u8 list" where
  "json_text c = [123, 125]"

definition quiet_kern :: kern where
  "quiet_kern = \<lparr>bpf_load = load_next_fd, bpf_pin = pin_granted, run_tc = tc_tool, rendered = json_text\<rparr>"

definition old_kern :: kern where
  "old_kern = quiet_kern\<lparr>bpf_load := load_denied\<rparr>"

text \<open>The kernel gives out a descriptor that is not in use.\<close>

definition fd_fresh :: "kern \<Rightarrow> bool" where
  "fd_fresh K \<longleftrightarrow> (\<forall>a w fd. bpf_load K a w = Inr fd \<longrightarrow> fd \<notin> set (open_fds w))"

lemma foldr_max_bound: "x \<in> set xs \<Longrightarrow> x \<le> foldr max xs (n::nat)"
  by (induction xs) auto

lemma fd_fresh_quiet: "fd_fresh quiet_kern"
proof -
  have "x < foldr max (map Suc xs) 7" if "x \<in> set xs" for x and xs :: "nat list"
    using foldr_max_bound [of "Suc x" "map Suc xs" 7] that by (simp add: Suc_le_eq)
  then show ?thesis by (auto simp: fd_fresh_def quiet_kern_def load_next_fd_def)
qed

end
