(* ===== verification/PerfPoll.thy ===== *)
theory PerfPoll
  imports PerfRing BpfKernel
begin

text \<open>
  The polling thread around the ring (src/host_ebpf.rs): opening the perf event, mapping its buffer,
  the loop of \<open>PerfRing\<close> and closing. What the kernel answers, and what the thread finds at each turn
  of the loop, is the record \<open>perf_host\<close>; a turn is the stop signal, the kernel's head and the ring.
\<close>

abbreviation (input) PERF_TYPE_SOFTWARE :: u32 where "PERF_TYPE_SOFTWARE \<equiv> 1"
abbreviation (input) PERF_COUNT_SW_BPF_OUTPUT :: u64 where "PERF_COUNT_SW_BPF_OUTPUT \<equiv> 10"
abbreviation (input) PERF_RING_PAGES :: nat where "PERF_RING_PAGES \<equiv> 16"
abbreviation (input) PERF_MMAP_OVERHEAD_PAGES :: nat where "PERF_MMAP_OVERHEAD_PAGES \<equiv> 1"

text \<open>The request; the fields not named are zero.\<close>

record perf_event_attr =
  pe_type :: u32
  pe_size :: u32
  pe_config :: u64
  pe_sample_period :: u64
  pe_sample_type :: u64
  pe_wakeup_events :: u32

definition bpf_output_attr :: perf_event_attr where
  "bpf_output_attr = \<lparr>pe_type = PERF_TYPE_SOFTWARE, pe_size = 112, pe_config = PERF_COUNT_SW_BPF_OUTPUT,
     pe_sample_period = 1, pe_sample_type = 0, pe_wakeup_events = 1\<rparr>"

record perf_host =
  perf_event_open :: "perf_event_attr \<Rightarrow> u32 \<Rightarrow> world \<Rightarrow> errno + nat"
  perf_mmap :: "nat \<Rightarrow> nat \<Rightarrow> world \<Rightarrow> errno option"
  perf_page_size :: nat
  perf_turns :: "(bool \<times> nat \<times> u8 list) list"

definition open_bpf_output_perf_event :: "perf_host \<Rightarrow> u32 \<Rightarrow> nat cmd" where
  "open_bpf_output_perf_event H cpu = (\<lambda>w.
     case perf_event_open H bpf_output_attr cpu w of
       Inl e \<Rightarrow> (Inl (Bail ''perf_event_open failed''), w)
     | Inr fd \<Rightarrow> (Inr fd, w\<lparr>open_fds := open_fds w @ [fd]\<rparr>))"

text \<open>Returns the events it logs. A read outside the mapping has no meaning in the code.\<close>

definition poll_ring_buffer_fd :: "perf_host \<Rightarrow> nat \<Rightarrow> policy_event list cmd" where
  "poll_ring_buffer_fd H fd =
     (let mmap_len = perf_page_size H * (PERF_MMAP_OVERHEAD_PAGES + PERF_RING_PAGES) in
      bindE (asks (perf_mmap H fd mmap_len)) (\<lambda>m.
      case m of
        Some e \<Rightarrow> throw (Bail ''mmap of perf ring-buffer failed'')
      | None \<Rightarrow>
          (case poll_ring (perf_turns H) 0 0 of
             None \<Rightarrow> throw (Panic ''read outside the ring'')
           | Some (events, tail) \<Rightarrow> ret events)))"

text \<open>Without a perf event the thread waits for the stop signal and returns.\<close>

definition poll_perf_ring_buffer :: "perf_host \<Rightarrow> u32 \<Rightarrow> policy_event list cmd" where
  "poll_perf_ring_buffer H cpu =
     bindE (attempt (open_bpf_output_perf_event H cpu)) (\<lambda>perf_fd.
     case perf_fd of
       Inl (e :: error) \<Rightarrow> ret []
     | Inr fd \<Rightarrow>
         bindE (attempt (poll_ring_buffer_fd H fd)) (\<lambda>result.
         case result of
           Inl (Panic s) \<Rightarrow> throw (Panic s)
         | _ \<Rightarrow> bindE (sys_close fd) (\<lambda>_. of_result result)))"

text \<open>Whatever happens short of a read outside the ring, the descriptor is closed and nothing else
  changed; and the thread only fails when the buffer cannot be mapped.\<close>

lemma poll_ring_buffer_fd_state: "poll_ring_buffer_fd H fd w = (r, w') \<Longrightarrow> w' = w"
  by (auto simp: poll_ring_buffer_fd_def Let_def io_defs split: option.splits prod.splits)

lemma poll_perf_closes:
  assumes run: "poll_perf_ring_buffer H cpu w = (r, w')" and no_panic: "poll_ring (perf_turns H) 0 0 \<noteq> None"
    and fresh: "\<And>fd. perf_event_open H bpf_output_attr cpu w = Inr fd \<Longrightarrow> fd \<notin> set (open_fds w)"
  shows "w' = w"
proof (cases "perf_event_open H bpf_output_attr cpu w")
  case (Inl e)
  then show ?thesis
    using run by (simp add: poll_perf_ring_buffer_def open_bpf_output_perf_event_def bindE_def attempt_def ret_def)
next
  case (Inr fd)
  let ?v = "w\<lparr>open_fds := open_fds w @ [fd]\<rparr>"
  obtain q v where q: "poll_ring_buffer_fd H fd ?v = (q, v)" by fastforce
  then have v: "v = ?v" by (rule poll_ring_buffer_fd_state)
  have "q \<noteq> Inl (Panic s)" for s
    using q no_panic by (auto simp: poll_ring_buffer_fd_def Let_def io_defs split: option.splits prod.splits)
  then have "(r, w') = (q, ?v\<lparr>open_fds := remove1 fd (open_fds ?v)\<rparr>)"
    using run Inr q
    by (auto simp: poll_perf_ring_buffer_def open_bpf_output_perf_event_def io_defs v sys_close_def
        split: sum.splits error.splits)
  then show ?thesis using fresh [OF Inr] by (simp add: remove1_append)
qed

end
