(* ===== verification/HostEbpf.thy ===== *)
theory HostEbpf
  imports BpfKernel
begin

text \<open>
  Loading, attaching and detaching host policies (src/host_ebpf.rs): the attach-point grammar, the
  \<open>tc\<close> handles, pins, and the top-level load and detach. Log events are left out.
\<close>

section \<open>Attach points\<close>

datatype tc_direction = Ingress | Egress

datatype attach_point = Tc string tc_direction | Tracepoint string string | Kprobe string | RawPoint string

definition parse_attach_point :: "string \<Rightarrow> attach_point" where
  "parse_attach_point s =
     (case strip_prefix ''tc-ingress:'' s of Some dev \<Rightarrow> Tc dev Ingress | None \<Rightarrow>
      case strip_prefix ''tc-egress:'' s of Some dev \<Rightarrow> Tc dev Egress | None \<Rightarrow>
      case (case strip_prefix ''tracepoint:'' s of None \<Rightarrow> None | Some r \<Rightarrow> split_once slash r) of
        Some (cat, evt) \<Rightarrow> Tracepoint cat evt | None \<Rightarrow>
      case strip_prefix ''kprobe:'' s of Some func \<Rightarrow> Kprobe func | None \<Rightarrow> RawPoint s)"

definition show_attach_point :: "attach_point \<Rightarrow> string" where
  "show_attach_point ap =
     (case ap of
        Tc dev Ingress \<Rightarrow> ''tc-ingress:'' @ dev
      | Tc dev Egress \<Rightarrow> ''tc-egress:'' @ dev
      | Tracepoint cat evt \<Rightarrow> ''tracepoint:'' @ cat @ slash # evt
      | Kprobe func \<Rightarrow> ''kprobe:'' @ func
      | RawPoint s \<Rightarrow> s)"

definition prog_type_from_attach_point :: "attach_point \<Rightarrow> u32" where
  "prog_type_from_attach_point ap =
     (case ap of Tc dev dir \<Rightarrow> BPF_PROG_TYPE_SCHED_CLS | Tracepoint c e \<Rightarrow> BPF_PROG_TYPE_TRACEPOINT
               | Kprobe f \<Rightarrow> BPF_PROG_TYPE_KPROBE | RawPoint s \<Rightarrow> BPF_PROG_TYPE_UNSPECIFIED)"

section \<open>Loading\<close>

definition load_bpf_object_file :: "env \<Rightarrow> kern \<Rightarrow> pathbuf \<Rightarrow> (u8 list \<times> string \<times> u32) cmd" where
  "load_bpf_object_file E K p = bindE (fs_read E K p) (\<lambda>data. of_result (parse_bpf_object data))"

definition load_bpf_prog_from_object :: "env \<Rightarrow> kern \<Rightarrow> pathbuf \<Rightarrow> string \<Rightarrow> attach_point \<Rightarrow> nat cmd" where
  "load_bpf_prog_from_object E K obj name ap =
     bindE (load_bpf_object_file E K obj) (\<lambda>(bytes, lic, hint).
     let ty = (if hint = BPF_PROG_TYPE_UNSPECIFIED then prog_type_from_attach_point ap else hint)
     in sys_bpf_load K (load_attr ty bytes lic name))"

section \<open>tc\<close>

definition dir_str :: "tc_direction \<Rightarrow> string" where
  "dir_str d = (case d of Ingress \<Rightarrow> ''ingress'' | Egress \<Rightarrow> ''egress'')"

definition tc_handle_of :: "string \<Rightarrow> tc_direction \<Rightarrow> string" where
  "tc_handle_of dev d = ''tc:'' @ dev @ '':'' @ dir_str d"

text \<open>\<open>Command::new("tc").args(..).output()\<close>: an error when \<open>tc\<close> cannot be run, else its success.\<close>

definition tc_output :: "kern \<Rightarrow> string list \<Rightarrow> bool cmd" where
  "tc_output K args = (\<lambda>w.
     case run_tc K args w of
       Inl e \<Rightarrow> (Inl (Bail ''cannot run tc''), w)
     | Inr (ok, filters) \<Rightarrow> (Inr ok, w\<lparr>tc_filters := filters\<rparr>))"

definition tc_attach_bpf :: "kern \<Rightarrow> pathbuf \<Rightarrow> string \<Rightarrow> tc_direction \<Rightarrow> string \<Rightarrow> string cmd" where
  "tc_attach_bpf K obj dev d sec =
     bindE (tc_output K [''qdisc'', ''add'', ''dev'', dev, ''clsact'']) (\<lambda>_.
     bindE (tc_output K [''filter'', ''add'', ''dev'', dev, dir_str d, ''bpf'', ''da'', ''obj'', obj, ''sec'', sec]) (\<lambda>ok.
     if \<not> ok then throw (Bail ''tc filter add failed'') else ret (tc_handle_of dev d)))"

definition tc_detach_bpf :: "kern \<Rightarrow> string \<Rightarrow> unit cmd" where
  "tc_detach_bpf K handle =
     (case splitn 3 (CHR '':'') handle of
        [a, dev, dir] \<Rightarrow>
          if a \<noteq> ''tc'' then throw (Bail ''invalid TC detach handle'')
          else bindE (tc_output K [''filter'', ''del'', ''dev'', dev, dir]) (\<lambda>_. ret ())
      | _ \<Rightarrow> throw (Bail ''invalid TC detach handle''))"

fun tc_scan :: "u8 list \<Rightarrow> elf_header \<Rightarrow> u8 list \<Rightarrow> nat list \<Rightarrow> string option" where
  "tc_scan data h strtab [] = Some ''classifier''"
| "tc_scan data h strtab (i # idxs) =
     (if \<not> sh_in_file data h i then Some ''classifier''
      else let s = read_sh data (sh_pos h i) in
        if sh_type s \<noteq> 1 then tc_scan data h strtab idxs
        else case read_cstr strtab (sh_name_idx s) of
            None \<Rightarrow> None
          | Some name \<Rightarrow>
              if is_bpf_prog_section name \<and> (starts_with ''tc'' name \<or> name = ''classifier'' \<or> name = ''action'')
              then Some name else tc_scan data h strtab idxs)"

text \<open>\<open>infer_tc_section\<close> on the bytes of the file; \<open>None\<close> is a panic.\<close>

definition tc_section_name :: "u8 list \<Rightarrow> string option" where
  "tc_section_name data =
     (if length data < 64 \<or> take 4 data \<noteq> [127, 69, 76, 70] then Some ''classifier''
      else let h = elf_header_of data in
        case read_section_data data (e_shoff h) (e_shentsize h) (e_shstrndx h) of
          None \<Rightarrow> Some ''classifier''
        | Some strtab \<Rightarrow> tc_scan data h strtab [0..<unat (e_shnum h)])"

definition infer_tc_section :: "env \<Rightarrow> kern \<Rightarrow> pathbuf \<Rightarrow> string cmd" where
  "infer_tc_section E K p =
     bindE (attempt (fs_read E K p)) (\<lambda>r.
       case r of
         Inl e \<Rightarrow> ret ''classifier''
       | Inr data \<Rightarrow>
           (case tc_section_name data of
              None \<Rightarrow> throw (Panic ''slice index out of range'')
            | Some n \<Rightarrow> ret n))"

section \<open>Load and detach\<close>

definition bpf_pin_path :: "string \<Rightarrow> string \<Rightarrow> pathbuf" where
  "bpf_pin_path pid name = join (join (join ''/sys/fs/bpf'' ''fastenv'') pid) name"

record loaded_policy =
  prog_fd :: nat
  lp_tc_handle :: "string option"
  lp_pin_path :: "pathbuf option"
  lp_loaded_at :: string

definition attach_loaded :: "env \<Rightarrow> kern \<Rightarrow> string \<Rightarrow> string \<Rightarrow> pathbuf \<Rightarrow> attach_point \<Rightarrow> nat \<Rightarrow> loaded_policy cmd" where
  "attach_loaded E K pid name obj ap fd =
     (case ap of
        Tc dev d \<Rightarrow>
          bindE (infer_tc_section E K obj) (\<lambda>sec.
          bindE (tc_attach_bpf K obj dev d sec) (\<lambda>handle.
          ret \<lparr>prog_fd = fd, lp_tc_handle = Some handle, lp_pin_path = None, lp_loaded_at = rfc3339_now E\<rparr>))
      | _ \<Rightarrow>
          bindE (attempt (pin_bpf_prog E K fd (bpf_pin_path pid name))) (\<lambda>r.
          ret \<lparr>prog_fd = fd, lp_tc_handle = None,
               lp_pin_path = (case r of Inl e \<Rightarrow> None | Inr _ \<Rightarrow> Some (bpf_pin_path pid name)),
               lp_loaded_at = rfc3339_now E\<rparr>))"

definition load_and_attach_host_ebpf :: "env \<Rightarrow> kern \<Rightarrow> string \<Rightarrow> string \<Rightarrow> pathbuf \<Rightarrow> string \<Rightarrow> loaded_policy cmd" where
  "load_and_attach_host_ebpf E K pid name obj aps =
     bindE (asks (path_exists obj)) (\<lambda>x.
     if \<not> x then throw (Bail ''BPF object file not found'')
     else let ap = parse_attach_point aps in
       bindE (load_bpf_prog_from_object E K obj name ap) (\<lambda>fd.
       attach_loaded E K pid name obj ap fd))"

definition detach_host_ebpf :: "env \<Rightarrow> kern \<Rightarrow> host_ebpf_policy \<Rightarrow> unit cmd" where
  "detach_host_ebpf E K pol =
     bindE (case tc_attach_handle pol of
              None \<Rightarrow> ret () | Some h \<Rightarrow> bindE (attempt (tc_detach_bpf K h)) (\<lambda>r. ret ())) (\<lambda>_.
     (case pin_path pol of
        None \<Rightarrow> ret () | Some p \<Rightarrow> bindE (attempt (unpin_bpf_prog E p)) (\<lambda>r. ret ())))"

section \<open>Laws\<close>

text \<open>What the loader relies on of \<open>tc\<close>: \<open>filter add\<close> adds one filter at the hook, \<open>filter del\<close>
  without a priority flushes the hook; a command that fails, and any other, leaves the filters.\<close>

definition tc_ok :: "kern \<Rightarrow> bool" where
  "tc_ok K \<longleftrightarrow> (\<forall>args w ok fl. run_tc K args w = Inr (ok, fl) \<longrightarrow> fl = tc_effect ok args (tc_filters w))"

lemma tc_ok_tool: "run_tc K = tc_tool \<Longrightarrow> tc_ok K"
  by (simp add: tc_ok_def tc_tool_def)

lemma tc_output_Inr:
  "tc_ok K \<Longrightarrow> tc_output K args w = (Inr ok, w') \<Longrightarrow>
   w' = w\<lparr>tc_filters := tc_effect ok args (tc_filters w)\<rparr>"
  by (auto simp: tc_output_def tc_ok_def split: sum.splits prod.splits)

lemma tc_output_Inl: "tc_output K args w = (Inl e, w') \<Longrightarrow> w' = w"
  by (auto simp: tc_output_def split: sum.splits prod.splits)

definition tc_blind :: "(world \<Rightarrow> bool) \<Rightarrow> bool" where
  "tc_blind P \<longleftrightarrow> (\<forall>w t. P (w\<lparr>tc_filters := t\<rparr>) = P w)"

lemma keeps_tc_output: "tc_blind P \<Longrightarrow> keeps P (tc_output K args)"
  by (auto simp: keeps_def tc_blind_def tc_output_def split: sum.splits prod.splits)

lemma keeps_tc_blind:
  assumes "tc_blind P"
  shows "keeps P (tc_attach_bpf K obj dev d sec)" "keeps P (tc_detach_bpf K h)"
  unfolding tc_attach_bpf_def tc_detach_bpf_def
  by (auto intro!: keeps_intros keeps_tc_output assms split: list.splits)

lemma tc_handle_parts:
  assumes "CHR '':'' \<notin> set dev"
  shows "splitn 3 (CHR '':'') (tc_handle_of dev d) = [''tc'', dev, dir_str d]"
proof -
  have "split_once (CHR '':'') (''tc'' @ CHR '':'' # (dev @ CHR '':'' # dir_str d)) = Some (''tc'', dev @ CHR '':'' # dir_str d)"
    by (rule split_once_append) simp
  then have "split_once (CHR '':'') (tc_handle_of dev d) = Some (''tc'', dev @ CHR '':'' # dir_str d)"
    by (simp add: tc_handle_of_def)
  moreover have "split_once (CHR '':'') (dev @ CHR '':'' # dir_str d) = Some (dev, dir_str d)"
    using assms by (rule split_once_append)
  ultimately show ?thesis by (simp add: numeral_eq_Suc)
qed

lemma load_bpf_object_file_state: "load_bpf_object_file E K p w = (r, w') \<Longrightarrow> w' = w"
  by (cases r) (auto simp: load_bpf_object_file_def runs dest!: fs_read_state)

lemma infer_tc_section_state: "infer_tc_section E K p w = (r, w') \<Longrightarrow> w' = w"
proof -
  have "keeps (\<lambda>x. x = w) (infer_tc_section E K p)"
    unfolding infer_tc_section_def by (intro keeps_intros)
  then show "infer_tc_section E K p w = (r, w') \<Longrightarrow> w' = w" by (blast dest: keepsD)
qed

lemma load_bpf_prog_Inr:
  "load_bpf_prog_from_object E K obj name ap w = (Inr fd, w') \<Longrightarrow> w' = w\<lparr>open_fds := open_fds w @ [fd]\<rparr>"
  by (auto simp: load_bpf_prog_from_object_def Let_def runs sys_bpf_load_Inr dest!: load_bpf_object_file_state)

lemma load_bpf_prog_Inl:
  "load_bpf_prog_from_object E K obj name ap w = (Inl e, w') \<Longrightarrow> w' = w"
  by (auto simp: load_bpf_prog_from_object_def Let_def runs
      dest!: load_bpf_object_file_state sys_bpf_load_Inl split: prod.splits)

lemma tc_attach_bpf_Inr:
  assumes "tc_ok K" and "tc_attach_bpf K obj dev d sec w = (Inr h, w')"
  shows "h = tc_handle_of dev d \<and> w' = w\<lparr>tc_filters := tc_filters w @ [(dev, dir_str d)]\<rparr>"
proof -
  let ?add = "[''filter'', ''add'', ''dev'', dev, dir_str d, ''bpf'', ''da'', ''obj'', obj, ''sec'', sec]"
  obtain ok w1 where 1: "tc_output K [''qdisc'', ''add'', ''dev'', dev, ''clsact''] w = (Inr ok, w1)"
    and 2: "tc_output K ?add w1 = (Inr True, w')" and h: "h = tc_handle_of dev d"
    using assms(2) by (auto simp: tc_attach_bpf_def runs split: if_splits)
  have "w1 = w" using tc_output_Inr [OF assms(1) 1] by (simp add: tc_effect_def)
  with tc_output_Inr [OF assms(1) 2] h show ?thesis by (simp add: tc_effect_def)
qed

lemma parse_show_attach_point:
  "(case ap of Tracepoint cat evt \<Rightarrow> slash \<notin> set cat | RawPoint s \<Rightarrow> parse_attach_point s = RawPoint s | _ \<Rightarrow> True) \<Longrightarrow>
   parse_attach_point (show_attach_point ap) = ap"
  by (auto simp: parse_attach_point_def show_attach_point_def split_once_append
      split: attach_point.splits tc_direction.splits)

lemma load_and_attach_Inr:
  assumes "load_and_attach_host_ebpf E K pid name obj aps w = (Inr lp, w')"
  shows "\<exists>fd. attach_loaded E K pid name obj (parse_attach_point aps) fd (w\<lparr>open_fds := open_fds w @ [fd]\<rparr>) = (Inr lp, w')"
  using assms by (auto simp: load_and_attach_host_ebpf_def Let_def runs dest!: load_bpf_prog_Inr split: if_splits)

lemma load_and_attach_Inl:
  assumes "load_and_attach_host_ebpf E K pid name obj aps w = (Inl e, w')"
  shows "w' = w \<or>
    (\<exists>fd. attach_loaded E K pid name obj (parse_attach_point aps) fd (w\<lparr>open_fds := open_fds w @ [fd]\<rparr>) = (Inl e, w'))"
  using assms
  by (auto simp: load_and_attach_host_ebpf_def Let_def runs dest!: load_bpf_prog_Inr load_bpf_prog_Inl split: if_splits)

lemma attach_loaded_tc:
  assumes "tc_ok K" and "attach_loaded E K pid name obj (Tc dev d) fd w = (Inr lp, w')"
  shows "lp_tc_handle lp = Some (tc_handle_of dev d) \<and> lp_pin_path lp = None \<and> prog_fd lp = fd \<and>
     w' = w\<lparr>tc_filters := tc_filters w @ [(dev, dir_str d)]\<rparr>"
proof -
  obtain sec w1 h where 1: "infer_tc_section E K obj w = (Inr sec, w1)"
    and 2: "tc_attach_bpf K obj dev d sec w1 = (Inr h, w')"
    and lp: "lp = \<lparr>prog_fd = fd, lp_tc_handle = Some h, lp_pin_path = None, lp_loaded_at = rfc3339_now E\<rparr>"
    using assms(2) by (auto simp: attach_loaded_def runs)
  from infer_tc_section_state [OF 1] tc_attach_bpf_Inr [OF assms(1) 2] lp show ?thesis by simp
qed

lemma attach_loaded_pin:
  assumes "\<And>dev d. ap \<noteq> Tc dev d" and "attach_loaded E K pid name obj ap fd w = (Inr lp, w')"
  shows "lp_tc_handle lp = None \<and> prog_fd lp = fd \<and>
     (case lp_pin_path lp of
        None \<Rightarrow> (\<exists>e. pin_bpf_prog E K fd (bpf_pin_path pid name) w = (Inl e, w'))
      | Some p \<Rightarrow> p = bpf_pin_path pid name \<and> pin_bpf_prog E K fd p w = (Inr (), w'))"
proof -
  have "attach_loaded E K pid name obj ap fd = bindE (attempt (pin_bpf_prog E K fd (bpf_pin_path pid name))) (\<lambda>r.
          ret \<lparr>prog_fd = fd, lp_tc_handle = None,
               lp_pin_path = (case r of Inl e \<Rightarrow> None | Inr _ \<Rightarrow> Some (bpf_pin_path pid name)),
               lp_loaded_at = rfc3339_now E\<rparr>)"
    using assms(1) by (cases ap) (auto simp: attach_loaded_def)
  with assms(2) obtain r where "pin_bpf_prog E K fd (bpf_pin_path pid name) w = (r, w')"
    and "lp = \<lparr>prog_fd = fd, lp_tc_handle = None,
           lp_pin_path = (case r of Inl e \<Rightarrow> None | Inr _ \<Rightarrow> Some (bpf_pin_path pid name)),
           lp_loaded_at = rfc3339_now E\<rparr>"
    by (auto simp: runs)
  then show ?thesis by (cases r) auto
qed

lemma detach_tc_only:
  assumes "tc_ok K" and "\<And>args v. \<exists>fl. run_tc K args v = Inr (True, fl)"
    and "tc_attach_handle pol = Some (tc_handle_of dev d)" and "pin_path pol = None" and "CHR '':'' \<notin> set dev"
  shows "detach_host_ebpf E K pol w = (Inr (), w\<lparr>tc_filters := filter (\<lambda>f. f \<noteq> (dev, dir_str d)) (tc_filters w)\<rparr>)"
proof -
  let ?del = "[''filter'', ''del'', ''dev'', dev, dir_str d]"
  obtain fl where fl: "run_tc K ?del w = Inr (True, fl)" using assms(2) by blast
  then have "fl = tc_effect True ?del (tc_filters w)"
    using assms(1) unfolding tc_ok_def by blast
  then have "fl = filter (\<lambda>f. f \<noteq> (dev, dir_str d)) (tc_filters w)"
    by (simp add: tc_effect_def)
  with fl show ?thesis
    by (simp add: detach_host_ebpf_def assms(3,4) tc_detach_bpf_def tc_handle_parts [OF assms(5)]
        tc_output_def io_defs)
qed

text \<open>A device name with a colon comes back from its handle as another device and hook.\<close>

lemma tc_handle_colon:
  "splitn 3 (CHR '':'') (tc_handle_of ''eth0:1'' Ingress) = [''tc'', ''eth0'', ''1:ingress'']"
  by code_simp

section \<open>Samples\<close>

definition object_world :: world where
  "object_world = dir_world (Dir [(''p.o'', RegFile (Raw (sample_elf 2))),
     (''sys'', Dir [(''fs'', Dir [(''bpf'', Dir [])])])])"

lemma fs_read_object: "fs_read quiet_env K ''/p.o'' object_world = (Inr (sample_elf 2), object_world)"
proof -
  have "resolve ''/p.o'' = [''p.o'']" by code_simp
  then have "metadata (fs object_world) ''/p.o'' = Some (RegFile (Raw (sample_elf 2)))"
    by (intro metadata_not_symlink) (simp_all add: object_world_def dir_world_def)
  then show ?thesis by (simp add: fs_read_def io_defs may_fail_def)
qed

lemma load_object:
  assumes "bpf_load K = load_next_fd"
  shows "load_bpf_prog_from_object quiet_env K ''/p.o'' ''n'' ap object_world =
     (Inr 7, object_world\<lparr>open_fds := [7]\<rparr>)"
proof -
  have "load_bpf_object_file quiet_env K ''/p.o'' object_world = (Inr (sample_prog, ''MIT'', 0), object_world)"
    by (simp add: load_bpf_object_file_def bindE_def fs_read_object of_result_def sample_elf_parses)
  then show ?thesis
    by (simp add: load_bpf_prog_from_object_def bindE_def Let_def sys_bpf_load_def assms load_next_fd_def
        object_world_def dir_world_def)
qed

lemma object_exists: "path_exists ''/p.o'' object_world"
proof -
  have "resolve ''/p.o'' = [''p.o'']" by code_simp
  then show ?thesis
    by (auto simp: path_exists_def object_world_def dir_world_def metadata_not_symlink)
qed

lemma sample_tc_section: "tc_section_name (sample_elf 2) = Some ''classifier''"
proof -
  have "[0..<unat (3::u64)] = [0, 1, 2]" by code_simp
  moreover have "take 4 (sample_elf 2) = [127, 69, 76, 70]" by code_simp
  moreover have "sh_type (read_sh (sample_elf 2) 101) = 3" by code_simp
  moreover have "\<not> is_bpf_prog_section ''license''" by code_simp
  moreover have "\<not> starts_with ''tc'' ''.text''" by code_simp
  ultimately show ?thesis
    using sample_elf_sections sample_strtab_names
    by (simp add: tc_section_name_def sample_elf_header sample_header_def sh_in_file_def sh_pos_def)
qed

lemma infer_object: "infer_tc_section quiet_env K ''/p.o'' (object_world\<lparr>open_fds := [7]\<rparr>) =
    (Inr ''classifier'', object_world\<lparr>open_fds := [7]\<rparr>)"
proof -
  have "fs_read quiet_env K ''/p.o'' (object_world\<lparr>open_fds := [7]\<rparr>) = (Inr (sample_elf 2), object_world\<lparr>open_fds := [7]\<rparr>)"
    using fs_read_object [of K] by (auto simp: fs_read_def io_defs may_fail_def split: option.splits node.splits)
  then show ?thesis by (simp add: infer_tc_section_def io_defs sample_tc_section)
qed

definition sample_policy :: "string option \<Rightarrow> pathbuf option \<Rightarrow> host_ebpf_policy" where
  "sample_policy h p = \<lparr>pol_name = ''n'', pol_attach_point = [], pol_object_path = ''/p.o'',
     tc_attach_handle = h, pin_path = p, loaded_at = None\<rparr>"

lemma load_tc_object:
  "\<exists>lp w1. load_and_attach_host_ebpf quiet_env quiet_kern ''v'' ''n'' ''/p.o'' ''tc-ingress:tap0'' object_world = (Inr lp, w1)"
proof -
  have p: "parse_attach_point ''tc-ingress:tap0'' = Tc ''tap0'' Ingress" by code_simp
  have k: "bpf_load quiet_kern = load_next_fd" "run_tc quiet_kern = tc_tool" by (simp_all add: quiet_kern_def)
  show ?thesis
    by (simp add: load_and_attach_host_ebpf_def attach_loaded_def bindE_def asks_def object_exists p Let_def
        load_object [OF k(1)] infer_object tc_attach_bpf_def tc_output_def k(2) tc_tool_def ret_def)
qed

lemma pin_object:
  "fst (pin_bpf_prog quiet_env quiet_kern 7 (bpf_pin_path ''v'' ''n'') (object_world\<lparr>open_fds := [7]\<rparr>)) = Inr ()"
  by code_simp

lemma load_pin_object:
  "\<exists>w1. load_and_attach_host_ebpf quiet_env quiet_kern ''v'' ''n'' ''/p.o'' ''kprobe:f'' object_world =
     (Inr \<lparr>prog_fd = 7, lp_tc_handle = None, lp_pin_path = Some ''/sys/fs/bpf/fastenv/v/n'',
           lp_loaded_at = rfc3339_now quiet_env\<rparr>, w1)"
proof -
  have p: "parse_attach_point ''kprobe:f'' = Kprobe ''f''" by code_simp
  have n: "bpf_pin_path ''v'' ''n'' = ''/sys/fs/bpf/fastenv/v/n''" by code_simp
  have k: "bpf_load quiet_kern = load_next_fd" by (simp add: quiet_kern_def)
  obtain w1 where "pin_bpf_prog quiet_env quiet_kern 7 (bpf_pin_path ''v'' ''n'') (object_world\<lparr>open_fds := [7]\<rparr>) = (Inr (), w1)"
    using pin_object by (metis prod.collapse)
  then show ?thesis
    by (simp add: load_and_attach_host_ebpf_def attach_loaded_def bindE_def asks_def object_exists p n Let_def
        load_object [OF k] attempt_def ret_def)
qed

section \<open>Properties\<close>



text \<open>The life of a pinned policy. If the load reports a pin, the program is pinned there, and a
  detach whose file removal is not refused leaves nothing at that path.\<close>

theorem pinned_policy_lifecycle:
  assumes "load_and_attach_host_ebpf E K pid name obj aps w = (Inr lp, w1)"
    and "lp_pin_path lp = Some p" and "resolve p \<noteq> []"
    and "tc_attach_handle pol = lp_tc_handle lp" and "pin_path pol = lp_pin_path lp"
    and "fault E RemoveFile p w1 = None" and "detach_host_ebpf E K pol w1 = (r, w2)"
  shows "p = bpf_pin_path pid name \<and> tlookup (fs w1) (resolve p) = Some Special \<and>
     r = Inr () \<and> tlookup (fs w2) (resolve p) = None \<and> prog_fd lp \<in> set (open_fds w2)"
proof -
  from load_and_attach_Inr [OF assms(1)] obtain fd
    where run: "attach_loaded E K pid name obj (parse_attach_point aps) fd (w\<lparr>open_fds := open_fds w @ [fd]\<rparr>) = (Inr lp, w1)"
    by blast
  have ntc: "parse_attach_point aps \<noteq> Tc dev d" for dev d
  proof
    assume tc: "parse_attach_point aps = Tc dev d"
    with run have "lp_pin_path lp = None"
      by (auto simp: attach_loaded_def runs)
    with assms(2) show False by simp
  qed
  from attach_loaded_pin [OF ntc run] assms(2) have h: "lp_tc_handle lp = None" and fd: "prog_fd lp = fd"
    and p: "p = bpf_pin_path pid name"
    and pin: "pin_bpf_prog E K fd p (w\<lparr>open_fds := open_fds w @ [fd]\<rparr>) = (Inr (), w1)" by auto
  have sp: "tlookup (fs w1) (resolve p) = Some Special" using pin by (rule host_pins.pinned)
  have fds1: "open_fds w1 = open_fds w @ [fd]"
    using keepsD [OF host_pins.pin_frame [of "\<lambda>v. open_fds v = open_fds w @ [fd]"] pin]
    by (simp add: fs_blind_def)
  obtain q where un: "unpin_bpf_prog E p w1 = (q, w2)" and r: "r = Inr ()"
    using assms(4,5,7) h assms(2) by (auto simp: detach_host_ebpf_def io_defs split: prod.splits)
  have "path_exists p w1" using sp by (simp add: path_exists_def metadata_not_symlink)
  moreover have "remove_file E p w1 = (Inr (), w1\<lparr>fs := tdel (resolve p) (fs w1)\<rparr>)"
    using sp assms(6) by (simp add: remove_file_def Let_def)
  ultimately have q: "q = Inr ()"
    using un by (auto simp: unpin_bpf_prog_def remove_parent_dir_def io_defs split: option.splits prod.splits)
  have "tlookup (fs w2) (resolve p) = None"
    using host_pins.unpinned [OF sp assms(3)] un q by blast
  moreover have "open_fds w2 = open_fds w1"
    using keepsD [OF host_pins.unpin_frame [of "\<lambda>v. open_fds v = open_fds w1"] un] by (simp add: fs_blind_def)
  ultimately show ?thesis using p sp r fds1 fd by simp
qed

theorem pinned_policy_lifecycle_witness:
  "\<exists>lp w1 pol. load_and_attach_host_ebpf quiet_env quiet_kern ''v'' ''n'' ''/p.o'' ''kprobe:f'' object_world = (Inr lp, w1) \<and>
     tlookup (fs w1) [''sys'', ''fs'', ''bpf'', ''fastenv'', ''v'', ''n''] = Some Special \<and>
     tlookup (fs (snd (detach_host_ebpf quiet_env quiet_kern pol w1))) [''sys'', ''fs'', ''bpf'', ''fastenv'', ''v'', ''n''] = None"
proof -
  let ?p = "''/sys/fs/bpf/fastenv/v/n''"
  let ?lp = "\<lparr>prog_fd = 7, lp_tc_handle = None, lp_pin_path = Some ?p, lp_loaded_at = rfc3339_now quiet_env\<rparr>"
  from load_pin_object obtain w1 where run:
    "load_and_attach_host_ebpf quiet_env quiet_kern ''v'' ''n'' ''/p.o'' ''kprobe:f'' object_world = (Inr ?lp, w1)"
    by blast
  have r: "resolve ?p = [''sys'', ''fs'', ''bpf'', ''fastenv'', ''v'', ''n'']" by code_simp
  define pol where "pol = sample_policy None (Some ?p)"
  obtain q w2 where d: "detach_host_ebpf quiet_env quiet_kern pol w1 = (q, w2)" by fastforce
  show ?thesis
    using pinned_policy_lifecycle [OF run _ _ _ _ _ d, of ?p] run d
    by (intro exI [of _ ?lp] exI [of _ w1] exI [of _ pol]) (simp add: r pol_def sample_policy_def)
qed

end
