(* ===== verification/Fork.thy ===== *)
theory Fork
  imports Layout
begin

text \<open>
  \<open>fastenv fork\<close> (src/fork.rs): the pipeline from the two registry checks over the three
  directories, the overlay mount and the quota mode to the new registry entry.
\<close>

section \<open>The pipeline\<close>

definition fork_absent :: "string \<Rightarrow> error + fork_entry \<Rightarrow> error + unit" where
  "fork_absent fk r =
     (case r of Inr e \<Rightarrow> Inl (ForkExists fk) | Inl e \<Rightarrow> if not_found e then Inr () else Inl e)"

definition overlay_data :: "base_entry \<Rightarrow> pathbuf \<Rightarrow> pathbuf \<Rightarrow> error + string" where
  "overlay_data b upper work =
     (let s = ''lowerdir='' @ str_join '':'' (lower_path b # cache_lower_paths b)
              @ '',upperdir='' @ upper @ '',workdir='' @ work
      in if CHR 0x00 \<in> set s then Inl (Bail ''mount data contains null byte'') else Inr s)"

definition overlay_mount :: "pathbuf \<Rightarrow> string \<Rightarrow> mount" where
  "overlay_mount merged data =
     \<lparr>mnt_source = ''overlay'', mnt_target = merged, mnt_fstype = ''overlay'', mnt_bind = False,
      mnt_data = data\<rparr>"

definition fork_quota_mode :: "env \<Rightarrow> pathbuf \<Rightarrow> string \<Rightarrow> pathbuf \<Rightarrow> u64 option \<Rightarrow> quota_mode cmd" where
  "fork_quota_mode E root fk upper qb =
     (case qb of
        None \<Rightarrow> ret Soft
      | Some b \<Rightarrow>
          bindE (has_prjquota E root) (\<lambda>h.
          if h then assign_project_quota E upper (alloc_project_id fk) b else ret Soft))"

definition new_fork_entry ::
    "env \<Rightarrow> string \<Rightarrow> pathbuf \<Rightarrow> pathbuf \<Rightarrow> pathbuf \<Rightarrow> u64 option \<Rightarrow> quota_mode \<Rightarrow> fork_entry" where
  "new_fork_entry E bk upper work merged qb mode =
     \<lparr>base_key = bk, upper_path = upper, work_path = work, merged_path = Some merged,
      quota_bytes = qb, quota_mode = mode, fork_created_at = rfc3339_now E, labels = []\<rparr>"

definition fork_base :: "env \<Rightarrow> string \<Rightarrow> string \<Rightarrow> pathbuf \<Rightarrow> u64 option \<Rightarrow> unit cmd" where
  "fork_base E bk fk root qb =
     bindE (registry_open E root) (\<lambda>_.
     bindE (map_err (\<lambda>e. if not_found e then BaseNotFound bk else e) (get_base E root bk)) (\<lambda>base.
     bindE (attempt (get_fork E root fk)) (\<lambda>r.
     bindE (of_result (fork_absent fk r)) (\<lambda>_.
     let upper = upper_of root fk; work = work_of root fk; merged = merged_of root fk in
     bindE (create_dir_all E upper) (\<lambda>_.
     bindE (create_dir_all E work) (\<lambda>_.
     bindE (create_dir_all E merged) (\<lambda>_.
     bindE (of_result (overlay_data base upper work)) (\<lambda>data.
     bindE (sys_mount E (MountFailed fk) (overlay_mount merged data)) (\<lambda>_.
     bindE (fork_quota_mode E root fk upper qb) (\<lambda>mode.
     insert_fork E root fk (new_fork_entry E bk upper work merged qb mode)))))))))))"

section \<open>Frames\<close>

lemma keeps_assign_quota:
  "(\<And>w x. P (w\<lparr>xattrs := x\<rparr>) = P w) \<Longrightarrow> keeps P (assign_project_quota E u pid qb)"
  using assign_project_quota_state by (fastforce simp: keeps_def)

lemma keeps_xattr_blind:
  "(\<And>w x. P (w\<lparr>xattrs := x\<rparr>) = P w) \<Longrightarrow> keeps P (fork_quota_mode E root fk u q)"
  unfolding fork_quota_mode_def by (intro keeps_intros keeps_assign_quota)

lemma overlay_data_Inr: "overlay_data b u wk = Inr s \<Longrightarrow>
   s = ''lowerdir='' @ str_join '':'' (lower_path b # cache_lower_paths b)
         @ '',upperdir='' @ u @ '',workdir='' @ wk"
  by (simp add: overlay_data_def Let_def split: if_splits)

lemma keeps_inv_fork:
  assumes "flush_ok E root" and "seg_ok fk"
  shows "keeps (reg_inv E root) (fork_base E bk fk root qb)"
proof -
  have dirs: "keeps (reg_inv E root) (create_dir_all E p)"
    if "p \<in> {upper_of root fk, work_of root fk, merged_of root fk}" for p
    using that assms(2) by (intro keeps_inv_fork_path [of fk]) auto
  have ins: "keeps (reg_inv E root) (insert_fork E root fk e)" if "entry_ok root fk e" for e
    unfolding insert_fork_def
    using assms that by (intro keeps_inv_lock) (auto intro: doc_ok_insert_fork)
  have quota: "keeps (reg_inv E root) (fork_quota_mode E root fk u q)" for u q
    by (rule keeps_xattr_blind) (simp add: reg_inv_def doc_at_blind)
  show ?thesis
    unfolding fork_base_def Let_def
    by (intro keeps_intros dirs ins quota) (auto simp: entry_ok_def new_fork_entry_def)
qed

text \<open>What a run that gets as far as the mount has seen.\<close>

lemma fork_absent_known:
  assumes "doc_at E root w = Some d" and "get_fork E root k w = (r, w')" and "fork_absent k r = Inr ()"
  shows "fork_of d k = None"
proof (cases r)
  case (Inl e)
  with assms(3) have "not_found e" by (auto simp: fork_absent_def split: if_splits)
  with assms(1,2) Inl show ?thesis by (blast intro: get_fork_absent)
next
  case (Inr e)
  with assms(3) show ?thesis by (simp add: fork_absent_def)
qed

lemma fork_dir_step:
  assumes "seg_ok k" and "create_dir_all E p w = (Inr (), w')"
    and "p \<in> {upper_of root k, work_of root k, merged_of root k}"
  shows "doc_at E root w' = doc_at E root w \<and> mtab w' = mtab w"
  using keepsD [OF keeps_doc_fork_path(1) [OF assms(1), of p root "\<lambda>x. x = doc_at E root w"] assms(2)]
    keepsD [OF keeps_mtab(2) [of "\<lambda>m. m = mtab w"] assms(2)] assms(3) by auto

text \<open>Everything before the entry is inserted, and the entry.\<close>

definition fork_prepare :: "env \<Rightarrow> string \<Rightarrow> string \<Rightarrow> pathbuf \<Rightarrow> u64 option \<Rightarrow> fork_entry cmd" where
  "fork_prepare E bk fk root qb =
     bindE (registry_open E root) (\<lambda>_.
     bindE (map_err (\<lambda>e. if not_found e then BaseNotFound bk else e) (get_base E root bk)) (\<lambda>base.
     bindE (attempt (get_fork E root fk)) (\<lambda>r.
     bindE (of_result (fork_absent fk r)) (\<lambda>_.
     bindE (create_dir_all E (upper_of root fk)) (\<lambda>_.
     bindE (create_dir_all E (work_of root fk)) (\<lambda>_.
     bindE (create_dir_all E (merged_of root fk)) (\<lambda>_.
     bindE (of_result (overlay_data base (upper_of root fk) (work_of root fk))) (\<lambda>data.
     bindE (sys_mount E (MountFailed fk) (overlay_mount (merged_of root fk) data)) (\<lambda>_.
     bindE (fork_quota_mode E root fk (upper_of root fk) qb) (\<lambda>mode.
     ret (new_fork_entry E bk (upper_of root fk) (work_of root fk) (merged_of root fk) qb mode)))))))))))"

lemma fork_base_split:
  "fork_base E bk fk root qb = bindE (fork_prepare E bk fk root qb) (insert_fork E root fk)"
  by (simp add: fork_base_def fork_prepare_def Let_def bindE_assoc bindE_ret)

lemma fork_prepare_Inr:
  assumes run: "fork_prepare E bk fk root qb w = (Inr e, w')" and doc: "doc_at E root w = Some d"
    and k: "seg_ok fk" and kernel: "kernel_ok E"
  shows "\<exists>b mode data. base_of d bk = Some b \<and> fork_of d fk = None \<and>
     overlay_data b (upper_of root fk) (work_of root fk) = Inr data \<and>
     mtab w' = mtab w @ [overlay_mount (merged_of root fk) data] \<and> doc_at E root w' = Some d \<and>
     e = new_fork_entry E bk (upper_of root fk) (work_of root fk) (merged_of root fk) qb mode \<and>
     (qb = None \<longrightarrow> mode = Soft)"
proof -
  let ?dir = "create_dir_all E"
  from run obtain w1 b w2 r w3 w4 w5 w6 data w7 mode
    where 1: "registry_open E root w = (Inr (), w1)" and 2: "get_base E root bk w1 = (Inr b, w2)"
      and 3: "get_fork E root fk w2 = (r, w3)" "fork_absent fk r = Inr ()"
      and 4: "?dir (upper_of root fk) w3 = (Inr (), w4)"
      and 5: "?dir (work_of root fk) w4 = (Inr (), w5)"
      and 6: "?dir (merged_of root fk) w5 = (Inr (), w6)"
      and 7: "overlay_data b (upper_of root fk) (work_of root fk) = Inr data"
      and 8: "sys_mount E (MountFailed fk) (overlay_mount (merged_of root fk) data) w6 = (Inr (), w7)"
      and 9: "fork_quota_mode E root fk (upper_of root fk) qb w7 = (Inr mode, w')"
      and e: "e = new_fork_entry E bk (upper_of root fk) (work_of root fk) (merged_of root fk) qb mode"
    by (auto simp: fork_prepare_def runs)
  have d1: "doc_at E root w1 = Some d"
    using keepsD [OF keeps_doc_open [of "\<lambda>x. x = Some d"] 1] doc by simp
  have w2: "w2 = w1" and b: "base_of d bk = Some b" using get_base_known [OF d1 2] by auto
  have w3: "w3 = w2" using keepsD [OF keeps_get(1) [of "\<lambda>x. x = w2"] 3(1)] by simp
  have f: "fork_of d fk = None" using fork_absent_known [OF _ 3] d1 w2 by simp
  note dirs = fork_dir_step [OF k 4, of root] fork_dir_step [OF k 5, of root] fork_dir_step [OF k 6, of root]
  have d6: "doc_at E root w6 = Some d" and m: "mtab w6 = mtab w"
    using dirs d1 w2 w3 keepsD [OF keeps_mtab(1) [of "\<lambda>m. m = mtab w"] 1] by simp_all
  have w7: "w7 = w6\<lparr>mtab := mtab w6 @ [overlay_mount (merged_of root fk) data]\<rparr>"
    using kernel 8 by (rule sys_mount_Inr)
  have q: "mtab w' = mtab w7 \<and> doc_at E root w' = doc_at E root w7"
    using keepsD [OF keeps_xattr_blind [of "\<lambda>v. mtab v = mtab w7 \<and> doc_at E root v = doc_at E root w7"] 9]
    by (simp add: doc_at_blind)
  have "qb = None \<longrightarrow> mode = Soft" using 9 by (auto simp: fork_quota_mode_def runs)
  with b f 7 w7 m q d6 e show ?thesis by (auto simp: doc_at_blind)
qed

lemma insert_fork_mtab: "insert_fork E root k e w = (r, w') \<Longrightarrow> mtab w' = mtab w"
  using keepsD [OF keeps_mtab_ops(1) [of "\<lambda>m. m = mtab w"]] by blast

lemma fork_base_Inr:
  assumes run: "fork_base E bk fk root qb w = (Inr u, w')" and doc: "doc_at E root w = Some d"
    and k: "seg_ok fk" and flush: "flush_ok E root" and kernel: "kernel_ok E"
  shows "\<exists>b mode data. base_of d bk = Some b \<and> fork_of d fk = None \<and>
     overlay_data b (upper_of root fk) (work_of root fk) = Inr data \<and>
     mtab w' = mtab w @ [overlay_mount (merged_of root fk) data] \<and>
     (qb = None \<longrightarrow> mode = Soft) \<and>
     doc_at E root w' = Some (doc_insert_fork fk
       (new_fork_entry E bk (upper_of root fk) (work_of root fk) (merged_of root fk) qb mode) d)"
proof -
  from run obtain e w1 where 1: "fork_prepare E bk fk root qb w = (Inr e, w1)" and 2: "insert_fork E root fk e w1 = (Inr u, w')"
    by (auto simp: fork_base_split bindE_Inr)
  from fork_prepare_Inr [OF 1 doc k kernel] insert_fork_Inr [OF flush _ 2] insert_fork_mtab [OF 2]
  show ?thesis by fastforce
qed

lemma errs_keep_fork:
  assumes "seg_ok fk"
  shows "errs_keep (\<lambda>w. Q (doc_at E root w)) (fork_base E bk fk root qb)"
proof -
  have dirs: "keeps (\<lambda>w. Q (doc_at E root w)) (create_dir_all E p)"
    if "p \<in> {upper_of root fk, work_of root fk, merged_of root fk}" for p
    using that assms by (intro keeps_doc_fork_path [of fk]) auto
  have quota: "keeps (\<lambda>w. Q (doc_at E root w)) (fork_quota_mode E root fk u q)" for u q
    by (rule keeps_xattr_blind) (simp add: doc_at_blind)
  have mnt: "keeps (\<lambda>w. Q (doc_at E root w)) (sys_mount E err m)" for err m
    by (intro keeps_mtab_blind doc_mtab_blind)
  show ?thesis
    unfolding fork_base_def Let_def insert_fork_def
    by (intro errs_keep_bindE errs_keep_lock keeps_intros dirs quota mnt) auto
qed

text \<open>What a failing fork leaves in the mount table: nothing, or its own overlay.\<close>

lemma fork_mounts:
  assumes run: "fork_base E bk fk root qb w = (r, w')" and kernel: "kernel_ok E"
  shows "mtab w' = mtab w \<or> (\<exists>data. mtab w' = mtab w @ [overlay_mount (merged_of root fk) data])"
proof -
  define Q where "Q n = (n = mtab w \<or> (\<exists>data. n = mtab w @ [overlay_mount (merged_of root fk) data]))" for n
  have mnt: "ends_in (\<lambda>v. mtab v = mtab w)
      (sys_mount E (MountFailed fk) (overlay_mount (merged_of root fk) data)) (\<lambda>v. Q (mtab v))" for data
    unfolding ends_in_def
  proof (intro allI impI)
    fix v r v'
    assume "sys_mount E (MountFailed fk) (overlay_mount (merged_of root fk) data) v = (r, v')"
      and "mtab v = mtab w"
    then show "Q (mtab v')"
      using sys_mount_Inr [OF kernel, of _ _ v _ v'] sys_mount_Inl [of E _ _ v _ v']
      by (cases r) (fastforce simp: Q_def)+
  qed
  have quota: "keeps (\<lambda>v. Q (mtab v)) (fork_quota_mode E root fk u q)" for u q
    by (rule keeps_xattr_blind) simp
  have ends: "ends_in (\<lambda>v. mtab v = mtab w) (fork_base E bk fk root qb) (\<lambda>v. Q (mtab v))"
    unfolding fork_base_def Let_def
    by (intro ends_in_step [OF mnt] ends_in_before keeps_intros quota) (auto simp: Q_def)
  show ?thesis using ends_inD [OF ends run] by (simp add: Q_def)
qed

section \<open>Properties\<close>

text \<open>C7: A fork that succeeds had its base and no fork of that key in the registry; it mounted one
  overlay, over the base's lower directory and then its cache layers, on the fork's merged
  directory, and the registry is the old one with the new entry, whose paths are the fork's own
  and whose quota mode is soft unless a quota was asked for.\<close>

theorem fork_base_success:
  assumes "fork_base E bk fk root qb w = (Inr u, w')" and "doc_at E root w = Some d"
    and "seg_ok fk" and "flush_ok E root" and "kernel_ok E"
  shows "\<exists>b mode data. base_of d bk = Some b \<and> fork_of d fk = None \<and>
     data = ''lowerdir='' @ str_join '':'' (lower_path b # cache_lower_paths b)
              @ '',upperdir='' @ upper_of root fk @ '',workdir='' @ work_of root fk \<and>
     mtab w' = mtab w @ [overlay_mount (merged_of root fk) data] \<and>
     (qb = None \<longrightarrow> mode = Soft) \<and>
     doc_at E root w' = Some (doc_insert_fork fk
       (new_fork_entry E bk (upper_of root fk) (work_of root fk) (merged_of root fk) qb mode) d)"
proof -
  from fork_base_Inr [OF assms] obtain b mode data where 1: "base_of d bk = Some b" "fork_of d fk = None"
    and 2: "overlay_data b (upper_of root fk) (work_of root fk) = Inr data"
    and 3: "mtab w' = mtab w @ [overlay_mount (merged_of root fk) data]" "qb = None \<longrightarrow> mode = Soft"
      "doc_at E root w' = Some (doc_insert_fork fk
       (new_fork_entry E bk (upper_of root fk) (work_of root fk) (merged_of root fk) qb mode) d)"
    by blast
  show ?thesis using 1 overlay_data_Inr [OF 2] 3 by blast
qed

theorem fork_base_success_witness:
  "\<exists>mode. doc_at quiet_env ''/d'' (snd (fork_base quiet_env ''b'' ''f'' ''/d'' None (sample_world [])))
     = Some (doc_insert_fork ''f'' (new_fork_entry quiet_env ''b'' (upper_of ''/d'' ''f'')
         (work_of ''/d'' ''f'') (merged_of ''/d'' ''f'') None mode) (sample_doc []))"
proof -
  have run: "fork_base quiet_env ''b'' ''f'' ''/d'' None (sample_world []) = (Inr (), snd (fork_base quiet_env ''b'' ''f'' ''/d'' None (sample_world [])))"
    by (rule succeeds) code_simp
  have "seg_ok ''f''" by code_simp
  from fork_base_success [OF run doc_at_sample this flush_ok_quiet quiet_env_kernel_ok] run show ?thesis by auto
qed

text \<open>C38: A fork that fails, at whatever step, leaves the registry document as it was. What it can
  leave behind is its own overlay mount: nothing unmounts it when the quota or the registry step
  after it fails.\<close>

theorem fork_base_failure:
  assumes "fork_base E bk fk root qb w = (Inl e, w')" and "seg_ok fk" and "kernel_ok E"
  shows "doc_at E root w' = doc_at E root w \<and>
    (mtab w' = mtab w \<or> (\<exists>data. mtab w' = mtab w @ [overlay_mount (merged_of root fk) data]))"
  using errs_keepD [OF errs_keep_fork [OF assms(2), of "\<lambda>x. x = doc_at E root w"] assms(1)]
    fork_mounts [OF assms(1,3)] by simp

text \<open>The witness is the leak: the lock of the registry is not to be had, and the overlay stays.\<close>

theorem fork_base_failure_witness:
  "let w' = snd (fork_base locked_env ''b'' ''f'' ''/d'' None (sample_world []))
   in doc_at locked_env ''/d'' w' = Some (sample_doc []) \<and>
      map mnt_target (mtab w') = [''/d/forks/f/merged'']"
proof -
  have run: "fork_base locked_env ''b'' ''f'' ''/d'' None (sample_world []) = (Inl (projl (fst (fork_base locked_env ''b'' ''f'' ''/d'' None (sample_world [])))), snd (fork_base locked_env ''b'' ''f'' ''/d'' None (sample_world [])))"
    by (rule fails) code_simp
  have ok: "seg_ok ''f''" by code_simp
  have "map mnt_target (mtab (snd (fork_base locked_env ''b'' ''f'' ''/d'' None (sample_world []))))
      = [''/d/forks/f/merged'']" by code_simp
  with fork_base_failure [OF run ok kernel_ok_locked] run show ?thesis
    by (simp add: doc_at_sample Let_def)
qed

text \<open>A fork of an unknown base, or of a key already taken, is refused with the error that says
  so, before anything is made or mounted.\<close>

theorem fork_base_refused:
  assumes "doc_at E root w = Some d" and "is_dir root w" and "\<And>p. fault E OpenRead p w = None"
    and "base_of d bk = None \<or> fork_of d fk \<noteq> None"
  shows "fork_base E bk fk root qb w =
     (Inl (if base_of d bk = None then BaseNotFound bk else ForkExists fk), w)"
proof -
  have "registry_open E root w = (Inr (), w)"
    using assms(2) by (simp add: registry_open_def create_dir_all_def)
  moreover have "read_doc E root w = (Inr d, w)" using assms(1,3) by (rule read_doc_ok)
  ultimately show ?thesis
    using assms(4)
    by (auto simp: fork_base_def get_base_def get_fork_def base_of_def fork_of_def fork_absent_def
        not_found_def bindE_def map_err_def attempt_def of_result_def throw_def ret_def split: option.splits)
qed

theorem fork_base_refused_witness:
  "fork_base quiet_env ''b'' ''f'' ''/d'' None (sample_world [''f'']) = (Inl (ForkExists ''f''), sample_world [''f''])"
  using fork_base_refused [OF doc_at_sample, of "[''f'']" quiet_env "''b''" "''f''"]
  by (simp add: base_of_def fork_of_def sample_doc_def is_dir_def sample_world_def dir_world_def
      metadata_not_symlink)

end
