(* ===== verification/Harness.thy ===== *)
theory Harness
  imports HostEbpf Fork
begin

text \<open>
  The helpers of the privileged test harness (src/privileged_harness.rs): its gates, mounting and
  unmounting an overlay, finding Firecracker, and loading the smallest BPF program. The environment
  variables, the text of /proc/filesystems and the answer of \<open>which\<close> are parameters.
\<close>

definition privileged_gate_open :: "string option \<Rightarrow> bool" where
  "privileged_gate_open v = (case v of None \<Rightarrow> False | Some s \<Rightarrow> s \<noteq> [])"

text \<open>\<open>None\<close>: the file cannot be read.\<close>

definition kernel_has_overlay :: "string option \<Rightarrow> bool" where
  "kernel_has_overlay text =
     (case text of None \<Rightarrow> False | Some s \<Rightarrow> list_ex (contains_str ''overlay'') (lines s))"

definition harness_mount :: "env \<Rightarrow> pathbuf \<Rightarrow> pathbuf \<Rightarrow> pathbuf \<Rightarrow> pathbuf \<Rightarrow> unit cmd" where
  "harness_mount E lower upper work merged =
     bindE (create_dir_all E upper) (\<lambda>_.
     bindE (create_dir_all E work) (\<lambda>_.
     bindE (create_dir_all E merged) (\<lambda>_.
     let data = ''lowerdir='' @ lower @ '',upperdir='' @ upper @ '',workdir='' @ work in
     if CHR 0x00 \<in> set merged then throw (Bail ''merged path has null byte'')
     else if CHR 0x00 \<in> set data then throw (Bail ''mount data has null byte'')
     else sys_mount E (\<lambda>n. Bail ''overlay mount(2) failed'') (overlay_mount merged data))))"

definition harness_umount :: "env \<Rightarrow> pathbuf \<Rightarrow> unit cmd" where
  "harness_umount E merged =
     (if CHR 0x00 \<in> set merged then throw (Bail ''merged path has null byte'')
      else sys_umount E (\<lambda>n. Bail ''umount2(MNT_DETACH) failed'') merged)"

text \<open>\<open>out\<close>: the standard output of \<open>which firecracker\<close> when it ran and succeeded.\<close>

definition locate_firecracker :: "string option \<Rightarrow> string option \<Rightarrow> pathbuf option cmd" where
  "locate_firecracker bin out =
     bindE (case bin of None \<Rightarrow> ret False | Some p \<Rightarrow> asks (path_exists p)) (\<lambda>x.
     ret (if x then bin
          else case out of None \<Rightarrow> None | Some s \<Rightarrow> let t = trim s in if t \<noteq> [] then Some t else None))"

definition kvm_available :: "world \<Rightarrow> bool" where
  "kvm_available = path_exists ''/dev/kvm''"

abbreviation (input) BPF_PROG_TYPE_SOCKET_FILTER :: u32 where "BPF_PROG_TYPE_SOCKET_FILTER \<equiv> 1"

text \<open>\<open>R0 = 0; exit\<close>\<close>

definition minimal_insns :: "u8 list" where
  "minimal_insns = [0xb7, 0, 0, 0, 0, 0, 0, 0] @ [0x95, 0, 0, 0, 0, 0, 0, 0]"

definition minimal_attr :: prog_load_attr where
  "minimal_attr = \<lparr>attr_prog_type = BPF_PROG_TYPE_SOCKET_FILTER, attr_insn_cnt = of_nat (length minimal_insns div 8),
     attr_insns = minimal_insns, attr_license = map char_byte ''GPL'' @ [0], attr_log_level = 1,
     attr_prog_name = replicate 16 0\<rparr>"

definition load_minimal_bpf_prog :: "kern \<Rightarrow> nat cmd" where
  "load_minimal_bpf_prog K = sys_bpf_load K minimal_attr"

text \<open>The minimal request is the one the host loader makes of the same bytes, under an empty name.\<close>

lemma minimal_is_loader_request:
  "minimal_attr = load_attr BPF_PROG_TYPE_SOCKET_FILTER minimal_insns ''GPL'' []"
  by code_simp

text \<open>Unmounting undoes mounting, whatever was mounted before.\<close>

lemma harness_mount_roundtrip:
  assumes mount: "harness_mount E lower upper work merged w = (Inr u, w1)"
    and umount: "harness_umount E merged w2 = (Inr v, w3)" and mid: "mtab w2 = mtab w1" and kernel: "kernel_ok E"
  shows "mtab w3 = mtab w"
proof -
  from mount obtain wa wb wc data where 1: "create_dir_all E upper w = (Inr (), wa)"
    and 2: "create_dir_all E work wa = (Inr (), wb)" and 3: "create_dir_all E merged wb = (Inr (), wc)"
    and 4: "sys_mount E (\<lambda>n. Bail ''overlay mount(2) failed'') (overlay_mount merged data) wc = (Inr u, w1)"
    by (auto simp: harness_mount_def Let_def runs split: if_splits)
  note dir = keepsD [OF keeps_mtab(2) [of "\<lambda>m. m = mtab w"]]
  have "mtab wc = mtab w" using dir [OF 1] dir [OF 2] dir [OF 3] by simp
  then have "mtab w1 = mtab w @ [overlay_mount merged data]" using sys_mount_Inr [OF kernel 4] by simp
  moreover have "mtab w3 = drop_last_mount merged (mtab w2)"
    using umount sys_umount_Inr [OF kernel] by (fastforce simp: harness_umount_def runs split: if_splits)
  ultimately show ?thesis
    using mid drop_last_mount_snoc [of "overlay_mount merged data" "mtab w"] by (simp add: overlay_mount_def)
qed

end
