(* ===== verification/Discard.thy ===== *)
theory Discard
  imports Fork
begin

text \<open>
  \<open>fastenv discard\<close> (src/discard.rs): unmount, remove the directories the entry names, and take
  the entry out of the registry.
\<close>

section \<open>The pipeline\<close>

definition umount_if_mounted :: "env \<Rightarrow> string \<Rightarrow> pathbuf option \<Rightarrow> unit cmd" where
  "umount_if_mounted E k mp =
     (case mp of
        None \<Rightarrow> ret ()
      | Some m \<Rightarrow> bindE (is_mounted E m) (\<lambda>b. whenE b (sys_umount E (UmountFailed k) m)))"

definition remove_tree_if_present :: "env \<Rightarrow> pathbuf \<Rightarrow> unit cmd" where
  "remove_tree_if_present E p =
     bindE (asks (path_exists p)) (\<lambda>x. whenE x (remove_dir_all E p))"

definition try_remove_dir :: "env \<Rightarrow> pathbuf \<Rightarrow> unit cmd" where
  "try_remove_dir E p =
     bindE (asks (path_exists p)) (\<lambda>x.
     whenE x (bindE (attempt (remove_dir E p)) (\<lambda>r :: error + unit. ret ())))"

definition discard_entry :: "env \<Rightarrow> string \<Rightarrow> pathbuf \<Rightarrow> fork_entry \<Rightarrow> unit cmd" where
  "discard_entry E k root e =
     bindE (umount_if_mounted E k (merged_path e)) (\<lambda>_.
     bindE (remove_tree_if_present E (upper_path e)) (\<lambda>_.
     bindE (remove_tree_if_present E (work_path e)) (\<lambda>_.
     bindE (case merged_path e of None \<Rightarrow> ret () | Some m \<Rightarrow> try_remove_dir E m) (\<lambda>_.
     bindE (try_remove_dir E (fork_dir root k)) (\<lambda>_.
     remove_fork E root k)))))"

definition lookup_fork :: "env \<Rightarrow> string \<Rightarrow> pathbuf \<Rightarrow> fork_entry cmd" where
  "lookup_fork E k root =
     bindE (registry_open E root) (\<lambda>_.
     map_err (\<lambda>e. if not_found e then ForkNotFound k else e) (get_fork E root k))"

definition discard_fork :: "env \<Rightarrow> string \<Rightarrow> pathbuf \<Rightarrow> unit cmd" where
  "discard_fork E k root = bindE (lookup_fork E k root) (\<lambda>e. discard_entry E k root e)"

section \<open>Frames\<close>

lemma keeps_lookup_fork [keeps_intros]:
  "keeps P (registry_open E root) \<Longrightarrow> keeps P (lookup_fork E k root)"
  unfolding lookup_fork_def by (intro keeps_intros)

lemma lookup_fork_known:
  assumes "doc_at E root w = Some d" and "lookup_fork E k root w = (Inr e, w')"
  shows "fork_of d k = Some e \<and> doc_at E root w' = Some d \<and> mtab w' = mtab w"
proof -
  from assms(2) obtain w1 where 1: "registry_open E root w = (Inr (), w1)"
    and 2: "get_fork E root k w1 = (Inr e, w')"
    by (auto simp: lookup_fork_def runs)
  have d1: "doc_at E root w1 = Some d"
    using keepsD [OF keeps_doc_open [of "\<lambda>x. x = Some d"] 1] assms(1) by simp
  have "mtab w1 = mtab w" using keepsD [OF keeps_mtab(1) [of "\<lambda>m. m = mtab w"] 1] by simp
  with get_fork_known [OF d1 2] d1 show ?thesis by simp
qed

lemma lookup_fork_missing:
  assumes "doc_at E root w = Some d" and "is_dir root w" and "\<And>p. fault E OpenRead p w = None"
    and "fork_of d k = None"
  shows "lookup_fork E k root w = (Inl (ForkNotFound k), w)"
proof -
  have "registry_open E root w = (Inr (), w)"
    using assms(2) by (simp add: registry_open_def create_dir_all_def)
  moreover have "read_doc E root w = (Inr d, w)" using assms(1,3) by (rule read_doc_ok)
  ultimately show ?thesis
    using assms(4)
    by (auto simp: lookup_fork_def get_fork_def fork_of_def not_found_def bindE_def map_err_def throw_def)
qed

lemma keeps_try_remove [keeps_intros]: "keeps P (remove_dir E p) \<Longrightarrow> keeps P (try_remove_dir E p)"
  unfolding try_remove_dir_def by (intro keeps_intros)

lemma keeps_remove_tree [keeps_intros]:
  "keeps P (remove_dir_all E p) \<Longrightarrow> keeps P (remove_tree_if_present E p)"
  unfolding remove_tree_if_present_def by (intro keeps_intros)

lemma keeps_umount_if [keeps_intros]:
  "(\<And>m. keeps P (sys_umount E (UmountFailed k) m)) \<Longrightarrow> keeps P (umount_if_mounted E k mp)"
  unfolding umount_if_mounted_def by (intro keeps_intros)

text \<open>Everything before the registry step touches the entry's own paths only.\<close>

lemma keeps_discard_entry:
  assumes e: "entry_ok root k e"
    and um: "\<And>err m. keeps P (sys_umount E err m)"
    and dirs: "\<And>p. p \<in> {fork_dir root k, upper_of root k, work_of root k, merged_of root k} \<Longrightarrow>
       keeps P (remove_dir_all E p) \<and> keeps P (remove_dir E p)"
    and reg: "keeps P (remove_fork E root k)"
  shows "keeps P (discard_entry E k root e)"
  unfolding discard_entry_def
  by (intro keeps_intros um reg) (use e dirs in \<open>auto simp: entry_ok_def\<close>)

lemma errs_keep_discard_entry:
  assumes k: "seg_ok k" and e: "entry_ok root k e"
  shows "errs_keep (\<lambda>w. Q (doc_at E root w)) (discard_entry E k root e)"
proof -
  have dirs: "keeps (\<lambda>w. Q (doc_at E root w)) (remove_dir_all E p)"
    "keeps (\<lambda>w. Q (doc_at E root w)) (remove_dir E p)"
    if "p \<in> {fork_dir root k, upper_of root k, work_of root k, merged_of root k}" for p
    using keeps_doc_fork_path [OF k that] by auto
  have um: "keeps (\<lambda>w. Q (doc_at E root w)) (sys_umount E err m)" for err m
    by (intro keeps_mtab_blind doc_mtab_blind)
  show ?thesis
    unfolding discard_entry_def remove_fork_def
    by (intro errs_keep_bindE errs_keep_lock keeps_intros um) (use e dirs in \<open>auto simp: entry_ok_def\<close>)
qed

lemma keeps_inv_discard:
  assumes flush: "flush_ok E root"
  shows "keeps (reg_inv E root) (discard_fork E k root)"
  unfolding discard_fork_def
proof (rule keeps_bindE_result)
  show "keeps (reg_inv E root) (lookup_fork E k root)" by (intro keeps_intros)
  fix s e s'
  assume run: "lookup_fork E k root s = (Inr e, s')" and "reg_inv E root s"
  then obtain d where d: "doc_at E root s = Some d" "doc_ok root d" by (blast elim: reg_invE)
  with run have ok: "seg_ok k" "entry_ok root k e" by (auto dest: lookup_fork_known doc_ok_fork)
  have "keeps (reg_inv E root) (remove_fork E root k)"
    unfolding remove_fork_def using flush by (intro keeps_inv_lock) (auto intro: doc_ok_remove_fork)
  then show "keeps (reg_inv E root) (discard_entry E k root e)"
    by (intro keeps_discard_entry ok keeps_intros) (auto intro: keeps_inv_fork_path ok)
qed

section \<open>Success\<close>

lemma umount_if_mounted_Inr:
  assumes "kernel_ok E" and "umount_if_mounted E k mp w = (Inr u, w')"
  shows "w' = (case mp of None \<Rightarrow> w | Some m \<Rightarrow>
     if mounts_has (mounts_text E (mtab w)) m then w\<lparr>mtab := drop_last_mount m (mtab w)\<rparr> else w)"
  using assms(2)
  by (auto simp: umount_if_mounted_def runs split: option.splits if_splits dest: sys_umount_Inr [OF assms(1)])

lemma tdel_None: "tlookup t q = None \<Longrightarrow> tlookup (tdel p t) q = None"
proof (induction p t arbitrary: q rule: tdel.induct)
  case (1 x es)
  then show ?case by (cases q) (auto split: option.splits)
next
  case (2 x y ys es)
  then show ?case by (cases q) (auto split: option.splits)
qed auto

lemma keeps_absent_remove_dir: "keeps (\<lambda>w. tlookup (fs w) q = None) (remove_dir E p)"
  by (auto simp: keeps_def remove_dir_def Let_def tdel_None split: option.splits node.splits if_splits)

definition gone :: "world \<Rightarrow> pathbuf \<Rightarrow> node \<Rightarrow> bool" where
  "gone w p t \<longleftrightarrow> tlookup t (resolve p) = None \<or> (\<exists>tgt. tlookup (fs w) (resolve p) = Some (Symlink tgt))"

lemma remove_tree_run:
  "remove_tree_if_present E p w = (if path_exists p w then remove_dir_all E p w else (Inr (), w))"
  by (simp add: remove_tree_if_present_def bindE_def asks_def whenE_def ret_def)

lemma remove_tree_gone:
  assumes "remove_tree_if_present E p w = (Inr u, w')"
  shows "gone w p (fs w')"
proof (cases "path_exists p w")
  case True
  then have "remove_dir_all E p w = (Inr (), w')"
    using assms by (simp add: remove_tree_run)
  then show ?thesis by (simp add: gone_def remove_dir_all_Inr(3))
next
  case False
  then have "w' = w" using assms by (simp add: remove_tree_run)
  with False show ?thesis
    using metadata_not_symlink [of "fs w" p]
    by (cases "tlookup (fs w) (resolve p)") (auto simp: gone_def path_exists_def)
qed

text \<open>What follows the removal of the upper and work directories.\<close>

abbreviation discard_tail :: "env \<Rightarrow> string \<Rightarrow> pathbuf \<Rightarrow> fork_entry \<Rightarrow> unit cmd" where
  "discard_tail E k root e \<equiv>
     bindE (case merged_path e of None \<Rightarrow> ret () | Some m \<Rightarrow> try_remove_dir E m) (\<lambda>_.
     bindE (try_remove_dir E (fork_dir root k)) (\<lambda>_. remove_fork E root k))"

lemma keeps_merged_dir:
  "entry_ok root k e \<Longrightarrow> keeps P (remove_dir E (merged_of root k)) \<Longrightarrow>
   keeps P (case merged_path e of None \<Rightarrow> ret () | Some m \<Rightarrow> try_remove_dir E m)"
  by (auto simp: entry_ok_def intro!: keeps_intros)

lemma keeps_discard_tail:
  assumes "entry_ok root k e" and "\<And>p. keeps P (remove_dir E p)" and "keeps P (remove_fork E root k)"
  shows "keeps P (discard_tail E k root e)"
  by (intro keeps_bindE keeps_merged_dir [OF assms(1)] keeps_try_remove assms)

lemma discard_tail_Inr:
  assumes run: "discard_tail E k root e w = (Inr u, w')" and doc: "doc_at E root w = Some d"
    and k: "seg_ok k" and e: "entry_ok root k e" and flush: "flush_ok E root"
  shows "(\<exists>d'. doc_remove_fork k d = Inr d' \<and> doc_at E root w' = Some d') \<and> mtab w' = mtab w \<and>
    (\<forall>q. tlookup (fs w) (resolve root @ ''forks'' # k # q) = None \<longrightarrow> tlookup (fs w') (resolve root @ ''forks'' # k # q) = None)"
proof (intro conjI allI impI)
  from run obtain w4 w5
    where 4: "(case merged_path e of None \<Rightarrow> ret () | Some m \<Rightarrow> try_remove_dir E m) w = (Inr (), w4)"
      and 5: "try_remove_dir E (fork_dir root k) w4 = (Inr (), w5)" and 6: "remove_fork E root k w5 = (Inr u, w')"
    by (auto simp: bindE_Inr)
  note d = keeps_doc_fork_path(3) [OF k, of _ root "\<lambda>x. x = Some d"]
  have "doc_at E root w4 = Some d" using keepsD [OF keeps_merged_dir [OF e d] 4] doc by simp
  then have "doc_at E root w5 = Some d" using keepsD [OF keeps_try_remove [OF d] 5] by simp
  with flush show "\<exists>d'. doc_remove_fork k d = Inr d' \<and> doc_at E root w' = Some d'"
    using 6 by (blast dest: remove_fork_Inr)
  show "mtab w' = mtab w"
    using keepsD [OF keeps_discard_tail [OF e keeps_mtab(4) keeps_mtab_ops(2)] run, of "\<lambda>x. x = mtab w"] by simp
  fix q
  assume "tlookup (fs w) (resolve root @ ''forks'' # k # q) = None"
  with keepsD [OF keeps_discard_tail [OF e keeps_absent_remove_dir] run, of "resolve root @ ''forks'' # k # q"]
  show "tlookup (fs w') (resolve root @ ''forks'' # k # q) = None"
    by (simp add: remove_fork_def keeps_registry_beside [OF beside_fork])
qed

lemma discard_entry_Inr:
  assumes run: "discard_entry E k root e w = (Inr u, w')" and doc: "doc_at E root w = Some d"
    and k: "seg_ok k" and e: "entry_ok root k e" and flush: "flush_ok E root" and kernel: "kernel_ok E"
  shows "(\<exists>d'. doc_remove_fork k d = Inr d' \<and> doc_at E root w' = Some d') \<and>
    gone w (upper_of root k) (fs w') \<and> gone w (work_of root k) (fs w') \<and>
    mtab w' = (case merged_path e of None \<Rightarrow> mtab w | Some m \<Rightarrow>
      if mounts_has (mounts_text E (mtab w)) m then drop_last_mount m (mtab w) else mtab w)"
proof -
  from run e obtain w1 w2 w3
    where 1: "umount_if_mounted E k (merged_path e) w = (Inr (), w1)"
      and 2: "remove_tree_if_present E (upper_of root k) w1 = (Inr (), w2)"
      and 3: "remove_tree_if_present E (work_of root k) w2 = (Inr (), w3)"
      and 4: "discard_tail E k root e w3 = (Inr u, w')"
    by (auto simp: discard_entry_def entry_ok_def bindE_Inr)
  have fs1: "fs w1 = fs w" and doc1: "doc_at E root w1 = doc_at E root w"
    using umount_if_mounted_Inr [OF kernel 1] by (auto simp: doc_at_blind split: option.splits if_splits)
  note d = keeps_remove_tree [OF keeps_doc_fork_path(2) [OF k, of _ root "\<lambda>x. x = Some d"]]
  have "doc_at E root w3 = Some d" using keepsD [OF d 2] keepsD [OF d 3] doc doc1 by simp
  note tail = discard_tail_Inr [OF 4 this k e flush]
  have par: "resolve (work_of root k) \<parallel> resolve (upper_of root k)"
    using k parallel_snoc [of "''work''" "''upper''" "resolve root @ [''forks'', k]" "[]" "[]"]
    by (simp add: resolve_fork_paths)
  have "gone w (upper_of root k) (fs w2)" using remove_tree_gone [OF 2] fs1 by (simp add: gone_def)
  then have U: "gone w (upper_of root k) (fs w')"
    using keepsD [OF keeps_remove_tree [OF keeps_parallel(2) [OF par]] 3, of None] tail k
    by (auto simp: gone_def resolve_fork_paths)
  have w2_work: "tlookup (fs w2) (resolve (work_of root k)) = tlookup (fs w) (resolve (work_of root k))"
    using keepsD [OF keeps_remove_tree [OF keeps_parallel(2)] 2] fs1 par parallel_sym by metis
  have W: "gone w (work_of root k) (fs w')"
    using remove_tree_gone [OF 3] tail k w2_work by (auto simp: gone_def resolve_fork_paths)
  note m = keeps_remove_tree [OF keeps_mtab(3) [of "\<lambda>x. x = mtab w1"]]
  have "mtab w3 = mtab w1" using keepsD [OF m 2] keepsD [OF m 3] by simp
  with tail U W umount_if_mounted_Inr [OF kernel 1] show ?thesis by (auto split: option.splits)
qed

text \<open>A place beside the fork's directory, the registry files and the way to the root is not touched.\<close>

lemma keeps_beside_discard:
  assumes flush: "flush_ok E root"
    and q: "(resolve root @ [''forks'', k]) \<parallel> q" "beside_registry root q" "\<not> prefix q (resolve root)"
  shows "keeps (\<lambda>w. reg_inv E root w \<and> tlookup (fs w) q = x) (discard_fork E k root)"
  unfolding discard_fork_def
proof (rule keeps_bindE_result)
  have "keeps (\<lambda>w. tlookup (fs w) q = x) (registry_open E root)"
    unfolding registry_open_def using q(3) by (rule keeps_create_dir_other)
  then show "keeps (\<lambda>w. reg_inv E root w \<and> tlookup (fs w) q = x) (lookup_fork E k root)"
    by (intro keeps_conj keeps_intros)
  fix s e s'
  assume run: "lookup_fork E k root s = (Inr e, s')" and "reg_inv E root s \<and> tlookup (fs s) q = x"
  then obtain d where d: "doc_at E root s = Some d" "doc_ok root d" by (blast elim: reg_invE)
  with run have ok: "seg_ok k" "entry_ok root k e" by (auto dest: lookup_fork_known doc_ok_fork)
  have inv: "keeps (reg_inv E root) (remove_fork E root k)"
    unfolding remove_fork_def using flush by (intro keeps_inv_lock) (auto intro: doc_ok_remove_fork)
  have below: "(resolve root @ ''forks'' # k # r) \<parallel> q" for r
    using q(1) parallel_append [of "resolve root @ [''forks'', k]" q r "[]"] by simp
  have fsb: "keeps (\<lambda>w. tlookup (fs w) q = x) (sys_umount E err m)" for err m
    by (rule keeps_mtab_blind) (simp add: mtab_blind_def)
  have reg: "keeps (\<lambda>w. tlookup (fs w) q = x) (remove_fork E root k)"
    unfolding remove_fork_def using q(2) by (rule keeps_registry_beside)
  have dirs: "keeps (\<lambda>w. tlookup (fs w) q = x) (remove_dir_all E p) \<and>
      keeps (\<lambda>w. tlookup (fs w) q = x) (remove_dir E p)"
    if "p \<in> {fork_dir root k, upper_of root k, work_of root k, merged_of root k}" for p
  proof -
    have "resolve p \<parallel> q" using that ok(1) below q(1) by (auto simp: resolve_fork_paths)
    then show ?thesis by (intro conjI keeps_parallel)
  qed
  have 1: "keeps (reg_inv E root) (discard_entry E k root e)"
    by (intro keeps_discard_entry ok keeps_intros inv) (auto intro: keeps_inv_fork_path ok)
  have 2: "keeps (\<lambda>w. tlookup (fs w) q = x) (discard_entry E k root e)"
    by (intro keeps_discard_entry ok fsb dirs reg)
  from 1 2 show "keeps (\<lambda>w. reg_inv E root w \<and> tlookup (fs w) q = x) (discard_entry E k root e)"
    by (rule keeps_conj)
qed

lemma discard_fork_Inr:
  assumes "discard_fork E k root w = (Inr u, w')" and "doc_at E root w = Some d" and "doc_ok root d"
    and "flush_ok E root" and "kernel_ok E"
  shows "\<exists>e. fork_of d k = Some e \<and>
    (\<exists>d'. doc_at E root w' = Some d' \<and> fork_of d' = (fork_of d)(k := None) \<and> base_of d' = base_of d) \<and>
    gone w (upper_path e) (fs w') \<and> gone w (work_path e) (fs w') \<and>
    mtab w' = (case merged_path e of None \<Rightarrow> mtab w | Some m \<Rightarrow>
      if mounts_has (mounts_text E (mtab w)) m then drop_last_mount m (mtab w) else mtab w)"
proof -
  from assms(1) obtain e w1 where 1: "lookup_fork E k root w = (Inr e, w1)"
    and 2: "discard_entry E k root e w1 = (Inr u, w')"
    by (auto simp: discard_fork_def runs)
  from lookup_fork_known [OF assms(2) 1] have f: "fork_of d k = Some e" and d1: "doc_at E root w1 = Some d"
    and m1: "mtab w1 = mtab w" by auto
  from doc_ok_fork [OF assms(3) f] have ok: "seg_ok k" "entry_ok root k e" by auto
  note fin = discard_entry_Inr [OF 2 d1 ok assms(4,5)]
  then obtain d' where "doc_remove_fork k d = Inr d'" and d': "doc_at E root w' = Some d'" by blast
  then have D: "fork_of d' = (fork_of d)(k := None)" "base_of d' = base_of d"
    using fork_store.rmv_look by auto
  have same: "tlookup (fs w1) q = tlookup (fs w) q" if "\<not> prefix q (resolve root)" for q
  proof -
    have "keeps (\<lambda>v. tlookup (fs v) q = tlookup (fs w) q) (lookup_fork E k root)"
      by (intro keeps_intros) (simp add: registry_open_def keeps_create_dir_other [OF that])
    from keepsD [OF this 1] show ?thesis by simp
  qed
  have np: "\<not> prefix (resolve (upper_of root k)) (resolve root)" "\<not> prefix (resolve (work_of root k)) (resolve root)"
    using ok(1) by (auto simp: resolve_fork_paths dest!: prefix_length_le)
  have g: "gone w p t" if "gone w1 p t" "\<not> prefix (resolve p) (resolve root)" for p t
    using that same by (simp add: gone_def)
  show ?thesis
    using f d' D fin m1 ok(2) g [OF _ np(1)] g [OF _ np(2)] by (auto simp: entry_ok_def)
qed

section \<open>Properties\<close>

text \<open>C24: A discard that succeeds found the fork, unmounted its merged directory if and only if the
  mount table shows it, left no upper and no work directory, and took exactly that entry out of
  the registry.\<close>

theorem discard_success:
  assumes "discard_fork E k root w = (Inr u, w')" and "doc_at E root w = Some d" and "doc_ok root d"
    and "flush_ok E root" and "kernel_ok E"
  shows "\<exists>e. fork_of d k = Some e \<and>
    (\<exists>d'. doc_at E root w' = Some d' \<and> fork_of d' = (fork_of d)(k := None) \<and> base_of d' = base_of d) \<and>
    gone w (upper_path e) (fs w') \<and> gone w (work_path e) (fs w') \<and>
    mtab w' = (case merged_path e of None \<Rightarrow> mtab w | Some m \<Rightarrow>
      if mounts_has (mounts_text E (mtab w)) m then drop_last_mount m (mtab w) else mtab w)"
  using assms by (rule discard_fork_Inr)

theorem discard_success_witness:
  "\<exists>w'. discard_fork quiet_env ''f'' ''/d'' (sample_world [''f'']) = (Inr (), w') \<and>
        (\<exists>d'. doc_at quiet_env ''/d'' w' = Some d' \<and> fork_of d' ''f'' = None)"
proof -
  have run: "discard_fork quiet_env ''f'' ''/d'' (sample_world [''f'']) = (Inr (), snd (discard_fork quiet_env ''f'' ''/d'' (sample_world [''f''])))"
    by (rule succeeds) code_simp
  have "doc_ok ''/d'' (sample_doc [''f''])" by (rule doc_ok_sample) (auto simp: seg_ok_def)
  from discard_success [OF run doc_at_sample this flush_ok_quiet quiet_env_kernel_ok]
  show ?thesis using run by auto
qed

text \<open>C8: Discarding a fork, whether it succeeds or stops half way, touches nothing outside that fork's
  directory and the registry files: every other fork, every base, and anything else on the disk
  is as before, and the registry still satisfies its invariant.\<close>

theorem discard_isolation:
  assumes "discard_fork E k root w = (r, w')" and "reg_inv E root w" and "flush_ok E root"
    and "(resolve root @ [''forks'', k]) \<parallel> q" and "beside_registry root q" and "\<not> prefix q (resolve root)"
  shows "reg_inv E root w' \<and> tlookup (fs w') q = tlookup (fs w) q"
  using keepsD [OF keeps_beside_discard [OF assms(3,4,5,6)] assms(1), of "tlookup (fs w) q"] assms(2) by simp

theorem discard_isolation_witness:
  "tlookup (fs (snd (discard_fork quiet_env ''f'' ''/d'' (sample_world [''f'', ''g''])))) [''d'', ''forks'', ''g'']
     = Some sample_fork_dir"
proof -
  have "doc_ok ''/d'' (sample_doc [''f'', ''g''])" by (rule doc_ok_sample) (auto simp: seg_ok_def)
  then have inv: "reg_inv quiet_env ''/d'' (sample_world [''f'', ''g''])"
    by (simp add: reg_inv_def doc_at_sample)
  have "beside_registry ''/d'' [''d'', ''forks'', ''g'']" by (simp add: beside_registry_def parallel_Cons)
  then have "tlookup (fs (snd (discard_fork quiet_env ''f'' ''/d'' (sample_world [''f'', ''g''])))) [''d'', ''forks'', ''g'']
      = tlookup (fs (sample_world [''f'', ''g''])) [''d'', ''forks'', ''g'']"
    using discard_isolation [OF prod.collapse [symmetric] inv flush_ok_quiet, of "''f''" "[''d'', ''forks'', ''g'']"]
    by (simp add: parallel_Cons)
  then show ?thesis by (simp add: sample_world_def dir_world_def)
qed

lemma discard_doc_Inl:
  assumes "discard_fork E k root w = (Inl e, w')" and "doc_at E root w = Some d" and "doc_ok root d"
  shows "doc_at E root w' = Some d"
proof -
  from assms(1) consider "lookup_fork E k root w = (Inl e, w')"
    | en w1 where "lookup_fork E k root w = (Inr en, w1)" "discard_entry E k root en w1 = (Inl e, w')"
    by (auto simp: discard_fork_def runs)
  then show ?thesis
  proof cases
    case 1
    have "keeps (\<lambda>v. doc_at E root v = Some d) (lookup_fork E k root)"
      by (intro keeps_lookup_fork keeps_doc_open)
    from keepsD [OF this 1] assms(2) show ?thesis by simp
  next
    case 2
    from lookup_fork_known [OF assms(2) 2(1)] have "fork_of d k = Some en" and d: "doc_at E root w1 = Some d"
      by auto
    with assms(3) have "seg_ok k" "entry_ok root k en" by (auto dest: doc_ok_fork)
    from errs_keepD [OF errs_keep_discard_entry [OF this, of "\<lambda>x. x = Some d"] 2(2)] d show ?thesis by simp
  qed
qed

text \<open>A discard that fails, at whatever step, leaves the registry document as it was, so it can be
  run again.\<close>

theorem discard_failure:
  assumes "discard_fork E k root w = (Inl e, w')" and "doc_at E root w = Some d" and "doc_ok root d"
  shows "doc_at E root w' = Some d"
  using assms by (rule discard_doc_Inl)

theorem discard_failure_witness:
  "doc_at locked_env ''/d'' (snd (discard_fork locked_env ''f'' ''/d'' (sample_world [''f''])))
     = Some (sample_doc [''f''])"
proof -
  have run: "discard_fork locked_env ''f'' ''/d'' (sample_world [''f'']) = (Inl (projl (fst (discard_fork locked_env ''f'' ''/d'' (sample_world [''f''])))), snd (discard_fork locked_env ''f'' ''/d'' (sample_world [''f''])))"
    by (rule fails) code_simp
  have "doc_ok ''/d'' (sample_doc [''f''])" by (rule doc_ok_sample) (auto simp: seg_ok_def)
  from discard_failure [OF run doc_at_sample this] run show ?thesis by simp
qed

text \<open>A fork that is not there.\<close>

lemma discard_unknown:
  assumes "doc_at E root w = Some d" and "is_dir root w" and "\<And>p. fault E OpenRead p w = None"
    and "fork_of d k = None"
  shows "discard_fork E k root w = (Inl (ForkNotFound k), w)"
  using lookup_fork_missing [OF assms] by (simp add: discard_fork_def bindE_def)

lemma set_join: "\<not> is_absolute s \<Longrightarrow> set p \<subseteq> set (join p s)"
  by (auto simp: join_def)

lemma set_merged_of: "seg_ok k \<Longrightarrow> set root \<subseteq> set (merged_of root k)"
  unfolding merged_of_def fork_dir_def
  using set_join [of "''forks''" root] set_join [of k "join root ''forks''"]
    set_join [of "''merged''" "join (join root ''forks'') k"] seg_ok_not_absolute [of k]
  by (auto simp: is_absolute_def)

text \<open>Under a root with white space in its path a discard never unmounts: /proc/mounts shows the
  mount point with the space in octal, so the comparison fails, the upper directory goes from
  under a live overlay, the entry disappears and the mount stays for good.\<close>

theorem discard_keeps_mount_ws:
  assumes "discard_fork E k root w = (Inr u, w')" and "doc_at E root w = Some d" and "doc_ok root d"
    and "flush_ok E root" and "kernel_ok E" and "c \<in> set root" and "is_ws c"
  shows "mtab w' = mtab w"
proof -
  from discard_fork_Inr [OF assms(1-5)] obtain e where f: "fork_of d k = Some e"
    and m: "mtab w' = (case merged_path e of None \<Rightarrow> mtab w | Some m \<Rightarrow>
      if mounts_has (mounts_text E (mtab w)) m then drop_last_mount m (mtab w) else mtab w)" by blast
  from doc_ok_fork [OF assms(3) f] have "seg_ok k" "entry_ok root k e" by auto
  then have "\<not> mounts_has tx (merged_of root k)" for tx
    using assms(6,7) set_merged_of [of k root] by (intro mounts_has_ws [of c]) auto
  with m \<open>entry_ok root k e\<close> show ?thesis by (auto simp: entry_ok_def)
qed

definition spaced_fork :: fork_entry where
  "spaced_fork = (sample_fork ''f'')\<lparr>upper_path := upper_of ''/a b'' ''f'', work_path := work_of ''/a b'' ''f'',
     merged_path := Some (merged_of ''/a b'' ''f'')\<rparr>"

definition spaced_doc :: registry_doc where
  "spaced_doc = \<lparr>bases = [], forks = [(''f'', spaced_fork)]\<rparr>"

definition spaced_world :: world where
  "spaced_world = (dir_world (Dir [(''a b'', Dir [(''registry.json'', RegFile (RegistryJson spaced_doc)),
       (''forks'', Dir [(''f'', sample_fork_dir)])])]))
     \<lparr>mtab := [overlay_mount ''/a b/forks/f/merged'' ''x'']\<rparr>"

theorem discard_keeps_mount_ws_witness:
  "map mnt_target (mtab (snd (discard_fork quiet_env ''f'' ''/a b'' spaced_world))) = [''/a b/forks/f/merged'']"
proof -
  have run: "discard_fork quiet_env ''f'' ''/a b'' spaced_world = (Inr (), snd (discard_fork quiet_env ''f'' ''/a b'' spaced_world))"
    by (rule succeeds) code_simp
  have "doc_ok ''/a b'' spaced_doc"
    by (simp add: doc_ok_def wf_doc_def spaced_doc_def spaced_fork_def entry_ok_def seg_ok_def)
  moreover have "resolve ''/a b'' = [''a b'']" by code_simp
  then have "doc_at quiet_env ''/a b'' spaced_world = Some spaced_doc"
    by (simp add: doc_at_def spaced_world_def dir_world_def content_doc_def)
  moreover have "CHR 0x20 \<in> set ''/a b''" "is_ws (CHR 0x20)" by (simp_all add: is_ws_def)
  ultimately have "mtab (snd (discard_fork quiet_env ''f'' ''/a b'' spaced_world)) = mtab spaced_world"
    using discard_keeps_mount_ws [OF run _ _ flush_ok_quiet quiet_env_kernel_ok] by blast
  then show ?thesis by (simp add: spaced_world_def overlay_mount_def)
qed

end
