(* ===== verification/MountPath.thy ===== *)
theory MountPath
  imports Discard
begin

text \<open>
  \<open>fastenv mount-path\<close> and \<open>fastenv unmount\<close> (src/mount_path.rs): the printed path, the
  bind mount and the merged path recorded in the registry.
\<close>

section \<open>The pipelines\<close>

definition mount_path_output :: "string \<Rightarrow> pathbuf \<Rightarrow> json" where
  "mount_path_output k m = JObj [(''fork_id'', JStr k), (''mount_path'', JStr m)]"

definition bind_mount :: "pathbuf \<Rightarrow> pathbuf \<Rightarrow> mount" where
  "bind_mount src tgt =
     \<lparr>mnt_source = src, mnt_target = tgt, mnt_fstype = ''none'', mnt_bind = True, mnt_data = []\<rparr>"

definition mount_fresh :: "env \<Rightarrow> string \<Rightarrow> pathbuf \<Rightarrow> fork_entry \<Rightarrow> unit cmd" where
  "mount_fresh E k root e =
     (let merged = merged_of root k;
          source = (case merged_path e of Some m \<Rightarrow> m | None \<Rightarrow> merged_of root k)
      in bindE (create_dir_all E merged) (\<lambda>_.
         bindE (sys_mount E (MountFailed k) (bind_mount source merged)) (\<lambda>_.
         bindE (insert_fork E root k (e\<lparr>merged_path := Some merged\<rparr>)) (\<lambda>_.
         println E (mount_path_output k merged)))))"

definition mount_path :: "env \<Rightarrow> string \<Rightarrow> pathbuf \<Rightarrow> unit cmd" where
  "mount_path E k root =
     bindE (lookup_fork E k root) (\<lambda>e.
     case merged_path e of
       Some m \<Rightarrow>
         bindE (is_mounted E m) (\<lambda>b.
         if b then println E (mount_path_output k m) else mount_fresh E k root e)
     | None \<Rightarrow> mount_fresh E k root e)"

definition unmount_fork :: "env \<Rightarrow> string \<Rightarrow> pathbuf \<Rightarrow> unit cmd" where
  "unmount_fork E k root =
     bindE (lookup_fork E k root) (\<lambda>e.
     case merged_path e of
       None \<Rightarrow> throw (NotMounted k)
     | Some m \<Rightarrow>
         bindE (is_mounted E m) (\<lambda>b.
         if \<not> b then throw (NotMounted k)
         else bindE (sys_umount E (UmountFailed k) m) (\<lambda>_.
              bindE (asks (path_exists m)) (\<lambda>x.
              bindE (whenE x (remove_dir E m)) (\<lambda>_.
              insert_fork E root k (e\<lparr>merged_path := None\<rparr>))))))"

section \<open>Frames\<close>

lemma keeps_inv_insert:
  "flush_ok E root \<Longrightarrow> seg_ok k \<Longrightarrow> entry_ok root k e \<Longrightarrow> keeps (reg_inv E root) (insert_fork E root k e)"
  unfolding insert_fork_def by (intro keeps_inv_lock) (auto intro: doc_ok_insert_fork)

text \<open>A command that looks its fork up and works on what it found.\<close>

lemma keeps_inv_lookup:
  assumes "\<And>e. seg_ok k \<Longrightarrow> entry_ok root k e \<Longrightarrow> keeps (reg_inv E root) (f e)"
  shows "keeps (reg_inv E root) (bindE (lookup_fork E k root) f)"
proof (rule keeps_bindE_result)
  show "keeps (reg_inv E root) (lookup_fork E k root)" by (intro keeps_intros)
  fix s e s'
  assume run: "lookup_fork E k root s = (Inr e, s')" and "reg_inv E root s"
  then obtain d where d: "doc_at E root s = Some d" "doc_ok root d" by (blast elim: reg_invE)
  with run show "keeps (reg_inv E root) (f e)"
    by (intro assms) (auto dest: lookup_fork_known doc_ok_fork)
qed

lemma keeps_inv_mount_path:
  assumes flush: "flush_ok E root"
  shows "keeps (reg_inv E root) (mount_path E k root)"
  unfolding mount_path_def
proof (rule keeps_inv_lookup)
  fix e assume ok: "seg_ok k" "entry_ok root k e"
  have "keeps (reg_inv E root) (mount_fresh E k root e)"
    unfolding mount_fresh_def Let_def
    by (intro keeps_intros keeps_inv_insert flush ok keeps_inv_fork_path [OF ok(1)])
       (use ok in \<open>auto simp: entry_ok_def\<close>)
  then show "keeps (reg_inv E root) (case merged_path e of
       Some m \<Rightarrow> bindE (is_mounted E m) (\<lambda>b.
         if b then println E (mount_path_output k m) else mount_fresh E k root e)
     | None \<Rightarrow> mount_fresh E k root e)"
    by (intro keeps_intros)
qed

lemma keeps_inv_unmount:
  assumes flush: "flush_ok E root"
  shows "keeps (reg_inv E root) (unmount_fork E k root)"
  unfolding unmount_fork_def
proof (rule keeps_inv_lookup)
  fix e assume ok: "seg_ok k" "entry_ok root k e"
  show "keeps (reg_inv E root) (case merged_path e of
       None \<Rightarrow> throw (NotMounted k)
     | Some m \<Rightarrow>
         bindE (is_mounted E m) (\<lambda>b.
         if \<not> b then throw (NotMounted k)
         else bindE (sys_umount E (UmountFailed k) m) (\<lambda>_.
              bindE (asks (path_exists m)) (\<lambda>x.
              bindE (whenE x (remove_dir E m)) (\<lambda>_.
              insert_fork E root k (e\<lparr>merged_path := None\<rparr>))))))"
    by (intro keeps_intros keeps_inv_insert flush ok keeps_inv_fork_path [OF ok(1)])
       (use ok in \<open>auto simp: entry_ok_def\<close>)
qed

lemma println_Inr: "println E j w = (Inr u, w') \<Longrightarrow> w' = w\<lparr>stdout := stdout w @ [j]\<rparr>"
  by (auto simp: println_def runs)

section \<open>Properties\<close>

text \<open>Asking again for the path of a fork that is mounted prints the recorded path and changes
  neither the registry nor the mounts.\<close>

theorem mount_path_idempotent:
  assumes "mount_path E k root w = (Inr u, w')" and "doc_at E root w = Some d"
    and "fork_of d k = Some e" and "merged_path e = Some m"
    and "mounts_has (mounts_text E (mtab w)) m"
  shows "doc_at E root w' = Some d \<and> mtab w' = mtab w \<and> last (stdout w') = mount_path_output k m"
proof -
  from assms(1) obtain e' w1 where 1: "lookup_fork E k root w = (Inr e', w1)"
    and 2: "(case merged_path e' of
       Some m \<Rightarrow> bindE (is_mounted E m) (\<lambda>b.
         if b then println E (mount_path_output k m) else mount_fresh E k root e')
     | None \<Rightarrow> mount_fresh E k root e') w1 = (Inr u, w')"
    by (auto simp: mount_path_def runs)
  from lookup_fork_known [OF assms(2) 1] assms(3) have e: "e' = e" "doc_at E root w1 = Some d" "mtab w1 = mtab w"
    by auto
  with 2 assms(4,5) have "println E (mount_path_output k m) w1 = (Inr u, w')"
    by (auto simp: bindE_Inr is_mounted_run)
  from println_Inr [OF this] e show ?thesis by (simp add: doc_at_blind)
qed

definition mounted_world :: world where
  "mounted_world = (sample_world [''f''])\<lparr>mtab := [overlay_mount ''/d/forks/f/merged'' ''x'']\<rparr>"

lemma doc_at_mounted: "doc_at E ''/d'' mounted_world = Some (sample_doc [''f''])"
  by (simp add: mounted_world_def doc_at_blind doc_at_sample)

theorem mount_path_idempotent_witness:
  "last (stdout (snd (mount_path quiet_env ''f'' ''/d'' mounted_world)))
     = mount_path_output ''f'' ''/d/forks/f/merged''"
proof -
  have run: "mount_path quiet_env ''f'' ''/d'' mounted_world
      = (Inr (), snd (mount_path quiet_env ''f'' ''/d'' mounted_world))"
    by (rule succeeds) code_simp
  have "mounts_has (mounts_text quiet_env (mtab mounted_world)) ''/d/forks/f/merged''" by code_simp
  then show ?thesis
    using mount_path_idempotent [OF run doc_at_mounted fork_of_sample]
    by (simp add: sample_fork_def merged_of_sample)
qed

text \<open>Mounting a fork that is not mounted binds the merged directory onto itself, the only source
  a registered entry allows: the overlay an earlier unmount took away does not come back, and the
  fork's files are not in the directory that is printed and recorded.\<close>

theorem mount_path_binds_itself:
  assumes "mount_path E k root w = (Inr u, w')" and "doc_at E root w = Some d" and "doc_ok root d"
    and "fork_of d k = Some e"
    and "\<forall>m. merged_path e = Some m \<longrightarrow> \<not> mounts_has (mounts_text E (mtab w)) m"
    and "flush_ok E root" and "kernel_ok E"
  shows "mtab w' = mtab w @ [bind_mount (merged_of root k) (merged_of root k)] \<and>
    last (stdout w') = mount_path_output k (merged_of root k) \<and>
    doc_at E root w' = Some (doc_insert_fork k (e\<lparr>merged_path := Some (merged_of root k)\<rparr>) d)"
proof -
  from assms(1) obtain e' w1 where 1: "lookup_fork E k root w = (Inr e', w1)"
    and 2: "(case merged_path e' of
       Some m \<Rightarrow> bindE (is_mounted E m) (\<lambda>b.
         if b then println E (mount_path_output k m) else mount_fresh E k root e')
     | None \<Rightarrow> mount_fresh E k root e') w1 = (Inr u, w')"
    by (auto simp: mount_path_def runs)
  from lookup_fork_known [OF assms(2) 1] assms(4) have e: "e' = e" "doc_at E root w1 = Some d" "mtab w1 = mtab w"
    by auto
  from doc_ok_fork [OF assms(3,4)] have ok: "seg_ok k" "entry_ok root k e" by auto
  from 2 e assms(5) have 3: "mount_fresh E k root e w1 = (Inr u, w')"
    by (auto simp: bindE_Inr is_mounted_run split: option.splits)
  have src: "(case merged_path e of Some m \<Rightarrow> m | None \<Rightarrow> merged_of root k) = merged_of root k"
    using ok(2) by (auto simp: entry_ok_def)
  from 3 obtain w2 w3 w4 where 4: "create_dir_all E (merged_of root k) w1 = (Inr (), w2)"
    and 5: "sys_mount E (MountFailed k) (bind_mount (merged_of root k) (merged_of root k)) w2 = (Inr (), w3)"
    and 6: "insert_fork E root k (e\<lparr>merged_path := Some (merged_of root k)\<rparr>) w3 = (Inr (), w4)"
    and 7: "println E (mount_path_output k (merged_of root k)) w4 = (Inr u, w')"
    by (auto simp: mount_fresh_def Let_def src runs)
  have "doc_at E root w2 = Some d"
    using keepsD [OF keeps_doc_fork_path(1) [OF ok(1), of _ root "\<lambda>x. x = Some d"] 4] e(2) by simp
  moreover have m2: "mtab w2 = mtab w"
    using keepsD [OF keeps_mtab(2) [of "\<lambda>x. x = mtab w"] 4] e(3) by simp
  moreover have w3: "w3 = w2\<lparr>mtab := mtab w2 @ [bind_mount (merged_of root k) (merged_of root k)]\<rparr>"
    using assms(7) 5 by (rule sys_mount_Inr)
  ultimately have "doc_at E root w3 = Some d" by (simp add: doc_at_blind)
  from insert_fork_Inr [OF assms(6) this 6]
  have "doc_at E root w4 = Some (doc_insert_fork k (e\<lparr>merged_path := Some (merged_of root k)\<rparr>) d)" .
  moreover have "mtab w4 = mtab w3" using keepsD [OF keeps_mtab_ops(1) [of "\<lambda>x. x = mtab w3"] 6] by simp
  ultimately show ?thesis using println_Inr [OF 7] w3 m2 by (simp add: doc_at_blind)
qed

theorem mount_path_binds_itself_witness:
  "mtab (snd (mount_path quiet_env ''f'' ''/d'' (sample_world [''f''])))
     = [bind_mount ''/d/forks/f/merged'' ''/d/forks/f/merged'']"
proof -
  have run: "mount_path quiet_env ''f'' ''/d'' (sample_world [''f''])
      = (Inr (), snd (mount_path quiet_env ''f'' ''/d'' (sample_world [''f''])))"
    by (rule succeeds) code_simp
  have empty: "mtab (sample_world [''f'']) = []" by (simp add: sample_world_def dir_world_def)
  have "\<not> mounts_has (mounts_text quiet_env []) m" for m
    by (simp add: mounts_has_def linux_mounts_text_def)
  with empty have "\<forall>m. merged_path (sample_fork ''f'') = Some m \<longrightarrow>
      \<not> mounts_has (mounts_text quiet_env (mtab (sample_world [''f'']))) m" by metis
  from mount_path_binds_itself [OF run doc_at_sample doc_ok_sample_f fork_of_sample this flush_ok_quiet quiet_env_kernel_ok]
  show ?thesis by (simp add: merged_of_sample empty)
qed

text \<open>C28: An unmount that succeeds had the fork's merged directory in the mount table; it takes its
  topmost mount away, and the registry entry without its merged path is all that changes in the
  document.\<close>

theorem unmount_success:
  assumes "unmount_fork E k root w = (Inr u, w')" and "doc_at E root w = Some d" and "doc_ok root d"
    and "flush_ok E root" and "kernel_ok E"
  shows "\<exists>e. fork_of d k = Some e \<and> merged_path e = Some (merged_of root k) \<and>
    mounts_has (mounts_text E (mtab w)) (merged_of root k) \<and>
    mtab w' = drop_last_mount (merged_of root k) (mtab w) \<and>
    doc_at E root w' = Some (doc_insert_fork k (e\<lparr>merged_path := None\<rparr>) d)"
proof -
  from assms(1) obtain e w1 m w2 w3 where 1: "lookup_fork E k root w = (Inr e, w1)"
    and 2: "merged_path e = Some m" and 3: "mounts_has (mounts_text E (mtab w1)) m"
    and 4: "sys_umount E (UmountFailed k) m w1 = (Inr (), w2)"
    and 5: "whenE (path_exists m w2) (remove_dir E m) w2 = (Inr (), w3)"
    and 6: "insert_fork E root k (e\<lparr>merged_path := None\<rparr>) w3 = (Inr u, w')"
    by (auto simp: unmount_fork_def bindE_Inr is_mounted_run asks_run throw_run split: option.splits if_splits)
  from lookup_fork_known [OF assms(2) 1] have f: "fork_of d k = Some e" and d1: "doc_at E root w1 = Some d"
    and m1: "mtab w1 = mtab w" by auto
  from doc_ok_fork [OF assms(3) f] have ok: "seg_ok k" "entry_ok root k e" by auto
  with 2 have m: "m = merged_of root k" by (auto simp: entry_ok_def)
  have w2: "w2 = w1\<lparr>mtab := drop_last_mount m (mtab w1)\<rparr>" using assms(5) 4 by (rule sys_umount_Inr)
  have "keeps (\<lambda>v. doc_at E root v = Some d \<and> mtab v = mtab w2) (whenE (path_exists m w2) (remove_dir E m))"
    using keeps_doc_fork_path(3) [OF ok(1), of m root "\<lambda>x. x = Some d"] m
    by (intro keeps_whenE keeps_conj keeps_mtab) auto
  from keepsD [OF this 5] have "doc_at E root w3 = Some d" "mtab w3 = mtab w2"
    using w2 d1 by (auto simp: doc_at_blind)
  moreover have "mtab w' = mtab w3" using keepsD [OF keeps_mtab_ops(1) [of "\<lambda>x. x = mtab w3"] 6] by simp
  ultimately show ?thesis using f 2 3 m m1 w2 insert_fork_Inr [OF assms(4) _ 6] by auto
qed

theorem unmount_success_witness:
  "mtab (snd (unmount_fork quiet_env ''f'' ''/d'' mounted_world)) = []"
proof -
  have run: "unmount_fork quiet_env ''f'' ''/d'' mounted_world
      = (Inr (), snd (unmount_fork quiet_env ''f'' ''/d'' mounted_world))"
    by (rule succeeds) code_simp
  from unmount_success [OF run doc_at_mounted doc_ok_sample_f flush_ok_quiet quiet_env_kernel_ok]
  show ?thesis by (auto simp: mounted_world_def overlay_mount_def merged_of_sample)
qed

end
