(* ===== verification/ContainerRuntime.thy ===== *)
theory ContainerRuntime
  imports BpfKernel
begin

text \<open>
  The container runtime boundary (src/container_runtime.rs): the trait as the locale
  \<open>container_runtime\<close>, the crun backend that spawns a process, and the youki backend on the
  libcontainer crate, with its \<open>waitpid\<close> loop. The crun binary, libcontainer and the wait status
  of a child are the record \<open>container_host\<close>; durations and log lines are left out. A wait that
  never ends is \<open>None\<close>, so starting is a relation in the trait.
\<close>

unbundle bit_operations_syntax

section \<open>Wait status\<close>

definition wifexited :: "u32 \<Rightarrow> bool" where
  "wifexited s \<longleftrightarrow> s AND 127 = 0"

definition wexitstatus :: "u32 \<Rightarrow> int" where
  "wexitstatus s = uint (drop_bit 8 s AND 255)"

definition wifsignaled :: "u32 \<Rightarrow> bool" where
  "wifsignaled s \<longleftrightarrow> s AND 127 \<noteq> 0 \<and> s AND 127 \<noteq> 127"

definition wtermsig :: "u32 \<Rightarrow> int" where
  "wtermsig s = uint (s AND 127)"

text \<open>\<open>ExitStatus::code\<close> and \<open>ExitStatus::signal\<close>\<close>

definition status_code :: "u32 \<Rightarrow> int option" where
  "status_code s = (if wifexited s then Some (wexitstatus s) else None)"

definition status_signal :: "u32 \<Rightarrow> int option" where
  "status_signal s = (if wifsignaled s then Some (wtermsig s) else None)"

record container_host =
  spawn_wait :: "pathbuf \<Rightarrow> string list \<Rightarrow> world \<Rightarrow> (errno + u32) \<times> world"
  lib_build :: "string \<Rightarrow> pathbuf \<Rightarrow> pathbuf \<Rightarrow> world \<Rightarrow> errno option \<times> world"
  lib_load :: "pathbuf \<Rightarrow> world \<Rightarrow> errno + nat option"
  lib_start :: "pathbuf \<Rightarrow> world \<Rightarrow> errno option \<times> world"
  lib_delete :: "pathbuf \<Rightarrow> world \<Rightarrow> errno option \<times> world"
  wait_pid :: "nat \<Rightarrow> nat \<Rightarrow> errno + u32"

definition foreign :: "(world \<Rightarrow> errno option \<times> world) \<Rightarrow> string \<Rightarrow> unit cmd" where
  "foreign f msg = (\<lambda>w. case f w of (None, w') \<Rightarrow> (Inr (), w') | (Some e, w') \<Rightarrow> (Inl (Bail msg), w'))"

section \<open>CrunBackend\<close>

definition crun_backend_name :: string where
  "crun_backend_name = ''crun''"

definition crun_default_path :: pathbuf where
  "crun_default_path = ''/usr/bin/crun''"

definition crun_create :: "string \<Rightarrow> pathbuf \<Rightarrow> unit cmd" where
  "crun_create fork_id bundle =
     bindE (asks (path_exists (join bundle ''config.json''))) (\<lambda>x.
     if \<not> x then throw (Bail ''bundle config.json not found'') else ret ())"

definition crun_exit_code :: "u32 \<Rightarrow> int" where
  "crun_exit_code s = (case status_code s of Some c \<Rightarrow> c | None \<Rightarrow> unwrap_or (status_signal s) 1 + 128)"

definition crun_start :: "container_host \<Rightarrow> pathbuf \<Rightarrow> string \<Rightarrow> pathbuf \<Rightarrow> int cmd" where
  "crun_start C crun fork_id bundle = (\<lambda>w.
     case spawn_wait C crun [''run'', ''--bundle'', bundle, fork_id] w of
       (Inl e, w') \<Rightarrow> (Inl (Bail ''failed to spawn or wait for crun''), w')
     | (Inr s, w') \<Rightarrow> (Inr (crun_exit_code s), w'))"

definition crun_delete :: "string \<Rightarrow> unit cmd" where
  "crun_delete fork_id = ret ()"

section \<open>YoukiBackend\<close>

abbreviation (input) EINTR :: errno where "EINTR \<equiv> 4"

text \<open>
  The loop of \<open>waitpid_exit_code\<close>, from the \<open>n\<close>-th call on: interrupted calls are repeated, and so
  are statuses of a child that has only stopped.
\<close>

partial_function (option) waitpid_exit_code :: "(nat \<Rightarrow> errno + u32) \<Rightarrow> nat \<Rightarrow> (errno + int) option" where
  "waitpid_exit_code calls n =
     (case calls n of
        Inl e \<Rightarrow> if e = EINTR then waitpid_exit_code calls (Suc n) else Some (Inl e)
      | Inr s \<Rightarrow>
          if wifexited s then Some (Inr (wexitstatus s))
          else if wifsignaled s then Some (Inr (wtermsig s + 128))
          else waitpid_exit_code calls (Suc n))"

declare waitpid_exit_code.simps [code]

definition youki_backend_name :: string where
  "youki_backend_name = ''youki''"

definition youki_default_root :: pathbuf where
  "youki_default_root = ''/run/fastenv/youki''"

definition youki_create :: "env \<Rightarrow> container_host \<Rightarrow> pathbuf \<Rightarrow> string \<Rightarrow> pathbuf \<Rightarrow> unit cmd" where
  "youki_create E C root_path fork_id bundle =
     bindE (asks (path_exists (join bundle ''config.json''))) (\<lambda>x.
     if \<not> x then throw (Bail ''bundle config.json not found'')
     else bindE (create_dir_all E root_path) (\<lambda>_.
          foreign (lib_build C fork_id root_path bundle) ''libcontainer build failed''))"

definition youki_start :: "container_host \<Rightarrow> pathbuf \<Rightarrow> string \<Rightarrow> world \<Rightarrow> ((error + int) \<times> world) option" where
  "youki_start C root_path fork_id w =
     (let cr = join root_path fork_id in
      case lib_load C cr w of
        Inl e \<Rightarrow> Some (Inl (Bail ''failed to load container state''), w)
      | Inr None \<Rightarrow> Some (Inl (Bail ''no init pid recorded''), w)
      | Inr (Some pid) \<Rightarrow>
          (case foreign (lib_start C cr) ''libcontainer start failed'' w of
             (Inl e, w1) \<Rightarrow> Some (Inl e, w1)
           | (Inr u, w1) \<Rightarrow>
               map_option (\<lambda>r. (case r of Inl e \<Rightarrow> Inl (Bail ''waitpid failed'') | Inr c \<Rightarrow> Inr c, w1))
                 (waitpid_exit_code (wait_pid C pid) 0)))"

definition youki_delete :: "container_host \<Rightarrow> pathbuf \<Rightarrow> string \<Rightarrow> unit cmd" where
  "youki_delete C root_path fork_id =
     (let cr = join root_path fork_id in
      bindE (asks (lib_load C cr)) (\<lambda>r.
        case r of
          Inl e \<Rightarrow> ret ()
        | Inr _ \<Rightarrow> bindE (attempt (foreign (lib_delete C cr) ''libcontainer delete returned error'')) (\<lambda>q. ret ())))"

section \<open>Laws\<close>

lemma and_127_bound: "uint ((s::u32) AND 127) \<le> 127"
  by (simp add: uint_and AND_upper2)

lemma and_255_bound: "uint ((s::u32) AND 255) \<le> 255"
  by (simp add: uint_and AND_upper2)

lemma wtermsig_bound: "wifsignaled s \<Longrightarrow> 1 \<le> wtermsig s \<and> wtermsig s \<le> 126"
proof -
  assume a: "wifsignaled s"
  then have "uint (s AND 127) \<noteq> 0" by (simp add: wifsignaled_def uint_0_iff)
  moreover have "uint (s AND 127) \<noteq> 127"
  proof
    assume "uint (s AND 127) = 127"
    then have "s AND 127 = 127" by (metis uint_numeral word_of_int_numeral word_of_int_uint)
    with a show False by (simp add: wifsignaled_def)
  qed
  ultimately show ?thesis
    using and_127_bound [of s] uint_ge_0 [of "s AND 127"] unfolding wtermsig_def by linarith
qed

lemma crun_exit_code_bound: "0 \<le> crun_exit_code s \<and> crun_exit_code s \<le> 255"
  using wtermsig_bound [of s] and_255_bound [of "drop_bit 8 s"] uint_ge_0 [of "drop_bit 8 s AND 255"]
  by (auto simp: crun_exit_code_def status_code_def status_signal_def wexitstatus_def split: option.splits)

text \<open>A call settles the wait when it is an error other than an interruption, or ends the child.\<close>

definition settled :: "errno + u32 \<Rightarrow> bool" where
  "settled r \<longleftrightarrow> (case r of Inl e \<Rightarrow> e \<noteq> EINTR | Inr s \<Rightarrow> wifexited s \<or> wifsignaled s)"

definition wait_outcome :: "errno + u32 \<Rightarrow> errno + int" where
  "wait_outcome r = (case r of Inl e \<Rightarrow> Inl e | Inr s \<Rightarrow> Inr (crun_exit_code s))"

lemma wait_settled: "settled (calls n) \<Longrightarrow> waitpid_exit_code calls n = Some (wait_outcome (calls n))"
  by (subst waitpid_exit_code.simps)
     (auto simp: settled_def wait_outcome_def crun_exit_code_def status_code_def status_signal_def
        split: sum.splits)

lemma wait_goes_on: "\<not> settled (calls n) \<Longrightarrow> waitpid_exit_code calls n = waitpid_exit_code calls (Suc n)"
  by (subst waitpid_exit_code.simps) (auto simp: settled_def split: sum.splits)

lemma wait_reaches:
  "n \<le> m \<Longrightarrow> settled (calls m) \<Longrightarrow> list_all (\<lambda>i. \<not> settled (calls i)) [n..<m] \<Longrightarrow>
   waitpid_exit_code calls n = Some (wait_outcome (calls m))"
proof (induction "m - n" arbitrary: n)
  case 0
  then show ?case by (simp add: wait_settled)
next
  case (Suc k)
  then have lt: "n < m" by simp
  then have "[n..<m] = n # [Suc n..<m]" by (simp add: upt_conv_Cons)
  with Suc.prems(3) have "\<not> settled (calls n)" "list_all (\<lambda>i. \<not> settled (calls i)) [Suc n..<m]" by auto
  then show ?case
    using Suc.hyps lt Suc.prems(2) by (subst wait_goes_on) (auto intro: Suc.hyps(1))
qed

lemma wait_found:
  "waitpid_exit_code calls n = Some r \<Longrightarrow>
   \<exists>m\<ge>n. settled (calls m) \<and> list_all (\<lambda>i. \<not> settled (calls i)) [n..<m] \<and> r = wait_outcome (calls m)"
proof (induction rule: waitpid_exit_code.raw_induct [rotated, consumes 1])
  case (1 wait calls n r)
  show ?case
  proof (cases "settled (calls n)")
    case True
    then have "r = wait_outcome (calls n)"
      using 1(2)
      by (cases "calls n")
         (auto simp: settled_def wait_outcome_def crun_exit_code_def status_code_def status_signal_def
            split: if_splits)
    with True show ?thesis by (intro exI [of _ n]) simp
  next
    case False
    then have "wait calls (Suc n) = Some r"
      using 1(2) by (cases "calls n") (auto simp: settled_def)
    from 1(1) [OF this] obtain m where m: "Suc n \<le> m" "settled (calls m)" "r = wait_outcome (calls m)"
      and all: "list_all (\<lambda>i. \<not> settled (calls i)) [Suc n..<m]"
      by (elim exE conjE) (rule that)
    from m(1) have eq: "[n..<m] = n # [Suc n..<m]" by (intro upt_conv_Cons) (rule Suc_le_lessD)
    have "list_all (\<lambda>i. \<not> settled (calls i)) [n..<m]" unfolding eq list.pred_inject using False all by (rule conjI)
    moreover have "n \<le> m" using m(1) by (rule Suc_leD)
    ultimately show ?thesis using m(2,3) by (intro exI [of _ m] conjI)
  qed
qed

section \<open>The trait\<close>

text \<open>
  What every backend promises: no container without a \<open>config.json\<close>, an exit code that fits a
  process exit status, a start with one outcome, and a delete that never fails.
\<close>

locale container_runtime =
  fixes create :: "string \<Rightarrow> pathbuf \<Rightarrow> unit cmd"
    and starts :: "string \<Rightarrow> pathbuf \<Rightarrow> world \<Rightarrow> error + int \<Rightarrow> world \<Rightarrow> bool"
    and delete :: "string \<Rightarrow> unit cmd"
  assumes create_config: "create k b w = (Inr (), w') \<Longrightarrow> path_exists (join b ''config.json'') w"
    and starts_code: "starts k b w (Inr c) w' \<Longrightarrow> 0 \<le> c \<and> c \<le> 255"
    and starts_det: "starts k b w r w' \<Longrightarrow> starts k b w q v \<Longrightarrow> r = q \<and> w' = v"
    and delete_ok: "fst (delete k w) = Inr ()"
begin

lemma lifecycle:
  assumes "create k b w = (Inr (), w1)" and "starts k b w1 (Inr c) w2"
  shows "path_exists (join b ''config.json'') w \<and> 0 \<le> c \<and> c \<le> 255 \<and> (\<exists>w3. delete k w2 = (Inr (), w3))"
  using create_config [OF assms(1)] starts_code [OF assms(2)] delete_ok [of k w2]
  by (metis prod.collapse)

end

definition crun_starts :: "container_host \<Rightarrow> pathbuf \<Rightarrow> string \<Rightarrow> pathbuf \<Rightarrow> world \<Rightarrow> error + int \<Rightarrow> world \<Rightarrow> bool" where
  "crun_starts C crun k b w r w' \<longleftrightarrow> crun_start C crun k b w = (r, w')"

definition youki_starts :: "container_host \<Rightarrow> pathbuf \<Rightarrow> string \<Rightarrow> pathbuf \<Rightarrow> world \<Rightarrow> error + int \<Rightarrow> world \<Rightarrow> bool" where
  "youki_starts C root_path k b w r w' \<longleftrightarrow> youki_start C root_path k w = Some (r, w')"

lemma crun_start_Inr: "crun_start C crun k b w = (Inr c, w') \<Longrightarrow> \<exists>s. c = crun_exit_code s"
  by (auto simp: crun_start_def split: prod.splits sum.splits)

lemma wait_outcome_code: "waitpid_exit_code calls n = Some (Inr c) \<Longrightarrow> 0 \<le> c \<and> c \<le> 255"
  using crun_exit_code_bound by (auto dest!: wait_found simp: wait_outcome_def split: sum.splits)

lemma youki_start_Inr: "youki_start C root_path k w = Some (Inr c, w') \<Longrightarrow> 0 \<le> c \<and> c \<le> 255"
proof -
  assume "youki_start C root_path k w = Some (Inr c, w')"
  then obtain pid where "waitpid_exit_code (wait_pid C pid) 0 = Some (Inr c)"
    unfolding youki_start_def Let_def
    by (simp split: sum.splits option.splits prod.splits) (metis option.map_disc_iff sum.exhaust)
  then show ?thesis by (rule wait_outcome_code)
qed

lemma foreign_run: "foreign f msg w = (Inr u, w') \<longleftrightarrow> f w = (None, w')"
  by (auto simp: foreign_def split: prod.splits option.splits)

lemma crun_create_Inr: "crun_create k b w = (Inr (), w') \<Longrightarrow> path_exists (join b ''config.json'') w"
  by (auto simp: crun_create_def runs split: if_splits)

lemma youki_create_Inr: "youki_create E C rp k b w = (Inr (), w') \<Longrightarrow> path_exists (join b ''config.json'') w"
  by (auto simp: youki_create_def runs split: if_splits)

lemma youki_delete_ok: "fst (youki_delete C rp k w) = Inr ()"
  by (auto simp: youki_delete_def Let_def io_defs split: sum.splits prod.splits)

interpretation crun: container_runtime crun_create "crun_starts C crun" crun_delete for C crun
  by unfold_locales
     (use crun_exit_code_bound in \<open>auto simp: crun_starts_def crun_delete_def ret_def
        dest: crun_create_Inr dest!: crun_start_Inr\<close>)

interpretation youki: container_runtime "youki_create E C root_path" "youki_starts C root_path" "youki_delete C root_path"
  for E C root_path
  by unfold_locales
     (auto simp: youki_starts_def youki_delete_ok dest: youki_create_Inr youki_start_Inr)

section \<open>Properties\<close>

text \<open>C19: The wait of the youki backend returns exactly when some call settles it, with the outcome
  of the first such call: an error other than an interruption, or the exit code the crun backend
  reports for the same wait status (128 plus the signal for a killed child). If every call is
  interrupted or shows a child that has not ended, it never returns.\<close>

theorem waitpid_exit_code_spec:
  "waitpid_exit_code calls n = Some r \<longleftrightarrow>
   (\<exists>m\<ge>n. settled (calls m) \<and> list_all (\<lambda>i. \<not> settled (calls i)) [n..<m] \<and> r = wait_outcome (calls m))"
  using wait_found [of calls n r] wait_reaches [of n _ calls] by blast


definition killed_child :: "pathbuf \<Rightarrow> string list \<Rightarrow> world \<Rightarrow> (errno + u32) \<times> world" where
  "killed_child p args w = (Inr 9, w)"

definition no_build :: "string \<Rightarrow> pathbuf \<Rightarrow> pathbuf \<Rightarrow> world \<Rightarrow> errno option \<times> world" where
  "no_build k r b w = (None, w)"

definition one_container :: "pathbuf \<Rightarrow> world \<Rightarrow> errno + nat option" where
  "one_container p w = Inr (Some 1)"

definition lib_granted :: "pathbuf \<Rightarrow> world \<Rightarrow> errno option \<times> world" where
  "lib_granted p w = (None, w)"

definition interrupted_once :: "nat \<Rightarrow> nat \<Rightarrow> errno + u32" where
  "interrupted_once pid n = (if n = 0 then Inl 4 else Inr 9)"

definition quiet_host :: container_host where
  "quiet_host = \<lparr>spawn_wait = killed_child, lib_build = no_build, lib_load = one_container,
     lib_start = lib_granted, lib_delete = lib_granted, wait_pid = interrupted_once\<rparr>"

definition bundle_world :: world where
  "bundle_world = dir_world (Dir [(''b'', Dir [(''config.json'', RegFile (JsonDoc JNull))])])"


end
