(* ===== verification/GuestEbpf.thy ===== *)
theory GuestEbpf
  imports BpfKernel
begin

text \<open>
  The guest's policy loader (src/guest_ebpf.rs): attaching before a container starts, the audit
  events, and detaching. \<open>attach\<close> never returns an error; its one way to fail is a panic, when a
  container id is cut in the middle of a character. Audit events go to the \<open>trace\<close> of the world;
  the other log lines are left out.
\<close>

section \<open>Policy and events\<close>

datatype guest_audit_event = FileWrite | NetworkEgress | ExecEvent

definition audit_name :: "guest_audit_event \<Rightarrow> string" where
  "audit_name e = (case e of FileWrite \<Rightarrow> ''file_write'' | NetworkEgress \<Rightarrow> ''network_egress'' | ExecEvent \<Rightarrow> ''exec'')"

record guest_policy =
  container_id :: string
  object_path :: "pathbuf option"
  tracepoint_attach :: "string option"
  cgroup_path :: "pathbuf option"

definition for_container :: "string \<Rightarrow> guest_policy" where
  "for_container cid = \<lparr>container_id = cid, object_path = None, tracepoint_attach = None, cgroup_path = None\<rparr>"

definition minimal_pass_program :: "u8 list" where
  "minimal_pass_program = [183, 0, 0, 0, 0, 0, 0, 0, 149, 0, 0, 0, 0, 0, 0, 0]"

record guest_loader =
  gl_container_id :: string
  gl_attached :: bool
  tracepoint_fd :: "nat option"
  tracepoint_pin :: "pathbuf option"
  cgroup_skb_fd :: "nat option"
  attached_at :: string

section \<open>Loading and pinning\<close>

definition load_guest_bpf_prog :: "env \<Rightarrow> kern \<Rightarrow> pathbuf option \<Rightarrow> string \<Rightarrow> u32 \<Rightarrow> nat cmd" where
  "load_guest_bpf_prog E K obj name ty =
     bindE (case obj of
              None \<Rightarrow> ret (minimal_pass_program, ''GPL'')
            | Some p \<Rightarrow> bindE (fs_read E K p) (\<lambda>data. of_result (load_bpf_bytes data))) (\<lambda>(bytes, lic).
     bindE (of_result (guest_size_check bytes)) (\<lambda>_.
     sys_bpf_load K (load_attr ty bytes lic name)))"

definition guest_bpf_pin_path :: "string \<Rightarrow> string \<Rightarrow> pathbuf" where
  "guest_bpf_pin_path cid name = join (join (join ''/sys/fs/bpf'' ''fastenv-guest'') cid) name"

text \<open>A \<open>match\<close> on a result that turns an error into \<open>None\<close>. A panic is not a result and goes on.\<close>

definition is_panic :: "error \<Rightarrow> bool" where
  "is_panic e = (case e of Panic m \<Rightarrow> True | _ \<Rightarrow> False)"

definition or_none :: "'a cmd \<Rightarrow> 'a option cmd" where
  "or_none m = bindE (attempt m) (\<lambda>r.
     case r of Inl e \<Rightarrow> (if is_panic e then throw e else ret None) | Inr a \<Rightarrow> ret (Some a))"

text \<open>\<open>&container_id[..container_id.len().min(n)]\<close>\<close>

definition id_prefix :: "nat \<Rightarrow> string \<Rightarrow> string cmd" where
  "id_prefix n cid =
     (case str_to (min (length cid) n) cid of
        None \<Rightarrow> throw (Panic ''byte index is not a char boundary'') | Some s \<Rightarrow> ret s)"

definition attach_tracepoint :: "env \<Rightarrow> kern \<Rightarrow> guest_policy \<Rightarrow> nat option cmd" where
  "attach_tracepoint E K pol =
     (case tracepoint_attach pol of
        Some tp \<Rightarrow>
          bindE (id_prefix 8 (container_id pol)) (\<lambda>s.
          or_none (load_guest_bpf_prog E K (object_path pol) (''gtp-'' @ s) BPF_PROG_TYPE_TRACEPOINT))
      | None \<Rightarrow>
          bindE (id_prefix 6 (container_id pol)) (\<lambda>s.
          or_none (load_guest_bpf_prog E K (object_path pol) (''gprobe-'' @ s) BPF_PROG_TYPE_TRACEPOINT)))"

definition attach_cgroup :: "env \<Rightarrow> kern \<Rightarrow> guest_policy \<Rightarrow> nat option cmd" where
  "attach_cgroup E K pol =
     (case cgroup_path pol of
        None \<Rightarrow> ret None
      | Some cg \<Rightarrow>
          bindE (id_prefix 8 (container_id pol)) (\<lambda>s.
          or_none (load_guest_bpf_prog E K (object_path pol) (''gskb-'' @ s) BPF_PROG_TYPE_CGROUP_SKB)))"

definition attach_pin :: "env \<Rightarrow> kern \<Rightarrow> string \<Rightarrow> nat option \<Rightarrow> pathbuf option cmd" where
  "attach_pin E K cid fd =
     (case fd of
        None \<Rightarrow> ret None
      | Some f \<Rightarrow>
          (let p = guest_bpf_pin_path cid ''tracepoint'' in
           bindE (or_none (pin_guest_bpf_prog E K f p)) (\<lambda>r.
           ret (case r of None \<Rightarrow> None | Some u \<Rightarrow> Some p))))"

definition guest_attach :: "env \<Rightarrow> kern \<Rightarrow> guest_policy \<Rightarrow> guest_loader cmd" where
  "guest_attach E K pol =
     bindE (attach_tracepoint E K pol) (\<lambda>tp.
     bindE (attach_cgroup E K pol) (\<lambda>cg.
     bindE (attach_pin E K (container_id pol) tp) (\<lambda>pin.
     ret \<lparr>gl_container_id = container_id pol, gl_attached = (tp \<noteq> None \<or> cg \<noteq> None),
          tracepoint_fd = tp, tracepoint_pin = pin, cgroup_skb_fd = cg, attached_at = rfc3339_now E\<rparr>)))"

section \<open>Audit and detach\<close>

definition audit_json :: "env \<Rightarrow> guest_loader \<Rightarrow> guest_audit_event \<Rightarrow> string option \<Rightarrow> json" where
  "audit_json E l ev detail =
     JObj [(''event'', JStr ''guest_ebpf.audit''), (''container_id'', JStr (gl_container_id l)),
           (''event_type'', JStr (audit_name ev)),
           (''source'', JStr (if gl_attached l then ''bpf'' else ''synthetic'')),
           (''detail'', JStr (unwrap_or detail [])), (''timestamp'', JStr (rfc3339_now E))]"

definition emit_audit_event :: "env \<Rightarrow> guest_loader \<Rightarrow> guest_audit_event \<Rightarrow> string option \<Rightarrow> unit cmd" where
  "emit_audit_event E l ev detail = modify (\<lambda>w. w\<lparr>trace := trace w @ [audit_json E l ev detail]\<rparr>)"

definition close_opt :: "nat option \<Rightarrow> unit cmd" where
  "close_opt fd = (case fd of None \<Rightarrow> ret () | Some f \<Rightarrow> sys_close f)"

definition unpin_guest :: "env \<Rightarrow> pathbuf \<Rightarrow> unit cmd" where
  "unpin_guest E p = bindE (remove_file E p) (\<lambda>_. remove_parent_dir E p)"

definition guest_detach :: "env \<Rightarrow> guest_loader \<Rightarrow> unit cmd" where
  "guest_detach E l =
     bindE (close_opt (tracepoint_fd l)) (\<lambda>_.
     bindE (close_opt (cgroup_skb_fd l)) (\<lambda>_.
     (case tracepoint_pin l of
        None \<Rightarrow> ret () | Some p \<Rightarrow> bindE (attempt (unpin_guest E p)) (\<lambda>r. ret ()))))"

section \<open>Laws\<close>

lemma unpin_guest_Inr:
  assumes "tlookup (fs w) (resolve p) = Some Special" and "unpin_guest E p w = (Inr u, w')" and "resolve p \<noteq> []"
  shows "tlookup (fs w') (resolve p) = None"
proof -
  obtain w1 where 1: "remove_file E p w = (Inr (), w1)" and 2: "remove_parent_dir E p w1 = (Inr (), w')"
    using assms(2) by (auto simp: unpin_guest_def runs)
  have "tlookup (fs w1) (resolve p) = None"
    using remove_file_Inr [OF 1] assms(3) by (simp add: tlookup_tdel_None)
  with 2 show ?thesis by (rule remove_parent_dir_absent)
qed

lemma keeps_fs_blind_unpin_guest: "fs_blind P \<Longrightarrow> keeps P (unpin_guest E p)"
  unfolding unpin_guest_def by (intro keeps_intros keeps_fs_blind keeps_fs_blind_pin)

interpretation guest_pins: pin_store "pin_guest_bpf_prog E K" "unpin_guest E" for E K
  unfolding guest_pin_same
  by unfold_locales (auto intro: pin_bpf_prog_Inr unpin_guest_Inr keeps_fs_blind_pin keeps_fs_blind_unpin_guest)

lemma or_none_run:
  "or_none m w = (r, w') \<longleftrightarrow>
     (\<exists>q. m w = (q, w') \<and> r = (case q of Inl e \<Rightarrow> (if is_panic e then Inl e else Inr None) | Inr a \<Rightarrow> Inr (Some a)))"
  by (auto simp: or_none_def io_defs split: prod.splits sum.splits if_splits)

lemma or_none_Inr:
  "or_none m w = (Inr x, w') \<longleftrightarrow>
     (\<exists>e. m w = (Inl e, w') \<and> \<not> is_panic e \<and> x = None) \<or> (\<exists>a. m w = (Inr a, w') \<and> x = Some a)"
  by (auto simp: or_none_def io_defs split: prod.splits sum.splits if_splits)

lemma id_prefix_run:
  "id_prefix n cid w = (r, w') \<longleftrightarrow>
     w' = w \<and> r = (case str_to (min (length cid) n) cid of
                     None \<Rightarrow> Inl (Panic ''byte index is not a char boundary'') | Some s \<Rightarrow> Inr s)"
  by (auto simp: id_prefix_def io_defs split: option.splits)

text \<open>Loading adds at most the descriptor it returns.\<close>

lemma load_guest_run:
  assumes "load_guest_bpf_prog E K obj name ty w = (r, w')"
  shows "w' = (case r of Inl e \<Rightarrow> w | Inr fd \<Rightarrow> w\<lparr>open_fds := open_fds w @ [fd]\<rparr>)"
proof (cases r)
  case (Inl e)
  then show ?thesis
    using assms by (auto simp: load_guest_bpf_prog_def runs dest!: fs_read_state sys_bpf_load_Inl split: option.splits prod.splits)
next
  case (Inr fd)
  then show ?thesis
    using assms by (auto simp: load_guest_bpf_prog_def runs sys_bpf_load_Inr dest!: fs_read_state split: option.splits prod.splits)
qed

definition with_fd :: "nat option \<Rightarrow> world \<Rightarrow> world" where
  "with_fd fd w = w\<lparr>open_fds := open_fds w @ (case fd of None \<Rightarrow> [] | Some f \<Rightarrow> [f])\<rparr>"

lemma or_none_load:
  "or_none (load_guest_bpf_prog E K obj name ty) w = (Inr fd, w') \<Longrightarrow> w' = with_fd fd w"
  by (auto simp: or_none_Inr with_fd_def dest!: load_guest_run)

lemma attach_tracepoint_Inr: "attach_tracepoint E K pol w = (Inr fd, w') \<Longrightarrow> w' = with_fd fd w"
  by (auto simp: attach_tracepoint_def runs id_prefix_run dest!: or_none_load split: option.splits)

lemma attach_cgroup_Inr: "attach_cgroup E K pol w = (Inr fd, w') \<Longrightarrow> w' = with_fd fd w"
  by (auto simp: attach_cgroup_def runs id_prefix_run with_fd_def [of None] dest!: or_none_load split: option.splits)

lemma load_guest_fresh:
  "fd_fresh K \<Longrightarrow> load_guest_bpf_prog E K obj name ty w = (Inr fd, w') \<Longrightarrow> fd \<notin> set (open_fds w)"
  by (auto simp: load_guest_bpf_prog_def runs sys_bpf_load_Inr fd_fresh_def dest!: fs_read_state split: option.splits prod.splits)

lemma attach_fresh:
  assumes "fd_fresh K"
  shows "attach_tracepoint E K pol w = (Inr (Some fd), w') \<Longrightarrow> fd \<notin> set (open_fds w)"
    "attach_cgroup E K pol w = (Inr (Some fd), w') \<Longrightarrow> fd \<notin> set (open_fds w)"
  using load_guest_fresh [OF assms]
  by (auto simp: attach_tracepoint_def attach_cgroup_def runs id_prefix_run or_none_Inr split: option.splits)

lemma attach_pin_Inr:
  assumes "attach_pin E K cid fd w = (Inr pin, w')"
  shows "case pin of
     None \<Rightarrow> fd = None \<and> w' = w \<or> (\<exists>f e. fd = Some f \<and> pin_guest_bpf_prog E K f (guest_bpf_pin_path cid ''tracepoint'') w = (Inl e, w'))
   | Some p \<Rightarrow> p = guest_bpf_pin_path cid ''tracepoint'' \<and> (\<exists>f. fd = Some f \<and> pin_guest_bpf_prog E K f p w = (Inr (), w'))"
  using assms by (auto simp: attach_pin_def Let_def runs or_none_Inr split: option.splits)

lemma attach_pin_frame: "fs_blind P \<Longrightarrow> keeps P (attach_pin E K cid fd)"
  unfolding attach_pin_def Let_def or_none_def
  by (intro keeps_intros guest_pins.pin_frame)

text \<open>What attaching leaves: the descriptors of the loader last in the table, and the pin on disk.\<close>

lemma guest_attach_Inr:
  assumes run: "guest_attach E K pol w = (Inr l, w')" and fresh: "fd_fresh K"
  shows "gl_container_id l = container_id pol"
    "open_fds w' = open_fds w @ (case tracepoint_fd l of None \<Rightarrow> [] | Some f \<Rightarrow> [f])
                              @ (case cgroup_skb_fd l of None \<Rightarrow> [] | Some f \<Rightarrow> [f])"
    "tracepoint_fd l = Some f \<Longrightarrow> f \<notin> set (open_fds w)"
    "cgroup_skb_fd l = Some g \<Longrightarrow> g \<notin> set (open_fds w) \<and> tracepoint_fd l \<noteq> Some g"
    "tracepoint_pin l = Some p \<Longrightarrow> p = guest_bpf_pin_path (container_id pol) ''tracepoint'' \<and>
       tracepoint_fd l \<noteq> None \<and> tlookup (fs w') (resolve p) = Some Special"
    "gl_attached l \<longleftrightarrow> tracepoint_fd l \<noteq> None \<or> cgroup_skb_fd l \<noteq> None"
proof -
  obtain tp w1 cg w2 pin
    where 1: "attach_tracepoint E K pol w = (Inr tp, w1)" and 2: "attach_cgroup E K pol w1 = (Inr cg, w2)"
      and 3: "attach_pin E K (container_id pol) tp w2 = (Inr pin, w')"
      and l: "l = \<lparr>gl_container_id = container_id pol, gl_attached = (tp \<noteq> None \<or> cg \<noteq> None),
          tracepoint_fd = tp, tracepoint_pin = pin, cgroup_skb_fd = cg, attached_at = rfc3339_now E\<rparr>"
    using run by (auto simp: guest_attach_def runs)
  have w1: "w1 = with_fd tp w" using 1 by (rule attach_tracepoint_Inr)
  have w2: "w2 = with_fd cg w1" using 2 by (rule attach_cgroup_Inr)
  have w': "open_fds w' = open_fds w2"
    using keepsD [OF attach_pin_frame [of "\<lambda>v. open_fds v = open_fds w2"] 3] by (simp add: fs_blind_def)
  show "gl_container_id l = container_id pol" "gl_attached l \<longleftrightarrow> tracepoint_fd l \<noteq> None \<or> cgroup_skb_fd l \<noteq> None"
    using l by auto
  show "open_fds w' = open_fds w @ (case tracepoint_fd l of None \<Rightarrow> [] | Some f \<Rightarrow> [f])
                              @ (case cgroup_skb_fd l of None \<Rightarrow> [] | Some f \<Rightarrow> [f])"
    using w' w2 w1 l by (simp add: with_fd_def)
  show "f \<notin> set (open_fds w)" if "tracepoint_fd l = Some f"
    using attach_fresh(1) [OF fresh, of E pol w f w1] 1 that l by simp
  show "g \<notin> set (open_fds w) \<and> tracepoint_fd l \<noteq> Some g" if "cgroup_skb_fd l = Some g"
    using attach_fresh(2) [OF fresh, of E pol w1 g w2] 2 that l w1 by (auto simp: with_fd_def)
  show "p = guest_bpf_pin_path (container_id pol) ''tracepoint'' \<and> tracepoint_fd l \<noteq> None \<and>
      tlookup (fs w') (resolve p) = Some Special" if "tracepoint_pin l = Some p"
    using attach_pin_Inr [OF 3] that l guest_pins.pinned by fastforce
qed

text \<open>Detaching never fails, closes the loader's descriptors and removes the pin unless refused.\<close>

lemma guest_detach_run:
  assumes "guest_detach E l w = (r, w')"
  shows "r = Inr ()"
    "open_fds w' = (case cgroup_skb_fd l of None \<Rightarrow> id | Some g \<Rightarrow> remove1 g)
                     ((case tracepoint_fd l of None \<Rightarrow> id | Some f \<Rightarrow> remove1 f) (open_fds w))"
    "tracepoint_pin l = Some p \<Longrightarrow> tlookup (fs w) (resolve p) = Some Special \<Longrightarrow> resolve p \<noteq> [] \<Longrightarrow>
       (\<And>v. fault E RemoveFile p v = None) \<Longrightarrow> tlookup (fs w') (resolve p) = None"
proof -
  define fds where "fds = (case cgroup_skb_fd l of None \<Rightarrow> id | Some g \<Rightarrow> remove1 g)
                     ((case tracepoint_fd l of None \<Rightarrow> id | Some f \<Rightarrow> remove1 f) (open_fds w))"
  define v where "v = w\<lparr>open_fds := fds\<rparr>"
  have rest: "(case tracepoint_pin l of
        None \<Rightarrow> ret () | Some p \<Rightarrow> bindE (attempt (unpin_guest E p)) (\<lambda>r. ret ())) v = (r, w')"
    using assms unfolding guest_detach_def close_opt_def sys_close_def v_def fds_def
    by (auto simp: io_defs split: option.splits)
  show r: "r = Inr ()" using rest by (auto simp: io_defs split: option.splits prod.splits)
  have "keeps (\<lambda>x. open_fds x = fds) (case tracepoint_pin l of
        None \<Rightarrow> ret () | Some p \<Rightarrow> bindE (attempt (unpin_guest E p)) (\<lambda>r. ret ()))"
    by (intro keeps_intros guest_pins.unpin_frame) (simp add: fs_blind_def)
  from keepsD [OF this rest] show "open_fds w' = (case cgroup_skb_fd l of None \<Rightarrow> id | Some g \<Rightarrow> remove1 g)
                     ((case tracepoint_fd l of None \<Rightarrow> id | Some f \<Rightarrow> remove1 f) (open_fds w))"
    by (simp add: v_def fds_def)
  assume p: "tracepoint_pin l = Some p" and sp: "tlookup (fs w) (resolve p) = Some Special" and ne: "resolve p \<noteq> []"
    and ok: "\<And>v. fault E RemoveFile p v = None"
  obtain q where q: "unpin_guest E p v = (q, w')" using rest p by (auto simp: io_defs split: prod.splits)
  have "remove_file E p v = (Inr (), v\<lparr>fs := tdel (resolve p) (fs v)\<rparr>)"
    using sp ok by (simp add: remove_file_def Let_def v_def)
  then have "q = Inr ()"
    using q by (auto simp: unpin_guest_def remove_parent_dir_def io_defs split: option.splits prod.splits)
  moreover have "tlookup (fs v) (resolve p) = Some Special" using sp by (simp add: v_def)
  ultimately show "tlookup (fs w') (resolve p) = None"
    using q ne guest_pins.unpinned [of v p] by simp
qed

end
