(* ===== verification/Exec.thy ===== *)
theory Exec
  imports ContainerRuntime GuestEbpf Discard
begin

text \<open>
  \<open>fastenv exec\<close> (src/exec.rs): options and CPU specifications, the choice of the leases that are
  still valid, the OCI configuration and its JSON form, and the pipeline around the container: the
  temporary bundle, the guest BPF loader, the crun backend and the audit events.
\<close>

section \<open>Options\<close>

datatype cpu_spec = Shares u64 | Cpuset string

datatype guest_network_mode = HostNet | NoNet | PackageMirrorOnly | Allowlist | AuditedEgress

definition requires_netns :: "guest_network_mode \<Rightarrow> bool" where
  "requires_netns m \<longleftrightarrow> m \<noteq> HostNet"

definition mode_name :: "guest_network_mode \<Rightarrow> string" where
  "mode_name m = (case m of HostNet \<Rightarrow> ''host'' | NoNet \<Rightarrow> ''none'' | PackageMirrorOnly \<Rightarrow> ''package-mirror-only''
     | Allowlist \<Rightarrow> ''allowlist'' | AuditedEgress \<Rightarrow> ''audited-egress'')"

record exec_options =
  crun_path :: pathbuf
  opt_cpu :: "cpu_spec option"
  opt_memory :: "u64 option"
  opt_network :: guest_network_mode
  secret_leases :: "secret_lease list"

definition default_exec_options :: exec_options where
  "default_exec_options = \<lparr>crun_path = ''/usr/bin/crun'', opt_cpu = None, opt_memory = None,
     opt_network = HostNet, secret_leases = []\<rparr>"

definition parse_cpu_spec :: "string \<Rightarrow> error + cpu_spec" where
  "parse_cpu_spec s =
     (if CHR ''-'' \<in> set s \<or> CHR '','' \<in> set s then Inr (Cpuset s)
      else case parse_u64 s of None \<Rightarrow> Inl (Bail ''invalid cpu shares'') | Some n \<Rightarrow> Inr (Shares n))"

text \<open>The leases injected: those whose expiry parses and lies in the future.\<close>

definition lease_active :: "env \<Rightarrow> secret_lease \<Rightarrow> bool" where
  "lease_active E l \<longleftrightarrow> (case parse_time E (expires_at l) of None \<Rightarrow> False | Some t \<Rightarrow> \<not> t \<le> now_nanos E)"

definition active_leases :: "env \<Rightarrow> secret_lease list \<Rightarrow> secret_lease list" where
  "active_leases E ls = filter (lease_active E) ls"

section \<open>OCI configuration\<close>

record oci_process =
  oci_terminal :: bool
  oci_uid :: u32
  oci_gid :: u32
  oci_args :: "string list"
  oci_env :: "string list"
  oci_cwd :: string

record oci_mount =
  oci_destination :: string
  oci_mount_type :: string
  oci_source :: string
  oci_options :: "string list"

record oci_namespace =
  ns_type :: string
  ns_path :: "string option"

record oci_resources =
  res_cpu :: "(u64 option \<times> string option) option"
  res_memory :: "int option option"

record oci_config =
  oci_version :: string
  oci_process :: oci_process
  oci_root_path :: string
  oci_root_readonly :: bool
  oci_mounts :: "oci_mount list"
  oci_namespaces :: "oci_namespace list"
  oci_resources :: "oci_resources option"
  oci_annotations :: "(string \<times> string) list"

text \<open>\<open>BTreeMap::insert\<close>: the entries stay sorted by key.\<close>

fun bt_insert :: "string \<Rightarrow> string \<Rightarrow> (string \<times> string) list \<Rightarrow> (string \<times> string) list" where
  "bt_insert k v [] = [(k, v)]"
| "bt_insert k v ((a, b) # r) =
     (if k = a then (k, v) # r else if k < a then (k, v) # (a, b) # r else (a, b) # bt_insert k v r)"

definition oci_annotations_of :: "guest_network_mode \<Rightarrow> (string \<times> string) list" where
  "oci_annotations_of m =
     (let base = bt_insert ''fastenv.guest.policy-plane'' ''guest''
                   (bt_insert ''fastenv.guest.network-mode'' (mode_name m) [])
      in case m of
           NoNet \<Rightarrow> bt_insert ''fastenv.guest.network.egress'' ''blocked'' base
         | PackageMirrorOnly \<Rightarrow> bt_insert ''fastenv.guest.network.egress'' ''restricted''
             (bt_insert ''fastenv.guest.network.purpose'' ''package-mirror'' base)
         | Allowlist \<Rightarrow> bt_insert ''fastenv.guest.network.egress'' ''restricted''
             (bt_insert ''fastenv.guest.network.purpose'' ''allowlist'' base)
         | AuditedEgress \<Rightarrow> bt_insert ''fastenv.guest.network.egress'' ''audited''
             (bt_insert ''fastenv.guest.network.purpose'' ''audited-egress'' base)
         | HostNet \<Rightarrow> bt_insert ''fastenv.guest.policy-loader'' ''deferred'' base)"

definition oci_namespaces_of :: "guest_network_mode \<Rightarrow> oci_namespace list" where
  "oci_namespaces_of m =
     [\<lparr>ns_type = ''pid'', ns_path = None\<rparr>, \<lparr>ns_type = ''mount'', ns_path = None\<rparr>] @
     (if requires_netns m then [\<lparr>ns_type = ''network'', ns_path = None\<rparr>] else [])"

definition oci_resources_of :: "exec_options \<Rightarrow> oci_resources option" where
  "oci_resources_of opts =
     (if opt_cpu opts \<noteq> None \<or> opt_memory opts \<noteq> None
      then Some \<lparr>res_cpu = map_option (\<lambda>c. case c of Shares s \<Rightarrow> (Some s, None) | Cpuset cs \<Rightarrow> (None, Some cs)) (opt_cpu opts),
                 res_memory = map_option (\<lambda>m. Some (sint m)) (opt_memory opts)\<rparr>
      else None)"

definition lease_env :: "secret_lease \<Rightarrow> string" where
  "lease_env l = secret_name l @ CHR ''='' # secret_value l"

definition base_path_env :: string where
  "base_path_env = ''PATH=/usr/local/sbin:/usr/local/bin:/usr/sbin:/usr/bin:/sbin:/bin''"

definition oci_mounts_all :: "oci_mount list" where
  "oci_mounts_all =
     [\<lparr>oci_destination = ''/proc'', oci_mount_type = ''proc'', oci_source = ''proc'', oci_options = []\<rparr>,
      \<lparr>oci_destination = ''/dev'', oci_mount_type = ''tmpfs'', oci_source = ''tmpfs'',
       oci_options = [''nosuid'', ''strictatime'', ''mode=755'', ''size=65536k'']\<rparr>,
      \<lparr>oci_destination = ''/sys'', oci_mount_type = ''sysfs'', oci_source = ''sysfs'',
       oci_options = [''nosuid'', ''noexec'', ''nodev'', ''ro'']\<rparr>]"

definition build_oci_config :: "string list \<Rightarrow> pathbuf \<Rightarrow> exec_options \<Rightarrow> secret_lease list \<Rightarrow> oci_config" where
  "build_oci_config command merged opts leases =
     \<lparr>oci_version = ''1.0.0'',
      oci_process = \<lparr>oci_terminal = False, oci_uid = 0, oci_gid = 0, oci_args = command,
                     oci_env = base_path_env # map lease_env leases, oci_cwd = ''/''\<rparr>,
      oci_root_path = merged, oci_root_readonly = False, oci_mounts = oci_mounts_all,
      oci_namespaces = oci_namespaces_of (opt_network opts), oci_resources = oci_resources_of opts,
      oci_annotations = oci_annotations_of (opt_network opts)\<rparr>"

section \<open>Its JSON form\<close>

definition opt_field :: "string \<Rightarrow> ('a \<Rightarrow> json) \<Rightarrow> 'a option \<Rightarrow> (string \<times> json) list" where
  "opt_field k f x = (case x of None \<Rightarrow> [] | Some a \<Rightarrow> [(k, f a)])"

definition oci_mount_json :: "oci_mount \<Rightarrow> json" where
  "oci_mount_json m =
     JObj ([(''destination'', JStr (oci_destination m)), (''type'', JStr (oci_mount_type m)),
            (''source'', JStr (oci_source m))] @
           (if oci_options m = [] then [] else [(''options'', JArr (map JStr (oci_options m)))]))"

definition oci_resources_json :: "oci_resources \<Rightarrow> json" where
  "oci_resources_json r =
     JObj (opt_field ''cpu'' (\<lambda>(s, c). JObj (opt_field ''shares'' (\<lambda>x. JNum (uint x)) s @ opt_field ''cpus'' JStr c)) (res_cpu r) @
           opt_field ''memory'' (\<lambda>l. JObj (opt_field ''limit'' JNum l)) (res_memory r))"

definition oci_json :: "oci_config \<Rightarrow> json" where
  "oci_json c =
     JObj [(''ociVersion'', JStr (oci_version c)),
       (''process'', JObj [(''terminal'', JBool (oci_terminal (oci_process c))),
          (''user'', JObj [(''uid'', JNum (uint (oci_uid (oci_process c)))), (''gid'', JNum (uint (oci_gid (oci_process c))))]),
          (''args'', JArr (map JStr (oci_args (oci_process c)))),
          (''env'', JArr (map JStr (oci_env (oci_process c)))), (''cwd'', JStr (oci_cwd (oci_process c)))]),
       (''root'', JObj [(''path'', JStr (oci_root_path c)), (''readonly'', JBool (oci_root_readonly c))]),
       (''mounts'', JArr (map oci_mount_json (oci_mounts c))),
       (''linux'', JObj ([(''namespaces'', JArr (map (\<lambda>n. JObj ((''type'', JStr (ns_type n)) # opt_field ''path'' JStr (ns_path n)))
             (oci_namespaces c)))] @ opt_field ''resources'' oci_resources_json (oci_resources c))),
       (''annotations'', JObj (map (\<lambda>(k, v). (k, JStr v)) (oci_annotations c)))]"

section \<open>The pipeline\<close>

text \<open>A temporary directory of a fresh name, removed when it goes out of scope, whatever happened.\<close>

definition make_tempdir :: "env \<Rightarrow> (world \<Rightarrow> pathbuf) \<Rightarrow> pathbuf cmd" where
  "make_tempdir E tmp = (\<lambda>w.
     let p = tmp w in
     case fault E TempFile p w of
       Some e \<Rightarrow> (Inl (IoError TempFile p e), w)
     | None \<Rightarrow> (case tset (resolve p) (Dir []) (fs w) of
           None \<Rightarrow> (Inl (IoError TempFile p ENOENT), w)
         | Some t \<Rightarrow> (Inr p, w\<lparr>fs := t\<rparr>)))"

definition with_tempdir :: "env \<Rightarrow> (world \<Rightarrow> pathbuf) \<Rightarrow> (pathbuf \<Rightarrow> 'a cmd) \<Rightarrow> 'a cmd" where
  "with_tempdir E tmp body =
     bindE (make_tempdir E tmp) (\<lambda>p w. case body p w of (r, w') \<Rightarrow> (r, snd (remove_dir_all E p w')))"

definition fs_write_json :: "env \<Rightarrow> pathbuf \<Rightarrow> json \<Rightarrow> unit cmd" where
  "fs_write_json E p j =
     bindE (place_file E CreateFile (IoError CreateFile p) p (Raw [])) (\<lambda>_.
     bindE (may_fail E WriteData p) (\<lambda>_.
     place_file E WriteData (IoError WriteData p) p (JsonDoc j)))"

definition exit_detail :: "int \<Rightarrow> string" where
  "exit_detail c = ''container_exited:exit_code='' @ (if c < 0 then CHR ''-'' # show_nat (nat (- c)) else show_nat (nat c))"

definition exec_in_bundle :: "env \<Rightarrow> kern \<Rightarrow> container_host \<Rightarrow> string \<Rightarrow> string list \<Rightarrow> pathbuf \<Rightarrow> exec_options \<Rightarrow> pathbuf \<Rightarrow> int cmd" where
  "exec_in_bundle E K C fork_id command merged opts bundle =
     bindE (fs_write_json E (join bundle ''config.json'')
              (oci_json (build_oci_config command merged opts (active_leases E (secret_leases opts))))) (\<lambda>_.
     bindE (guest_attach E K (for_container fork_id)) (\<lambda>loader.
     bindE (crun_create fork_id bundle) (\<lambda>_.
     bindE (crun_start C (crun_path opts) fork_id bundle) (\<lambda>code.
     bindE (crun_delete fork_id) (\<lambda>_.
     bindE (whenE (opt_network opts = AuditedEgress)
              (emit_audit_event E loader NetworkEgress (Some ''container_exited''))) (\<lambda>_.
     bindE (emit_audit_event E loader FileWrite (Some (exit_detail code))) (\<lambda>_.
     bindE (guest_detach E loader) (\<lambda>_.
     ret code))))))))"

definition run_exec :: "env \<Rightarrow> kern \<Rightarrow> container_host \<Rightarrow> (world \<Rightarrow> pathbuf) \<Rightarrow> string \<Rightarrow> string list \<Rightarrow> pathbuf \<Rightarrow> exec_options \<Rightarrow> int cmd" where
  "run_exec E K C tmp fork_id command root opts =
     (if command = [] then throw (Bail ''exec: no command specified'')
      else
        bindE (lookup_fork E fork_id root) (\<lambda>e.
        case merged_path e of
          None \<Rightarrow> throw (NoMergedPath fork_id)
        | Some m \<Rightarrow>
            bindE (asks (path_exists m)) (\<lambda>x.
            if \<not> x then throw (MergedMissing m fork_id)
            else with_tempdir E tmp (exec_in_bundle E K C fork_id command m opts))))"

end
