(* ===== verification/ExecLaws.thy ===== *)
theory ExecLaws
  imports Exec
begin

text \<open>
  What a run of \<open>fastenv exec\<close> amounts to: what the container is given, what is left when it has
  ended, and what is left when it could not be started.
\<close>

section \<open>Parent directories\<close>

lemma split_on_join:
  "\<not> is_absolute s \<Longrightarrow> p \<noteq> [] \<Longrightarrow> last p \<noteq> slash \<Longrightarrow> split_on slash (join p s) = split_on slash p @ split_on slash s"
  by (simp add: join_def split_on_append)

lemma resolve_parent:
  assumes abs: "is_absolute p" and dots: "''..'' \<notin> set (split_on slash p)" and par: "path_parent p = Some d"
  shows "resolve d = butlast (resolve p)"
proof -
  let ?named = "filter (\<lambda>c. c \<noteq> [] \<and> c \<noteq> ''.'')"
  define ns where "ns = ?named (split_on slash p)"
  have cs: "comps p = [slash] # ns" using abs by (simp add: comps_def Let_def ns_def)
  have ne: "ns \<noteq> []" and d: "d = slash # str_join [slash] (butlast ns)"
    using par cs abs by (auto simp: path_parent_def Let_def split: if_splits)
  have names: "\<forall>c\<in>set ns. c \<noteq> [] \<and> c \<noteq> ''.'' \<and> c \<noteq> ''..'' \<and> slash \<notin> set c"
    using dots by (auto simp: ns_def split_on_def dest: split_by_pieces)
  have p: "resolve p = ns" using resolve_no_dotdot [OF dots] by (simp add: ns_def)
  have sp: "split_on slash d = [] # split_on slash (str_join [slash] (butlast ns))"
    using split_on_append [of slash "[]"] by (simp add: d)
  show ?thesis
  proof (cases "butlast ns = []")
    case True
    then show ?thesis by (simp add: p resolve_def [of d] sp)
  next
    case False
    have "split_on slash (str_join [slash] (butlast ns)) = butlast ns"
      using names False by (intro split_on_str_join) (auto dest: in_set_butlastD)
    moreover have "filter (\<lambda>c. c \<noteq> [] \<and> c \<noteq> ''.'') (butlast ns) = butlast ns"
      using names by (auto intro!: filter_True dest: in_set_butlastD)
    moreover have "''..'' \<notin> set (butlast ns)" using names by (auto dest: in_set_butlastD)
    ultimately show ?thesis by (simp add: p resolve_def [of d] sp norm_no_dotdot)
  qed
qed

section \<open>Where the guest's pin lies\<close>

lemma guest_pin_path:
  assumes "seg_ok k"
  shows "resolve (guest_bpf_pin_path k ''tracepoint'') = [''sys'', ''fs'', ''bpf'', ''fastenv-guest'', k, ''tracepoint'']"
    "path_parent (guest_bpf_pin_path k ''tracepoint'') = Some d \<Longrightarrow>
       resolve d = [''sys'', ''fs'', ''bpf'', ''fastenv-guest'', k]"
proof -
  let ?a = "join ''/sys/fs/bpf'' ''fastenv-guest''" and ?t = "''tracepoint''"
  have a: "?a = ''/sys/fs/bpf/fastenv-guest''" by code_simp
  have ra: "resolve ''/sys/fs/bpf/fastenv-guest'' = [''sys'', ''fs'', ''bpf'', ''fastenv-guest'']" by code_simp
  have t: "seg_ok ?t" by (simp add: seg_ok_def)
  show r: "resolve (guest_bpf_pin_path k ?t) = [''sys'', ''fs'', ''bpf'', ''fastenv-guest'', k, ?t]"
    using assms t by (simp add: guest_bpf_pin_path_def a resolve_join ra)
  have k: "\<not> is_absolute k" "k \<noteq> []" "slash \<notin> set k" "k \<noteq> ''..''"
    using assms by (auto simp: seg_ok_not_absolute seg_ok_def)
  have j: "join ?a k = ''/sys/fs/bpf/fastenv-guest/'' @ k" unfolding a using k by (simp add: join_def)
  have lk: "last ((''/sys/fs/bpf/fastenv-guest/'' @ k) :: string) \<noteq> slash" using k by (metis last_appendR last_in_set)
  have "split_on slash (join (join ?a k) ?t) = split_on slash (''/sys/fs/bpf/fastenv-guest/'' @ k) @ [?t]"
    using split_on_join [of ?t "''/sys/fs/bpf/fastenv-guest/'' @ k"] lk
    by (simp add: j is_absolute_def split_on_none)
  moreover have "split_on slash (''/sys/fs/bpf/fastenv-guest'' @ slash # k) =
      split_on slash ''/sys/fs/bpf/fastenv-guest'' @ [k]"
    using k by (simp add: split_on_append split_on_none del: append.simps)
  moreover have "split_on slash ''/sys/fs/bpf/fastenv-guest'' = [[], ''sys'', ''fs'', ''bpf'', ''fastenv-guest'']"
    by code_simp
  ultimately have sp: "split_on slash (guest_bpf_pin_path k ?t) = [[], ''sys'', ''fs'', ''bpf'', ''fastenv-guest'', k, ?t]"
    by (simp add: guest_bpf_pin_path_def)
  have abs: "is_absolute (guest_bpf_pin_path k ?t)"
    using lk by (simp add: guest_bpf_pin_path_def j join_def is_absolute_def)
  have "''..'' \<notin> set (split_on slash (guest_bpf_pin_path k ?t))" unfolding sp using k by simp
  then show "resolve d = [''sys'', ''fs'', ''bpf'', ''fastenv-guest'', k]"
    if "path_parent (guest_bpf_pin_path k ?t) = Some d"
    using resolve_parent [OF abs _ that] r by simp
qed

text \<open>Attaching changes nothing beside the pin and what lies above it.\<close>

lemma keeps_attach_elsewhere:
  assumes k: "seg_ok (container_id pol)" and q: "resolve (guest_bpf_pin_path (container_id pol) ''tracepoint'') \<parallel> q"
  shows "keeps (\<lambda>v. tlookup (fs v) q = x) (guest_attach E K pol)"
proof -
  let ?p = "guest_bpf_pin_path (container_id pol) ''tracepoint''" and ?P = "\<lambda>v::world. tlookup (fs v) q = x"
  have pin: "keeps ?P (sys_bpf_pin K f ?p)" for f
    using q by (auto simp: keeps_def sys_bpf_pin_def tset_parallel split: option.splits)
  have dir: "keeps ?P (create_dir_all E d)" if "path_parent ?p = Some d" for d
  proof (rule keeps_create_dir_other)
    have "resolve d = butlast (resolve ?p)"
      using guest_pin_path [OF k] that by simp
    then have "prefix (resolve d) (resolve ?p)" by (metis append_butlast_last_id butlast.simps(1) prefixI prefix_order.refl)
    then show "\<not> prefix q (resolve d)" using q by (meson parallel_not_prefix parallel_sym prefix_order.trans parallelE)
  qed
  have fds: "fds_blind ?P" by (simp add: fds_blind_def)
  have load: "keeps ?P (load_guest_bpf_prog E K obj name ty)" for obj name ty
    unfolding load_guest_bpf_prog_def by (intro keeps_intros keeps_fds_blind fds)
  show ?thesis
    unfolding guest_attach_def attach_tracepoint_def attach_cgroup_def attach_pin_def or_none_def id_prefix_def
      pin_guest_bpf_prog_def Let_def
    by (intro keeps_intros load pin dir)
qed

section \<open>Frames\<close>

text \<open>What the program relies on of a child: it cannot reach this process's descriptors or log, and it
  runs in a mount namespace of its own.\<close>

definition child_ok :: "container_host \<Rightarrow> bool" where
  "child_ok C \<longleftrightarrow> (\<forall>p args w r w'. spawn_wait C p args w = (r, w') \<longrightarrow>
     open_fds w' = open_fds w \<and> trace w' = trace w \<and> mtab w' = mtab w)"

lemma crun_start_child:
  "child_ok C \<Longrightarrow> crun_start C crun k b w = (r, w') \<Longrightarrow>
   open_fds w' = open_fds w \<and> trace w' = trace w \<and> mtab w' = mtab w"
  by (auto simp: crun_start_def child_ok_def split: prod.splits sum.splits)

lemma crun_create_state: "crun_create k b w = (r, w') \<Longrightarrow> w' = w"
  by (cases r) (auto simp: crun_create_def runs split: if_splits)

lemma keeps_lookup_any:
  assumes "keeps P (create_dir_all E root)"
  shows "keeps P (lookup_fork E k root)"
  unfolding lookup_fork_def registry_open_def by (intro keeps_intros keeps_get assms)

lemma keeps_write_json:
  assumes "fs_blind P"
  shows "keeps P (fs_write_json E p j)"
  unfolding fs_write_json_def by (intro keeps_intros keeps_fs_blind assms)

lemma fs_write_json_Inr:
  assumes "fs_write_json E p j w = (Inr u, w')"
  shows "tlookup (fs w') (resolve p) = Some (RegFile (JsonDoc j)) \<and> (\<exists>t. w' = w\<lparr>fs := t\<rparr>)"
proof -
  obtain w1 where 1: "place_file E CreateFile (IoError CreateFile p) p (Raw []) w = (Inr (), w1)"
    and 2: "place_file E WriteData (IoError WriteData p) p (JsonDoc j) w1 = (Inr (), w')"
    using assms by (auto simp: fs_write_json_def runs)
  obtain t t' where "w1 = w\<lparr>fs := t\<rparr>" "w' = w1\<lparr>fs := t'\<rparr>"
    using place_file_Inr(1) [OF 1] place_file_Inr(1) [OF 2] by blast
  then have "w' = w\<lparr>fs := t'\<rparr>" by simp
  with place_file_Inr(2) [OF 2] show ?thesis by blast
qed

lemma make_tempdir_Inr:
  "make_tempdir E tmp w = (Inr p, w') \<Longrightarrow>
   p = tmp w \<and> (\<exists>t. tset (resolve p) (Dir []) (fs w) = Some t \<and> w' = w\<lparr>fs := t\<rparr>)"
  by (auto simp: make_tempdir_def Let_def split: option.splits)

lemma make_tempdir_Inl: "make_tempdir E tmp w = (Inl e, w') \<Longrightarrow> w' = w"
  by (auto simp: make_tempdir_def Let_def split: option.splits)

lemma keeps_attach_blind:
  assumes "fs_blind P" and "fds_blind P"
  shows "keeps P (guest_attach E K pol)"
proof -
  have load: "keeps P (load_guest_bpf_prog E K obj name ty)" for obj name ty
    unfolding load_guest_bpf_prog_def by (intro keeps_intros keeps_fds_blind assms)
  show ?thesis
    unfolding guest_attach_def attach_tracepoint_def attach_cgroup_def attach_pin_def or_none_def id_prefix_def Let_def
    by (intro keeps_intros load guest_pins.pin_frame assms)
qed

lemma keeps_detach_blind:
  assumes "fs_blind P" and "fds_blind P"
  shows "keeps P (guest_detach E l)"
  unfolding guest_detach_def close_opt_def
  by (intro keeps_intros keeps_fds_blind guest_pins.unpin_frame assms)

definition loader_fds :: "guest_loader \<Rightarrow> nat list" where
  "loader_fds l = (case tracepoint_fd l of None \<Rightarrow> [] | Some f \<Rightarrow> [f]) @ (case cgroup_skb_fd l of None \<Rightarrow> [] | Some f \<Rightarrow> [f])"

lemma attach_detach_fds:
  assumes a: "guest_attach E K pol w = (Inr l, w1)" and fresh: "fd_fresh K"
    and d: "guest_detach E l w2 = (r, w3)" and same: "open_fds w2 = open_fds w1"
  shows "open_fds w3 = open_fds w"
  using guest_detach_run(2) [OF d] guest_attach_Inr(2-4) [OF a fresh] same
  by (cases "tracepoint_fd l"; cases "cgroup_skb_fd l") (auto simp: remove1_append)

section \<open>The run inside the bundle\<close>

definition exec_audit :: "env \<Rightarrow> guest_loader \<Rightarrow> exec_options \<Rightarrow> int \<Rightarrow> json list" where
  "exec_audit E l opts code =
     (if opt_network opts = AuditedEgress then [audit_json E l NetworkEgress (Some ''container_exited'')] else []) @
     [audit_json E l FileWrite (Some (exit_detail code))]"

lemma exec_in_bundle_Inr:
  assumes run: "exec_in_bundle E K C k command m opts b w = (Inr c, w')" and k: "seg_ok k" and fresh: "fd_fresh K"
    and child: "child_ok C" and apart: "resolve (guest_bpf_pin_path k ''tracepoint'') \<parallel> resolve (join b ''config.json'')"
  shows "\<exists>l wc s w2. tlookup (fs wc) (resolve (join b ''config.json'')) = Some (RegFile (JsonDoc
       (oci_json (build_oci_config command m opts (active_leases E (secret_leases opts)))))) \<and>
     spawn_wait C (crun_path opts) [''run'', ''--bundle'', b, k] wc = (Inr s, w2) \<and> c = crun_exit_code s \<and>
     open_fds w' = open_fds w \<and> trace w' = trace w @ exec_audit E l opts c"
proof -
  let ?cfg = "oci_json (build_oci_config command m opts (active_leases E (secret_leases opts)))"
  let ?q = "resolve (join b ''config.json'')"
  obtain w1 l wc w2 w3 w4 w5
    where 1: "fs_write_json E (join b ''config.json'') ?cfg w = (Inr (), w1)"
      and 2: "guest_attach E K (for_container k) w1 = (Inr l, wc)"
      and 3: "crun_create k b wc = (Inr (), w2)"
      and 4: "crun_start C (crun_path opts) k b w2 = (Inr c, w3)"
      and 5: "whenE (opt_network opts = AuditedEgress) (emit_audit_event E l NetworkEgress (Some ''container_exited'')) w3 = (Inr (), w4)"
      and 6: "emit_audit_event E l FileWrite (Some (exit_detail c)) w4 = (Inr (), w5)"
      and 7: "guest_detach E l w5 = (Inr (), w')"
    using run by (auto simp: exec_in_bundle_def runs crun_delete_def)
  have w2: "w2 = wc" using 3 by (rule crun_create_state)
  have cid: "container_id (for_container k) = k" by (simp add: for_container_def)
  have cfg: "tlookup (fs wc) ?q = Some (RegFile (JsonDoc ?cfg))"
    using keepsD [OF keeps_attach_elsewhere [of "for_container k"] 2] fs_write_json_Inr [OF 1] k apart cid by simp
  obtain s where s: "spawn_wait C (crun_path opts) [''run'', ''--bundle'', b, k] wc = (Inr s, w3)" "c = crun_exit_code s"
    using 4 w2 by (auto simp: crun_start_def split: prod.splits sum.splits)
  have ch: "open_fds w3 = open_fds wc" "trace w3 = trace wc" using crun_start_child [OF child 4] w2 by auto
  have tr1: "trace w1 = trace w" "open_fds w1 = open_fds w" using fs_write_json_Inr [OF 1] by auto
  have trc: "trace wc = trace w1"
    using keepsD [OF keeps_attach_blind [of "\<lambda>v. trace v = trace w1"] 2] by (simp add: fs_blind_def fds_blind_def)
  have w5: "open_fds w5 = open_fds w3" "trace w5 = trace w3 @ exec_audit E l opts c"
    using 5 6 by (auto simp: whenE_run emit_audit_event_def runs exec_audit_def split: if_splits)
  have "open_fds w' = open_fds w1"
    using attach_detach_fds [OF 2 fresh 7] w5 ch by simp
  moreover have "trace w' = trace w5"
    using keepsD [OF keeps_detach_blind [of "\<lambda>v. trace v = trace w5"] 7] by (simp add: fs_blind_def fds_blind_def)
  ultimately show ?thesis using cfg s w5 ch tr1 trc by (intro exI conjI) auto
qed

section \<open>The whole run\<close>

definition bundle_apart :: "(world \<Rightarrow> pathbuf) \<Rightarrow> string \<Rightarrow> bool" where
  "bundle_apart tmp k \<longleftrightarrow>
     (\<forall>v. resolve (guest_bpf_pin_path k ''tracepoint'') \<parallel> resolve (join (tmp v) ''config.json''))"

lemma with_tempdir_run:
  assumes "with_tempdir E tmp body w = (r, w')"
  shows "(\<exists>e. r = Inl e \<and> w' = w \<and> make_tempdir E tmp w = (Inl e, w)) \<or>
   (\<exists>w1 w2. make_tempdir E tmp w = (Inr (tmp w), w1) \<and> body (tmp w) w1 = (r, w2) \<and>
      w' = snd (remove_dir_all E (tmp w) w2))"
proof (cases "make_tempdir E tmp w")
  case (Pair q w1)
  then show ?thesis
    using assms make_tempdir_Inr [of E tmp w _ w1] make_tempdir_Inl [of E tmp w _ w1]
    by (cases q) (auto simp: with_tempdir_def bindE_def split: prod.splits)
qed

lemma keeps_remove_dir_all_snd: "keeps P (remove_dir_all E p) \<Longrightarrow> P w \<Longrightarrow> P (snd (remove_dir_all E p w))"
  by (metis keepsD prod.collapse)

text \<open>Where a run stops: before the bundle, or after it.\<close>

lemma run_exec_run:
  assumes "run_exec E K C tmp k command root opts w = (r, w')"
  shows "r = Inl (Bail ''exec: no command specified'') \<and> w' = w \<or>
     (\<exists>e. r = Inl e \<and> lookup_fork E k root w = (Inl e, w')) \<or>
     (\<exists>q m. r \<in> {Inl (NoMergedPath k), Inl (MergedMissing m k)} \<and> lookup_fork E k root w = (Inr q, w')) \<or>
     (\<exists>e m w1. command \<noteq> [] \<and> lookup_fork E k root w = (Inr e, w1) \<and> merged_path e = Some m \<and>
        with_tempdir E tmp (exec_in_bundle E K C k command m opts) w1 = (r, w'))"
proof (cases "command = []")
  case True
  then show ?thesis using assms by (auto simp: run_exec_def runs)
next
  case False
  show ?thesis
  proof (cases "lookup_fork E k root w")
    case (Pair q w1)
    then show ?thesis
      using assms False
      by (cases q)
         (auto simp: run_exec_def bindE_def asks_def throw_def split: option.splits if_splits)
  qed
qed

lemma lookup_fork_frame:
  assumes "lookup_fork E k root w = (q, w1)"
  shows "open_fds w1 = open_fds w" "trace w1 = trace w" "mtab w1 = mtab w"
proof -
  have fd: "keeps (\<lambda>v. open_fds v = open_fds w) (lookup_fork E k root)"
    by (intro keeps_lookup_any keeps_fs_blind) (simp add: fs_blind_def)
  have tr: "keeps (\<lambda>v. trace v = trace w) (lookup_fork E k root)"
    by (intro keeps_lookup_any keeps_fs_blind) (simp add: fs_blind_def)
  have mt: "keeps (\<lambda>v. mtab v = mtab w) (lookup_fork E k root)"
    by (intro keeps_lookup_any keeps_fs_blind) (simp add: fs_blind_def)
  show "open_fds w1 = open_fds w" "trace w1 = trace w" "mtab w1 = mtab w"
    using keepsD [OF fd assms] keepsD [OF tr assms] keepsD [OF mt assms] by auto
qed

lemma keeps_exec_mtab:
  assumes "child_ok C"
  shows "keeps (\<lambda>v. Q (mtab v)) (exec_in_bundle E K C k command m opts b)"
proof -
  have crun: "keeps (\<lambda>v. Q (mtab v)) (crun_start C p k b)" for p
    using crun_start_child [OF assms] by (fastforce simp: keeps_def)
  have emit: "keeps (\<lambda>v. Q (mtab v)) (emit_audit_event E l ev d)" for l ev d
    unfolding emit_audit_event_def by (rule keeps_modify) simp
  show ?thesis
    unfolding exec_in_bundle_def crun_create_def crun_delete_def
    by (intro keeps_intros crun emit keeps_write_json keeps_attach_blind keeps_detach_blind)
       (simp_all add: fs_blind_def fds_blind_def)
qed

text \<open>What a removal that is not refused leaves below the removed path.\<close>

lemma remove_dir_all_below:
  assumes "\<And>v. fault E RemoveDirAll p v = None" and "\<not> mount_under (resolve p) (mtab w)" and "resolve p \<noteq> []"
  shows "tlookup (fs (snd (remove_dir_all E p w))) (resolve p @ [x]) = None"
proof (cases "tlookup (fs w) (resolve p)")
  case None
  then show ?thesis using assms by (simp add: remove_dir_all_def Let_def tlookup_append_None)
next
  case (Some n)
  then show ?thesis
    using assms by (cases n) (auto simp: remove_dir_all_def Let_def tlookup_append tlookup_tdel_None)
qed

section \<open>A start that fails\<close>

definition start_failed :: error where
  "start_failed = Bail ''failed to spawn or wait for crun''"

lemma place_file_error: "place_file E op err p c w = (Inl e, w') \<Longrightarrow> \<exists>n. e = err n"
  by (auto simp: place_file_def Let_def split: option.splits node.splits)

lemma fs_write_json_Inl: "fs_write_json E p j w = (Inl e, w') \<Longrightarrow> e \<noteq> start_failed"
  unfolding fs_write_json_def start_failed_def by (auto simp: runs dest!: place_file_error)

lemma or_none_Inl: "or_none m w = (Inl e, w') \<Longrightarrow> is_panic e"
  by (auto simp: or_none_def io_defs split: prod.splits sum.splits if_splits)

lemma id_prefix_Inl: "id_prefix n cid w = (Inl e, w') \<Longrightarrow> is_panic e"
  by (auto simp: id_prefix_run is_panic_def split: option.splits)

lemma guest_attach_Inl: "guest_attach E K pol w = (Inl e, w') \<Longrightarrow> is_panic e"
  by (auto simp: guest_attach_def attach_tracepoint_def attach_cgroup_def attach_pin_def Let_def runs
      dest: id_prefix_Inl or_none_Inl split: option.splits)

lemma create_dir_all_Inl: "create_dir_all E p w = (Inl e, w') \<Longrightarrow> \<exists>n. e = IoError CreateDirAll p n"
  by (auto simp: create_dir_all_def split: if_splits option.splits)

lemma read_doc_Inl: "read_doc E root w = (Inl e, w') \<Longrightarrow> e \<noteq> start_failed"
  by (auto simp: read_doc_def Let_def runs start_failed_def split: if_splits option.splits node.splits)

lemma get_fork_Inl: "get_fork E root k w = (Inl e, w') \<Longrightarrow> e \<noteq> start_failed"
  by (auto simp: get_fork_def runs start_failed_def dest: read_doc_Inl [unfolded start_failed_def] split: option.splits)

lemma lookup_fork_Inl: "lookup_fork E k root w = (Inl e, w') \<Longrightarrow> e \<noteq> start_failed"
proof -
  assume "lookup_fork E k root w = (Inl e, w')"
  then consider "create_dir_all E root w = (Inl e, w')"
    | e0 w1 where "get_fork E root k w1 = (Inl e0, w')" "e = (if not_found e0 then ForkNotFound k else e0)"
    by (auto simp: lookup_fork_def registry_open_def runs)
  then show ?thesis
    by cases (auto simp: start_failed_def dest: create_dir_all_Inl get_fork_Inl [unfolded start_failed_def] split: if_splits)
qed

text \<open>A crun that cannot be spawned changes nothing.\<close>

definition clean_spawn :: "container_host \<Rightarrow> bool" where
  "clean_spawn C \<longleftrightarrow> (\<forall>p args v e v'. spawn_wait C p args v = (Inl e, v') \<longrightarrow> v' = v)"

text \<open>The error path of \<open>runtime.start(..)?\<close> comes back without detaching the loader.\<close>

lemma exec_in_bundle_start_failed:
  assumes run: "exec_in_bundle E K C k command m opts b w = (Inl start_failed, w')"
    and clean: "clean_spawn C"
  shows "\<exists>l wa. guest_attach E K (for_container k) wa = (Inr l, w') \<and> open_fds wa = open_fds w"
proof -
  let ?cfg = "oci_json (build_oci_config command m opts (active_leases E (secret_leases opts)))"
  have nb: "\<not> is_panic start_failed" by (simp add: is_panic_def start_failed_def)
  obtain w1 l wc
    where 1: "fs_write_json E (join b ''config.json'') ?cfg w = (Inr (), w1)"
      and 2: "guest_attach E K (for_container k) w1 = (Inr l, wc)"
      and 3: "crun_start C (crun_path opts) k b wc = (Inl start_failed, w')"
    using run nb
    by (auto simp: exec_in_bundle_def crun_delete_def crun_create_def emit_audit_event_def runs start_failed_def
        dest: fs_write_json_Inl [unfolded start_failed_def] guest_attach_Inl guest_detach_run(1) split: if_splits)
  have "w' = wc" using 3 clean by (auto simp: crun_start_def clean_spawn_def split: prod.splits sum.splits)
  moreover have "open_fds w1 = open_fds w" using fs_write_json_Inr [OF 1] by auto
  ultimately show ?thesis using 2 by blast
qed

section \<open>Samples\<close>

definition exec_world :: world where
  "exec_world = (sample_world [''f''])\<lparr>fs :=
     the (tmkdir [''tmp''] (the (tmkdir [''sys'', ''fs'', ''bpf''] (fs (sample_world [''f''])))))\<rparr>"

definition bundle_at :: "world \<Rightarrow> pathbuf" where
  "bundle_at w = ''/tmp/fastenv-bundle-1''"

definition absent_crun :: "pathbuf \<Rightarrow> string list \<Rightarrow> world \<Rightarrow> (errno + u32) \<times> world" where
  "absent_crun p args w = (Inl 2, w)"

definition bare_host :: container_host where
  "bare_host = quiet_host\<lparr>spawn_wait := absent_crun\<rparr>"

text \<open>One lease that has expired and one that has not.\<close>

definition sample_opts :: exec_options where
  "sample_opts = default_exec_options\<lparr>opt_network := AuditedEgress,
     secret_leases := [\<lparr>secret_name = ''A'', scope = [], expires_at = ''0'', secret_value = ''x''\<rparr>,
                       \<lparr>secret_name = ''B'', scope = [], expires_at = ''1'', secret_value = ''y''\<rparr>]\<rparr>"

definition sample_run :: "container_host \<Rightarrow> (error + int) \<times> world" where
  "sample_run C = run_exec quiet_env quiet_kern C bundle_at ''f'' [''true''] ''/d'' sample_opts exec_world"

lemma sample_run_results: "fst (sample_run quiet_host) = Inr 137" "fst (sample_run bare_host) = Inl start_failed"
  by code_simp+

lemma sample_run_eq:
  "run_exec quiet_env quiet_kern C bundle_at ''f'' [''true''] ''/d'' sample_opts exec_world =
     (fst (sample_run C), snd (sample_run C))"
  by (simp add: sample_run_def)

lemma child_ok_samples: "child_ok quiet_host" "child_ok bare_host"
  by (auto simp: child_ok_def bare_host_def quiet_host_def killed_child_def absent_crun_def)

lemma sample_bundle:
  "resolve ''/tmp/fastenv-bundle-1'' = [''tmp'', ''fastenv-bundle-1'']"
  "resolve (join ''/tmp/fastenv-bundle-1'' ''config.json'') = [''tmp'', ''fastenv-bundle-1'', ''config.json'']"
  "resolve (guest_bpf_pin_path ''f'' ''tracepoint'') = [''sys'', ''fs'', ''bpf'', ''fastenv-guest'', ''f'', ''tracepoint'']"
  by code_simp+

lemma seg_ok_f: "seg_ok ''f''"
  by (simp add: seg_ok_def)

section \<open>Properties\<close>

text \<open>C9: A successful \<open>exec\<close> ran crun once on a bundle whose configuration is the one built for the
  fork's merged directory, with exactly the leases still valid in its environment, and a network
  namespace unless the mode is host; it returns that child's exit code, leaves no descriptor
  behind and records exactly its audit events.\<close>

theorem exec_success:
  assumes "run_exec E K C tmp k command root opts w = (Inr c, w')" and "doc_at E root w = Some d"
    and "seg_ok k" and "fd_fresh K" and "child_ok C" and "bundle_apart tmp k"
  shows "\<exists>e m cfg b wc s w2 l. fork_of d k = Some e \<and> merged_path e = Some m \<and>
     cfg = build_oci_config command m opts (filter (lease_active E) (secret_leases opts)) \<and>
     oci_env (oci_process cfg) = base_path_env # map lease_env (filter (lease_active E) (secret_leases opts)) \<and>
     (''network'' \<in> set (map ns_type (oci_namespaces cfg)) \<longleftrightarrow> opt_network opts \<noteq> HostNet) \<and>
     tlookup (fs wc) (resolve (join b ''config.json'')) = Some (RegFile (JsonDoc (oci_json cfg))) \<and>
     spawn_wait C (crun_path opts) [''run'', ''--bundle'', b, k] wc = (Inr s, w2) \<and> c = crun_exit_code s \<and>
     open_fds w' = open_fds w \<and> trace w' = trace w @ exec_audit E l opts c"
proof -
  obtain e m w1 where look: "lookup_fork E k root w = (Inr e, w1)" and m: "merged_path e = Some m"
    and body: "with_tempdir E tmp (exec_in_bundle E K C k command m opts) w1 = (Inr c, w')"
    using run_exec_run [OF assms(1)] by auto
  have e: "fork_of d k = Some e" using lookup_fork_known [OF assms(2) look] by simp
  obtain w2 w3 where 1: "make_tempdir E tmp w1 = (Inr (tmp w1), w2)"
    and 2: "exec_in_bundle E K C k command m opts (tmp w1) w2 = (Inr c, w3)"
    and w': "w' = snd (remove_dir_all E (tmp w1) w3)"
    using with_tempdir_run [OF body] by auto
  have apart: "resolve (guest_bpf_pin_path k ''tracepoint'') \<parallel> resolve (join (tmp w1) ''config.json'')"
    using assms(6) by (simp add: bundle_apart_def)
  obtain l wc s wd where in_bundle: "tlookup (fs wc) (resolve (join (tmp w1) ''config.json'')) = Some (RegFile (JsonDoc
       (oci_json (build_oci_config command m opts (active_leases E (secret_leases opts))))))"
     "spawn_wait C (crun_path opts) [''run'', ''--bundle'', tmp w1, k] wc = (Inr s, wd)" "c = crun_exit_code s"
     "open_fds w3 = open_fds w2" "trace w3 = trace w2 @ exec_audit E l opts c"
    using exec_in_bundle_Inr [OF 2 assms(3,4,5) apart] by blast
  have w2: "open_fds w2 = open_fds w1" "trace w2 = trace w1" using make_tempdir_Inr [OF 1] by auto
  have rm: "keeps (\<lambda>v. open_fds v = open_fds w3 \<and> trace v = trace w3) (remove_dir_all E (tmp w1))"
    by (intro keeps_fs_blind) (simp add: fs_blind_def)
  have "open_fds w' = open_fds w \<and> trace w' = trace w @ exec_audit E l opts c"
    using keeps_remove_dir_all_snd [OF rm, of w3] w' in_bundle(4,5) w2 lookup_fork_frame [OF look] by simp
  moreover have "''network'' \<in> set (map ns_type (oci_namespaces (build_oci_config command m opts ls))) \<longleftrightarrow>
      opt_network opts \<noteq> HostNet" for ls
    by (cases "opt_network opts = HostNet") (simp_all add: build_oci_config_def oci_namespaces_of_def requires_netns_def)
  ultimately show ?thesis
    using e m in_bundle
    by (intro exI [of _ e] exI [of _ m] exI [of _ "build_oci_config command m opts (active_leases E (secret_leases opts))"]
        exI [of _ "tmp w1"] exI [of _ wc] exI [of _ s] exI [of _ wd] exI [of _ l])
       (simp add: active_leases_def build_oci_config_def)
qed

theorem exec_success_witness:
  "open_fds (snd (sample_run quiet_host)) = [] \<and> length (trace (snd (sample_run quiet_host))) = 2"
proof -
  have run: "run_exec quiet_env quiet_kern quiet_host bundle_at ''f'' [''true''] ''/d'' sample_opts exec_world =
      (Inr 137, snd (sample_run quiet_host))"
    by (simp only: sample_run_eq sample_run_results)
  have doc: "doc_at quiet_env ''/d'' exec_world = Some (sample_doc [''f''])" by code_simp
  have apart: "bundle_apart bundle_at ''f''"
    by (simp add: bundle_apart_def bundle_at_def sample_bundle parallel_Cons)
  have w: "open_fds exec_world = []" "trace exec_world = []" by code_simp+
  have "opt_network sample_opts = AuditedEgress" by (simp add: sample_opts_def)
  with exec_success [OF run doc seg_ok_f fd_fresh_quiet child_ok_samples(1) apart] w
  show ?thesis by (auto simp: exec_audit_def)
qed

text \<open>C23: However a run ends, no \<open>config.json\<close>, and so no secret, stays in the bundle directory, if
  its removal is not refused and nothing is mounted there.\<close>

theorem exec_leaves_no_config:
  assumes "run_exec E K C tmp k command root opts w = (r, w')" and "child_ok C"
    and "\<And>v. tmp v = b" and "resolve b \<noteq> []" and "\<not> prefix (resolve b) (resolve root)"
    and "tlookup (fs w) (resolve b @ [''config.json'']) = None"
    and "\<And>v. fault E RemoveDirAll b v = None" and "\<not> mount_under (resolve b) (mtab w)"
  shows "tlookup (fs w') (resolve b @ [''config.json'']) = None"
proof -
  let ?q = "resolve b @ [''config.json'']"
  have "\<not> prefix ?q (resolve root)" using assms(5) by (metis append_prefixD)
  then have look: "keeps (\<lambda>v. tlookup (fs v) ?q = None) (lookup_fork E k root)"
    by (intro keeps_lookup_any keeps_create_dir_other)
  have early: ?thesis if "lookup_fork E k root w = (q, w')" for q
    using keepsD [OF look that] assms(6) by blast
  show ?thesis
    using run_exec_run [OF assms(1)]
  proof (elim disjE exE conjE)
    fix e m w1
    assume 1: "lookup_fork E k root w = (Inr e, w1)"
      and 2: "with_tempdir E tmp (exec_in_bundle E K C k command m opts) w1 = (r, w')"
    have w1: "tlookup (fs w1) ?q = None" "mtab w1 = mtab w"
      using keepsD [OF look 1] assms(6) lookup_fork_frame [OF 1] by auto
    show ?thesis
      using with_tempdir_run [OF 2]
    proof (elim disjE exE conjE)
      fix w2 w3
      assume 3: "make_tempdir E tmp w1 = (Inr (tmp w1), w2)"
        and 4: "exec_in_bundle E K C k command m opts (tmp w1) w2 = (r, w3)"
        and w': "w' = snd (remove_dir_all E (tmp w1) w3)"
      have "mtab w2 = mtab w" using make_tempdir_Inr [OF 3] w1 by auto
      then have "mtab w3 = mtab w"
        using keepsD [OF keeps_exec_mtab [OF assms(2), of "\<lambda>x. x = mtab w"] 4] by simp
      then show ?thesis
        using remove_dir_all_below [OF assms(7), of w3] assms(3,4,8) w' by simp
    qed (use w1 in auto)
  qed (use assms(6) early in auto)
qed

theorem exec_leaves_no_config_witness:
  "tlookup (fs (snd (sample_run bare_host))) [''tmp'', ''fastenv-bundle-1'', ''config.json''] = None"
proof -
  have b: "bundle_at v = ''/tmp/fastenv-bundle-1''" for v by (simp add: bundle_at_def)
  have w: "tlookup (fs exec_world) [''tmp'', ''fastenv-bundle-1'', ''config.json''] = None" "mtab exec_world = []"
    by code_simp+
  have "tlookup (fs (snd (sample_run bare_host))) (resolve ''/tmp/fastenv-bundle-1'' @ [''config.json'']) = None"
    by (rule exec_leaves_no_config [OF sample_run_eq child_ok_samples(2) b])
       (simp_all add: sample_bundle w mount_under_def)
  then show ?thesis by (simp add: sample_bundle)
qed

text \<open>C37: When crun cannot be started, the run reports it but does not detach the guest loader: its
  descriptors stay open and its pin stays in the BPF file system.\<close>

theorem exec_start_failure_leaks:
  assumes "run_exec E K C tmp k command root opts w = (Inl start_failed, w')"
    and "clean_spawn C"
    and "fd_fresh K" and "\<And>v. resolve (tmp v) \<parallel> resolve (guest_bpf_pin_path k ''tracepoint'')"
  shows "\<exists>l wa wb. guest_attach E K (for_container k) wa = (Inr l, wb) \<and>
     open_fds w' = open_fds w @ loader_fds l \<and>
     (\<forall>p. tracepoint_pin l = Some p \<longrightarrow> tlookup (fs w') (resolve p) = Some Special)"
proof -
  obtain e m w1 where look: "lookup_fork E k root w = (Inr e, w1)"
    and body: "with_tempdir E tmp (exec_in_bundle E K C k command m opts) w1 = (Inl start_failed, w')"
    using run_exec_run [OF assms(1)] lookup_fork_Inl [of E k root w start_failed w'] by (auto simp: start_failed_def)
  have "make_tempdir E tmp w1 \<noteq> (Inl start_failed, w1)"
    by (auto simp: make_tempdir_def Let_def start_failed_def split: option.splits)
  then obtain w2 w3 where 1: "make_tempdir E tmp w1 = (Inr (tmp w1), w2)"
    and 2: "exec_in_bundle E K C k command m opts (tmp w1) w2 = (Inl start_failed, w3)"
    and w': "w' = snd (remove_dir_all E (tmp w1) w3)"
    using with_tempdir_run [OF body] by auto
  obtain l wa where att: "guest_attach E K (for_container k) wa = (Inr l, w3)" and wa: "open_fds wa = open_fds w2"
    using exec_in_bundle_start_failed [OF 2 assms(2)] by blast
  have "open_fds w3 = open_fds w @ loader_fds l"
    using guest_attach_Inr(2) [OF att assms(3)] wa make_tempdir_Inr [OF 1] lookup_fork_frame [OF look]
    by (auto simp: loader_fds_def)
  moreover have "keeps (\<lambda>v. open_fds v = open_fds w3) (remove_dir_all E (tmp w1))"
    by (intro keeps_fs_blind) (simp add: fs_blind_def)
  ultimately have fds: "open_fds w' = open_fds w @ loader_fds l"
    using keeps_remove_dir_all_snd [of "\<lambda>v. open_fds v = open_fds w3" E "tmp w1" w3] w' by simp
  have "tlookup (fs w') (resolve p) = Some Special" if p: "tracepoint_pin l = Some p" for p
  proof -
    have sp: "p = guest_bpf_pin_path k ''tracepoint''" "tlookup (fs w3) (resolve p) = Some Special"
      using guest_attach_Inr(5) [OF att assms(3) p] by (auto simp: for_container_def)
    have "keeps (\<lambda>v. tlookup (fs v) (resolve p) = Some Special) (remove_dir_all E (tmp w1))"
      using assms(4) sp(1) by (intro keeps_parallel) simp
    from keeps_remove_dir_all_snd [OF this sp(2)] w' show ?thesis by simp
  qed
  with att fds show ?thesis by blast
qed

theorem exec_start_failure_leaks_witness:
  "\<exists>l wa wb. guest_attach quiet_env quiet_kern (for_container ''f'') wa = (Inr l, wb) \<and>
     open_fds (snd (sample_run bare_host)) = loader_fds l"
proof -
  have run: "run_exec quiet_env quiet_kern bare_host bundle_at ''f'' [''true''] ''/d'' sample_opts exec_world =
      (Inl start_failed, snd (sample_run bare_host))"
    by (simp only: sample_run_eq sample_run_results)
  have clean: "clean_spawn bare_host"
    by (simp add: clean_spawn_def bare_host_def absent_crun_def)
  have apart: "resolve (bundle_at v) \<parallel> resolve (guest_bpf_pin_path ''f'' ''tracepoint'')" for v
    by (simp add: bundle_at_def sample_bundle parallel_Cons)
  have w: "open_fds exec_world = []" by code_simp
  from exec_start_failure_leaks [OF run clean fd_fresh_quiet apart] w show ?thesis by auto
qed

end
