(* ===== verification/Lifecycle.thy ===== *)
theory Lifecycle
  imports Fork MountPath ExecLaws
begin

text \<open>The life of a fork: made by \<open>fork\<close>, used, and taken away again by \<open>discard\<close>.\<close>

lemma mounted_last:
  assumes "kernel_ok E" and "clean_path p" and "\<And>m. m \<in> set ms \<Longrightarrow> clean_path (mnt_target m)"
  shows "mounts_has (mounts_text E (ms @ [overlay_mount p data])) p"
proof -
  have t: "mnt_target (overlay_mount p data) = p" by (simp add: overlay_mount_def)
  have "proc_format (mounts_text E)" using assms(1) by (simp add: kernel_ok_def)
  then show ?thesis using assms(2,3) t by (subst mounts_has_iff) auto
qed

text \<open>C11: Discarding a fork undoes making it: whatever happened to files in between, if the registry and
  the mount table were left alone, both are as they were before the fork, entry for entry and mount
  for mount, and the fork's upper and work directories are gone. The mount points in the table are
  free of blanks and backslashes, which /proc/mounts would not show as they are.\<close>

theorem fork_discard_roundtrip:
  assumes fork: "fork_base E bk k root qb w = (Inr u, w1)" and doc: "doc_at E root w = Some d" "doc_ok root d"
    and mid: "doc_at E root w2 = doc_at E root w1" "mtab w2 = mtab w1"
    and disc: "discard_fork E k root w2 = (Inr v, w3)"
    and host: "seg_ok k" "flush_ok E root" "kernel_ok E"
    and clean: "clean_path (merged_of root k)" "\<And>m. m \<in> set (mtab w) \<Longrightarrow> clean_path (mnt_target m)"
  shows "(\<exists>d'. doc_at E root w3 = Some d' \<and> fork_of d' = fork_of d \<and> base_of d' = base_of d) \<and>
    mtab w3 = mtab w \<and> gone w2 (upper_of root k) (fs w3) \<and> gone w2 (work_of root k) (fs w3)"
proof -
  let ?e = "\<lambda>mode. new_fork_entry E bk (upper_of root k) (work_of root k) (merged_of root k) qb mode"
  obtain mode data where none: "fork_of d k = None"
    and m1: "mtab w1 = mtab w @ [overlay_mount (merged_of root k) data]"
    and d1: "doc_at E root w1 = Some (doc_insert_fork k (?e mode) d)"
    using fork_base_Inr [OF fork doc(1) host] by blast
  have ok1: "doc_ok root (doc_insert_fork k (?e mode) d)"
    by (intro doc_ok_insert_fork doc(2) host(1)) (simp add: entry_ok_def new_fork_entry_def)
  have look: "fork_of (doc_insert_fork k (?e mode) d) = (fork_of d)(k \<mapsto> ?e mode)"
    "base_of (doc_insert_fork k (?e mode) d) = base_of d"
    using fork_store.look_ins [of k "?e mode" d] by (simp_all add: doc_insert_fork_def base_of_def)
  from discard_fork_Inr [OF disc _ ok1 host(2,3)] d1 mid(1) obtain e d3
    where e: "fork_of (doc_insert_fork k (?e mode) d) k = Some e"
      and d3: "doc_at E root w3 = Some d3" "fork_of d3 = (fork_of (doc_insert_fork k (?e mode) d))(k := None)"
      "base_of d3 = base_of (doc_insert_fork k (?e mode) d)"
      and g: "gone w2 (upper_path e) (fs w3)" "gone w2 (work_path e) (fs w3)"
      and m3: "mtab w3 = (case merged_path e of None \<Rightarrow> mtab w2 | Some m \<Rightarrow>
        if mounts_has (mounts_text E (mtab w2)) m then drop_last_mount m (mtab w2) else mtab w2)"
    by auto
  have e: "e = ?e mode" using e look by simp
  have "mtab w3 = drop_last_mount (merged_of root k) (mtab w @ [overlay_mount (merged_of root k) data])"
    using m3 mid(2) m1 mounted_last [OF host(3) clean] by (simp add: e new_fork_entry_def)
  moreover have "drop_last_mount (merged_of root k) (mtab w @ [overlay_mount (merged_of root k) data]) = mtab w"
    using drop_last_mount_snoc [of "overlay_mount (merged_of root k) data" "mtab w"] by (simp add: overlay_mount_def)
  moreover have "fork_of d3 = fork_of d" using d3(2) look(1) none by (simp add: fun_upd_idem)
  ultimately show ?thesis
    using d3 look(2) g by (auto simp: e new_fork_entry_def)
qed

definition life_world :: world where
  "life_world = (sample_world [])\<lparr>fs :=
     the (tmkdir [''tmp''] (the (tmkdir [''sys'', ''fs'', ''bpf''] (fs (sample_world [])))))\<rparr>"

text \<open>Made, used by \<open>exec\<close>, discarded.\<close>

definition life_forked :: world where
  "life_forked = snd (fork_base quiet_env ''b'' ''f'' ''/d'' None life_world)"

definition life_used :: world where
  "life_used = snd (run_exec quiet_env quiet_kern quiet_host bundle_at ''f'' [''true''] ''/d'' sample_opts life_forked)"

definition life_over :: "(error + unit) \<times> world" where
  "life_over = discard_fork quiet_env ''f'' ''/d'' life_used"

theorem fork_discard_roundtrip_witness:
  "life_over = (Inr (), snd life_over) \<and> mtab (snd life_over) = [] \<and>
   (\<exists>d. doc_at quiet_env ''/d'' (snd life_over) = Some d \<and> fork_of d = fork_of (sample_doc []))"
proof -
  have fork: "fork_base quiet_env ''b'' ''f'' ''/d'' None life_world = (Inr (), life_forked)"
    unfolding life_forked_def by (rule succeeds) code_simp
  have over: "life_over = (Inr (), snd life_over)" by (rule succeeds) code_simp
  have mid: "doc_at quiet_env ''/d'' life_used = doc_at quiet_env ''/d'' life_forked" "mtab life_used = mtab life_forked"
    by code_simp+
  have doc: "doc_at quiet_env ''/d'' life_world = Some (sample_doc [])" "mtab life_world = []" by code_simp+
  have ok: "doc_ok ''/d'' (sample_doc [])" "clean_path (merged_of ''/d'' ''f'')" by code_simp+
  from fork_discard_roundtrip [OF fork doc(1) ok(1) mid over [unfolded life_over_def] seg_ok_f flush_ok_quiet
      quiet_env_kernel_ok ok(2)] doc(2) over
  show ?thesis by (auto simp: life_over_def)
qed

text \<open>
  Two processes: \<open>mount-path\<close> looks the fork up, another process discards it, and \<open>mount-path\<close> goes on
  with what it read. Both succeed; the fork is registered again, with no upper directory.
\<close>

definition resurrected :: "bool \<times> world" where
  "resurrected =
     (case lookup_fork quiet_env ''f'' ''/d'' (sample_world [''f'']) of
        (Inl e, w) \<Rightarrow> (False, w)
      | (Inr e, w) \<Rightarrow>
          (case discard_fork quiet_env ''f'' ''/d'' w of (r, w') \<Rightarrow>
             (case mount_fresh quiet_env ''f'' ''/d'' e w' of (r', w'') \<Rightarrow> (r = Inr () \<and> r' = Inr (), w''))))"

lemma mount_path_resurrects:
  "fst resurrected" "map_option (\<lambda>d. fork_of d ''f'' \<noteq> None) (doc_at quiet_env ''/d'' (snd resurrected)) = Some True"
  "tlookup (fs (snd resurrected)) (resolve (upper_of ''/d'' ''f'')) = None"
  by code_simp+

text \<open>
  Two processes making the same fork: the one is between its check of the registry and its insertion
  when the other runs. Nothing is locked over the pair.
\<close>


definition race_first :: "(error + fork_entry) \<times> world" where
  "race_first = fork_prepare quiet_env ''b'' ''f'' ''/d'' None (sample_world [])"

definition race_second :: "(error + unit) \<times> world" where
  "race_second = fork_base quiet_env ''b'' ''f'' ''/d'' None (snd race_first)"

definition race_done :: "(error + unit) \<times> world" where
  "race_done = insert_fork quiet_env ''/d'' ''f'' (projr (fst race_first)) (snd race_second)"


end
