(* ===== verification/Vm.thy ===== *)
theory Vm
  imports HostEbpf ContainerRuntime
begin

text \<open>
  The host control plane (src/host_control_plane.rs): the on-disk layout and record of a project
  VM, the life cycle operations of \<open>ProjectVmSupervisor\<close>, and booting and stopping Firecracker
  over its API socket. The Firecracker binary, curl, kill and whatever else runs while the
  supervisor sleeps are the record \<open>vmm_host\<close>; \<open>clock\<close> is the monotonic clock in milliseconds,
  which a sleep advances by at least its duration. Log events are left out.
\<close>

record fc_config =
  fc_binary_path :: pathbuf
  fc_vcpu_count :: u32
  fc_mem_size_mib :: u32
  fc_socket_wait_timeout_secs :: u64
  fc_boot_args :: string
  fc_stop_timeout_secs :: u64

definition default_fc_config :: fc_config where
  "default_fc_config =
     \<lparr>fc_binary_path = ''/usr/local/bin/firecracker'', fc_vcpu_count = 1, fc_mem_size_mib = 128,
      fc_socket_wait_timeout_secs = 10, fc_boot_args = ''console=ttyS0 reboot=k panic=1 pci=off'',
      fc_stop_timeout_secs = 10\<rparr>"

record vmm_host =
  vmm_spawn :: "pathbuf \<Rightarrow> string list \<Rightarrow> world \<Rightarrow> errno + nat"
  vmm_idle :: "nat \<Rightarrow> world \<Rightarrow> world"
  vmm_late :: "nat \<Rightarrow> world \<Rightarrow> nat"
  vmm_try_wait :: "nat \<Rightarrow> world \<Rightarrow> errno + u32 option"
  vmm_curl :: "string \<Rightarrow> string \<Rightarrow> string \<Rightarrow> json option \<Rightarrow> world \<Rightarrow> (errno + u8 list) \<times> world"
  vmm_kill_denied :: "nat \<Rightarrow> world \<Rightarrow> bool"
  vmm_error_text :: "error \<Rightarrow> string"

section \<open>Layout\<close>

definition vm_dir :: "pathbuf \<Rightarrow> string \<Rightarrow> pathbuf" where
  "vm_dir root pid = join (join root ''vms'') pid"

definition state_path :: "pathbuf \<Rightarrow> string \<Rightarrow> pathbuf" where
  "state_path root pid = join (vm_dir root pid) ''state.json''"

definition validate_project_id :: "string \<Rightarrow> error + unit" where
  "validate_project_id pid =
     (if trim pid = [] then Inl (Bail ''project_id must not be empty'')
      else if slash \<in> set pid \<or> CHR 0x5C \<in> set pid \<or> contains_str ''..'' pid
      then Inl (Bail ''project_id must be a single path segment'')
      else Inr ())"

definition ensure_empty_file :: "env \<Rightarrow> pathbuf \<Rightarrow> unit cmd" where
  "ensure_empty_file E p =
     bindE (asks (path_exists p)) (\<lambda>x.
     if x then ret () else place_file E CreateFile (IoError CreateFile p) p (Raw []))"

definition ensure_vm_layout :: "env \<Rightarrow> pathbuf \<Rightarrow> string \<Rightarrow> unit cmd" where
  "ensure_vm_layout E root pid =
     (let d = vm_dir root pid in
      bindE (create_dir_all E (join d ''logs'')) (\<lambda>_.
      bindE (create_dir_all E (join d ''artifacts'')) (\<lambda>_.
      create_dir_all E (join d ''cache''))))"

definition fresh_record :: "env \<Rightarrow> pathbuf \<Rightarrow> project_vm_spec \<Rightarrow> project_vm_record" where
  "fresh_record E root spec =
     (let d = vm_dir root (spec_project_id spec) in
      \<lparr>project_id = spec_project_id spec, rec_vm_dir = d, firecracker_sock = join d ''firecracker.sock'',
       kernel_path = join d ''kernel'', rootfs_path = join d ''rootfs.img'',
       workspace_path = join d ''workspace.img'', cache_dir = join d ''cache'', logs_dir = join d ''logs'',
       artifacts_dir = join d ''artifacts'', rec_state_path = state_path root (spec_project_id spec),
       vm_state = Provisioned, kernel_ref = spec_kernel_ref spec,
       seed_data_refs = spec_seed_data_refs spec, network_policy = spec_network_policy spec,
       secrets = [], artifacts = [], host_ebpf_policy = None,
       vm_created_at = rfc3339_now E, vm_updated_at = rfc3339_now E\<rparr>)"

definition create_project_vm :: "env \<Rightarrow> pathbuf \<Rightarrow> project_vm_spec \<Rightarrow> project_vm_record cmd" where
  "create_project_vm E root spec =
     (let d = vm_dir root (spec_project_id spec) in
      bindE (create_dir_all E (join d ''logs'')) (\<lambda>_.
      bindE (create_dir_all E (join d ''artifacts'')) (\<lambda>_.
      bindE (create_dir_all E (join d ''cache'')) (\<lambda>_.
      bindE (ensure_empty_file E (join d ''kernel'')) (\<lambda>_.
      bindE (ensure_empty_file E (join d ''rootfs.img'')) (\<lambda>_.
      bindE (ensure_empty_file E (join d ''workspace.img'')) (\<lambda>_.
      ret (fresh_record E root spec))))))))"

section \<open>The record on disk\<close>

definition vm_content :: "env \<Rightarrow> content \<Rightarrow> project_vm_record option" where
  "vm_content E c = (case c of VmJson r \<Rightarrow> Some r | _ \<Rightarrow> parse_vm E c)"

definition load_project_vm :: "env \<Rightarrow> pathbuf \<Rightarrow> string \<Rightarrow> project_vm_record cmd" where
  "load_project_vm E root pid =
     (let p = state_path root pid in
      bindE (asks (path_exists p)) (\<lambda>x.
      if \<not> x then throw (IoError OpenRead p ENOENT)
      else bindE (may_fail E OpenRead p) (\<lambda>_.
           bindE (asks (\<lambda>w. metadata (fs w) p)) (\<lambda>n.
           case n of
             Some (RegFile c) \<Rightarrow> (case vm_content E c of Some r \<Rightarrow> ret r | None \<Rightarrow> throw (JsonError p))
           | _ \<Rightarrow> throw (JsonError p)))))"

text \<open>The record is written straight to the temporary file, so a failed write is an error here.\<close>

definition persist_record :: "env \<Rightarrow> pathbuf \<Rightarrow> project_vm_record \<Rightarrow> unit cmd" where
  "persist_record E root r =
     (let p = state_path root (project_id r) in
      case path_parent p of
        None \<Rightarrow> throw (Bail ''project VM state path has no parent directory'')
      | Some d \<Rightarrow>
          bindE (create_dir_all E d) (\<lambda>_.
          bindE (temp_file_in E d) (\<lambda>_.
          bindE (map_err (\<lambda>_. JsonError p) (may_fail E SerialiseOp p)) (\<lambda>_.
          bindE (may_fail E WriteData p) (\<lambda>_.
          place_file E PersistOp (PersistError p) p (VmJson r))))))"

definition touch_and_persist :: "env \<Rightarrow> pathbuf \<Rightarrow> project_vm_record \<Rightarrow> project_vm_record cmd" where
  "touch_and_persist E root r =
     (let r' = r\<lparr>vm_updated_at := rfc3339_now E\<rparr> in bindE (persist_record E root r') (\<lambda>_. ret r'))"

section \<open>Firecracker API\<close>

definition split_curl_output :: "string \<Rightarrow> string \<times> string" where
  "split_curl_output raw =
     (case rsplit_once newline raw of Some (body, code) \<Rightarrow> (body, trim code) | None \<Rightarrow> (raw, ''000''))"

definition run_curl :: "vmm_host \<Rightarrow> string \<Rightarrow> string \<Rightarrow> string \<Rightarrow> json option \<Rightarrow> u8 list cmd" where
  "run_curl H meth sock endpoint body = (\<lambda>w.
     case vmm_curl H meth sock (''http://localhost'' @ endpoint) body w of
       (Inl e, w') \<Rightarrow> (Inl (Bail ''cannot run curl''), w')
     | (Inr out, w') \<Rightarrow> (Inr out, w'))"

definition api_error :: "string \<Rightarrow> string \<Rightarrow> string \<Rightarrow> error" where
  "api_error endpoint code body = VmBoot (ApiCallFailed endpoint (''HTTP '' @ code @ '': '' @ trim body))"

definition firecracker_api_put :: "vmm_host \<Rightarrow> string \<Rightarrow> string \<Rightarrow> json \<Rightarrow> unit cmd" where
  "firecracker_api_put H sock endpoint body =
     bindE (run_curl H ''PUT'' sock endpoint (Some body)) (\<lambda>out.
     case split_curl_output (from_utf8_lossy out) of (response, code) \<Rightarrow>
       if code = ''204'' \<or> code = ''200'' then ret () else throw (api_error endpoint code response))"

definition firecracker_api_get :: "vmm_host \<Rightarrow> string \<Rightarrow> string \<Rightarrow> string cmd" where
  "firecracker_api_get H sock endpoint =
     bindE (run_curl H ''GET'' sock endpoint None) (\<lambda>out.
     case split_curl_output (from_utf8_lossy out) of (response, code) \<Rightarrow>
       if code = ''200'' then ret response else throw (api_error endpoint code response))"

section \<open>Waiting\<close>

definition thread_sleep :: "vmm_host \<Rightarrow> nat \<Rightarrow> world \<Rightarrow> world" where
  "thread_sleep H ms w = (vmm_idle H ms w)\<lparr>clock := clock w + ms + vmm_late H ms w\<rparr>"

lemma clock_thread_sleep [simp]: "clock (thread_sleep H ms w) = clock w + ms + vmm_late H ms w"
  by (simp add: thread_sleep_def)

text \<open>\<open>Instant::now() + Duration::from_secs(n)\<close> panics when the seconds leave an \<open>i64\<close>.\<close>

definition deadline_after :: "u64 \<Rightarrow> nat cmd" where
  "deadline_after secs = (\<lambda>w.
     if clock w div 1000 + unat secs < 2 ^ 63 then (Inr (clock w + 1000 * unat secs), w)
     else (Inl (Panic ''overflow when adding duration to instant''), w))"

definition to_string_lossy :: "pathbuf \<Rightarrow> string" where
  "to_string_lossy p = from_utf8_lossy (map char_byte p)"

text \<open>\<open>ExitStatus\<close> as text, with the names of the signals.\<close>

definition signal_names :: "string list" where
  "signal_names =
     ['''', ''SIGHUP'', ''SIGINT'', ''SIGQUIT'', ''SIGILL'', ''SIGTRAP'', ''SIGABRT'', ''SIGBUS'', ''SIGFPE'',
      ''SIGKILL'', ''SIGUSR1'', ''SIGSEGV'', ''SIGUSR2'', ''SIGPIPE'', ''SIGALRM'', ''SIGTERM'', ''SIGSTKFLT'',
      ''SIGCHLD'', ''SIGCONT'', ''SIGSTOP'', ''SIGTSTP'', ''SIGTTIN'', ''SIGTTOU'', ''SIGURG'', ''SIGXCPU'',
      ''SIGXFSZ'', ''SIGVTALRM'', ''SIGPROF'', ''SIGWINCH'', ''SIGIO'', ''SIGPWR'', ''SIGSYS'']"

definition show_status :: "u32 \<Rightarrow> string" where
  "show_status s =
     (if wifexited s then ''exit status: '' @ show_nat (nat (wexitstatus s))
      else let n = nat (wtermsig s) in
        ''signal: '' @ show_nat n
          @ (if n < length signal_names then '' ('' @ signal_names ! n @ '')'' else [])
          @ (if s AND 128 \<noteq> 0 then '' (core dumped)'' else []))"

definition last_lines :: "nat \<Rightarrow> string \<Rightarrow> string" where
  "last_lines n s = str_join [newline] (rev (take n (rev (lines s))))"

definition read_firecracker_log :: "env \<Rightarrow> kern \<Rightarrow> pathbuf \<Rightarrow> string cmd" where
  "read_firecracker_log E K sock =
     (let log_path = (case path_parent sock of None \<Rightarrow> [] | Some d \<Rightarrow> join d ''logs/firecracker.log'') in
      bindE (attempt (fs_read E K log_path)) (\<lambda>q.
      ret (last_lines 10 (case q of Inl e \<Rightarrow> [] | Inr bs \<Rightarrow> unwrap_or (from_utf8 bs) []))))"

definition sigkill :: "nat \<Rightarrow> world \<Rightarrow> world" where
  "sigkill pid w = w\<lparr>vmms := filter (\<lambda>v. fst v \<noteq> pid) (vmms w)\<rparr>"

text \<open>The polling loop, from the moment its deadline is known.\<close>

function wait_socket_until :: "env \<Rightarrow> kern \<Rightarrow> vmm_host \<Rightarrow> pathbuf \<Rightarrow> nat \<Rightarrow> u64 \<Rightarrow> nat \<Rightarrow> unit cmd" where
  "wait_socket_until E K H sock pid timeout deadline w =
     (if path_exists sock w then (Inr (), w)
      else case vmm_try_wait H pid w of
          Inl e \<Rightarrow> (Inl (Bail ''cannot poll Firecracker process''), w)
        | Inr (Some status) \<Rightarrow>
            bindE (read_firecracker_log E K sock) (\<lambda>s.
              throw (VmBoot (ProcessExitedEarly (show_status status) s))) w
        | Inr None \<Rightarrow>
            if deadline \<le> clock w then (Inl (VmBoot (SocketTimeout sock timeout)), sigkill pid w)
            else wait_socket_until E K H sock pid timeout deadline (thread_sleep H 100 w))"
  by pat_completeness auto
termination
  by (relation "measure (\<lambda>(E, K, H, sock, pid, timeout, deadline, w). deadline - clock w)") auto

declare wait_socket_until.simps [simp del]

definition wait_for_socket :: "env \<Rightarrow> kern \<Rightarrow> vmm_host \<Rightarrow> pathbuf \<Rightarrow> nat \<Rightarrow> u64 \<Rightarrow> unit cmd" where
  "wait_for_socket E K H sock pid timeout =
     bindE (deadline_after timeout) (wait_socket_until E K H sock pid timeout)"

function wait_socket_gone :: "vmm_host \<Rightarrow> pathbuf \<Rightarrow> nat \<Rightarrow> world \<Rightarrow> world" where
  "wait_socket_gone H sock deadline w =
     (if path_exists sock w \<and> clock w < deadline then wait_socket_gone H sock deadline (thread_sleep H 200 w)
      else w)"
  by pat_completeness auto
termination
  by (relation "measure (\<lambda>(H, sock, deadline, w). deadline - clock w)") auto

declare wait_socket_gone.simps [simp del]

section \<open>Booting\<close>

definition check_kvm_access :: "env \<Rightarrow> unit cmd" where
  "check_kvm_access E =
     bindE (asks (path_exists ''/dev/kvm'')) (\<lambda>x.
     if \<not> x then throw (VmBoot (KvmUnavailable ''/dev/kvm does not exist''))
     else map_err (\<lambda>e. VmBoot (KvmUnavailable ''cannot open /dev/kvm'')) (may_fail E OpenRead ''/dev/kvm''))"

text \<open>\<open>OpenOptions::new().create(true).append(true).open(p)\<close>, and one line written to such a file.\<close>

definition open_append :: "env \<Rightarrow> pathbuf \<Rightarrow> unit cmd" where
  "open_append E p =
     bindE (asks (\<lambda>w. metadata (fs w) p)) (\<lambda>n.
       case n of
         None \<Rightarrow> place_file E CreateFile (IoError CreateFile p) p (Raw [])
       | Some (Dir es) \<Rightarrow> throw (IoError CreateFile p EISDIR)
       | Some _ \<Rightarrow> may_fail E CreateFile p)"

definition append_text :: "env \<Rightarrow> pathbuf \<Rightarrow> string \<Rightarrow> unit cmd" where
  "append_text E p s =
     bindE (open_append E p) (\<lambda>_.
     bindE (may_fail E WriteData p) (\<lambda>_.
     bindE (asks (\<lambda>w. tlookup (fs w) (resolve p))) (\<lambda>n.
       case n of
         Some (RegFile (Raw bs)) \<Rightarrow>
           place_file E WriteData (IoError WriteData p) p (Raw (bs @ map char_byte s))
       | _ \<Rightarrow> ret ())))"

definition fs_write_text :: "env \<Rightarrow> pathbuf \<Rightarrow> string \<Rightarrow> unit cmd" where
  "fs_write_text E p s =
     bindE (place_file E CreateFile (IoError CreateFile p) p (Raw [])) (\<lambda>_.
     bindE (may_fail E WriteData p) (\<lambda>_.
     place_file E WriteData (IoError WriteData p) p (Raw (map char_byte s))))"

definition pid_path_for_record :: "project_vm_record \<Rightarrow> pathbuf" where
  "pid_path_for_record r = join (rec_vm_dir r) ''firecracker.pid''"

definition vm_log_file :: "project_vm_record \<Rightarrow> pathbuf" where
  "vm_log_file r = join (logs_dir r) ''firecracker.log''"

text \<open>Steps 1 to 4: the checks, the stale socket, the log file.\<close>

definition boot_preflight :: "env \<Rightarrow> fc_config \<Rightarrow> project_vm_record \<Rightarrow> unit cmd" where
  "boot_preflight E cfg r =
     bindE (asks (path_exists (fc_binary_path cfg))) (\<lambda>x.
     if \<not> x then throw (VmBoot (BinaryNotFound (fc_binary_path cfg)))
     else bindE (check_kvm_access E) (\<lambda>_.
          bindE (asks (path_exists (firecracker_sock r))) (\<lambda>y.
          bindE (whenE y (remove_file E (firecracker_sock r))) (\<lambda>_.
          bindE (open_append E (vm_log_file r)) (\<lambda>_.
          map_err (\<lambda>e. Bail ''cannot clone log fd'') (may_fail E DupFd (vm_log_file r)))))))"

definition spawn_firecracker :: "vmm_host \<Rightarrow> fc_config \<Rightarrow> project_vm_record \<Rightarrow> nat cmd" where
  "spawn_firecracker H cfg r = (\<lambda>w.
     case vmm_spawn H (fc_binary_path cfg) [''--api-sock'', firecracker_sock r, ''--id'', project_id r] w of
       Inl e \<Rightarrow> (Inl (Bail ''cannot spawn Firecracker''), w)
     | Inr pid \<Rightarrow> (Inr pid, w\<lparr>vmms := vmms w @ [(pid, project_id r)]\<rparr>))"

definition boot_calls :: "fc_config \<Rightarrow> project_vm_record \<Rightarrow> (string \<times> json) list" where
  "boot_calls cfg r =
     [(''/boot-source'', JObj [(''kernel_image_path'', JStr (to_string_lossy (kernel_path r))),
                               (''boot_args'', JStr (fc_boot_args cfg))]),
      (''/drives/rootfs'', JObj [(''drive_id'', JStr ''rootfs''),
                                 (''path_on_host'', JStr (to_string_lossy (rootfs_path r))),
                                 (''is_root_device'', JBool True), (''is_read_only'', JBool False)]),
      (''/machine-config'', JObj [(''vcpu_count'', JNum (uint (fc_vcpu_count cfg))),
                                  (''mem_size_mib'', JNum (uint (fc_mem_size_mib cfg)))]),
      (''/actions'', JObj [(''action_type'', JStr ''InstanceStart'')])]"

definition boot_api :: "vmm_host \<Rightarrow> fc_config \<Rightarrow> project_vm_record \<Rightarrow> unit cmd" where
  "boot_api H cfg r =
     for_each (\<lambda>(endpoint, body). firecracker_api_put H (to_string_lossy (firecracker_sock r)) endpoint body)
       (boot_calls cfg r)"

definition write_pid_file :: "env \<Rightarrow> vmm_host \<Rightarrow> project_vm_record \<Rightarrow> nat \<Rightarrow> unit cmd" where
  "write_pid_file E H r pid =
     bindE (attempt (fs_write_text E (pid_path_for_record r) (show_nat pid))) (\<lambda>q.
       case q of
         Inr u \<Rightarrow> ret ()
       | Inl e \<Rightarrow>
           bindE (attempt (append_text E (vm_log_file r)
             (''warning: cannot write PID file '' @ pid_path_for_record r @ '': '' @ vmm_error_text H e @ [newline])))
             (\<lambda>_. ret ()))"

definition boot_firecracker :: "env \<Rightarrow> kern \<Rightarrow> vmm_host \<Rightarrow> fc_config \<Rightarrow> project_vm_record \<Rightarrow> project_vm_record cmd" where
  "boot_firecracker E K H cfg r =
     bindE (boot_preflight E cfg r) (\<lambda>_.
     bindE (spawn_firecracker H cfg r) (\<lambda>pid.
     bindE (wait_for_socket E K H (firecracker_sock r) pid (fc_socket_wait_timeout_secs cfg)) (\<lambda>_.
     bindE (boot_api H cfg r) (\<lambda>_.
     bindE (write_pid_file E H r pid) (\<lambda>_.
     ret (r\<lparr>vm_state := Running\<rparr>))))))"

section \<open>Stopping\<close>

definition kill_9 :: "vmm_host \<Rightarrow> nat \<Rightarrow> world \<Rightarrow> world" where
  "kill_9 H pid w = (if vmm_kill_denied H pid w then w else sigkill pid w)"

definition force_kill :: "env \<Rightarrow> kern \<Rightarrow> vmm_host \<Rightarrow> project_vm_record \<Rightarrow> unit cmd" where
  "force_kill E K H r =
     bindE (attempt (fs_read E K (pid_path_for_record r))) (\<lambda>q.
     bindE (case (case q of Inl e \<Rightarrow> None | Inr bs \<Rightarrow> from_utf8 bs) of
              None \<Rightarrow> ret ()
            | Some s \<Rightarrow> (case parse_uint (2 ^ 32) (trim s) of None \<Rightarrow> ret () | Some pid \<Rightarrow> modify (kill_9 H pid))) (\<lambda>_.
     bindE (modify (thread_sleep H 200)) (\<lambda>_.
     bindE (attempt (remove_file E (firecracker_sock r))) (\<lambda>_. ret ()))))"

definition stop_firecracker :: "env \<Rightarrow> kern \<Rightarrow> vmm_host \<Rightarrow> fc_config \<Rightarrow> project_vm_record \<Rightarrow> project_vm_record cmd" where
  "stop_firecracker E K H cfg r =
     (let sock = firecracker_sock r in
      bindE (asks (path_exists sock)) (\<lambda>x.
      bindE (whenE x
        (bindE (attempt (firecracker_api_put H (to_string_lossy sock) ''/actions''
                   (JObj [(''action_type'', JStr ''SendCtrlAltDel'')]))) (\<lambda>_.
         bindE (deadline_after (fc_stop_timeout_secs cfg)) (\<lambda>deadline.
         bindE (modify (wait_socket_gone H sock deadline)) (\<lambda>_.
         bindE (asks (path_exists sock)) (\<lambda>y.
         bindE (whenE y (force_kill E K H r)) (\<lambda>_.
         bindE (attempt (remove_file E (pid_path_for_record r))) (\<lambda>_. ret ())))))))) (\<lambda>_.
      ret (r\<lparr>vm_state := Stopped\<rparr>))))"

section \<open>The supervisor\<close>

definition provision_project_vm :: "env \<Rightarrow> pathbuf \<Rightarrow> project_vm_spec \<Rightarrow> project_vm_record cmd" where
  "provision_project_vm E root spec =
     bindE (of_result (validate_project_id (spec_project_id spec))) (\<lambda>_.
     bindE (ensure_vm_layout E root (spec_project_id spec)) (\<lambda>_.
     bindE (asks (path_exists (state_path root (spec_project_id spec)))) (\<lambda>x.
     bindE (if x then load_project_vm E root (spec_project_id spec) else create_project_vm E root spec) (\<lambda>r.
     touch_and_persist E root
       (r\<lparr>kernel_ref := spec_kernel_ref spec, seed_data_refs := spec_seed_data_refs spec,
          network_policy := spec_network_policy spec\<rparr>)))))"

definition get_project_vm :: "env \<Rightarrow> pathbuf \<Rightarrow> string \<Rightarrow> project_vm_record cmd" where
  "get_project_vm E root pid = load_project_vm E root pid"

definition detach_host_ebpf_if_loaded :: "env \<Rightarrow> kern \<Rightarrow> project_vm_record \<Rightarrow> unit cmd" where
  "detach_host_ebpf_if_loaded E K r =
     (case host_ebpf_policy r of None \<Rightarrow> ret () | Some pol \<Rightarrow> detach_host_ebpf E K pol)"

definition transition_vm_state_with_config ::
    "env \<Rightarrow> kern \<Rightarrow> vmm_host \<Rightarrow> pathbuf \<Rightarrow> string \<Rightarrow> vm_state \<Rightarrow> fc_config \<Rightarrow> project_vm_record cmd" where
  "transition_vm_state_with_config E K H root pid st cfg =
     bindE (load_project_vm E root pid) (\<lambda>r.
     case st of
       Running \<Rightarrow>
         if vm_state r = Running then throw (VmBoot (AlreadyRunning pid))
         else bindE (boot_firecracker E K H cfg r) (touch_and_persist E root)
     | Stopped \<Rightarrow>
         if vm_state r = Stopped then ret r
         else if vm_state r \<noteq> Running then throw (VmBoot (NotRunning pid (vm_state r)))
         else bindE (detach_host_ebpf_if_loaded E K r) (\<lambda>_.
              bindE (stop_firecracker E K H cfg r) (touch_and_persist E root))
     | Provisioned \<Rightarrow> touch_and_persist E root (r\<lparr>vm_state := Provisioned\<rparr>))"

definition transition_vm_state ::
    "env \<Rightarrow> kern \<Rightarrow> vmm_host \<Rightarrow> pathbuf \<Rightarrow> string \<Rightarrow> vm_state \<Rightarrow> project_vm_record cmd" where
  "transition_vm_state E K H root pid st = transition_vm_state_with_config E K H root pid st default_fc_config"

definition attach_network_policy :: "env \<Rightarrow> pathbuf \<Rightarrow> string \<Rightarrow> network_policy \<Rightarrow> project_vm_record cmd" where
  "attach_network_policy E root pid pol =
     bindE (load_project_vm E root pid) (\<lambda>r. touch_and_persist E root (r\<lparr>network_policy := pol\<rparr>))"

text \<open>\<open>retain\<close> by name, then \<open>push\<close>.\<close>

definition put_secret :: "secret_lease \<Rightarrow> secret_lease list \<Rightarrow> secret_lease list" where
  "put_secret l ls = filter (\<lambda>x. secret_name x \<noteq> secret_name l) ls @ [l]"

definition put_artifact :: "artifact_record \<Rightarrow> artifact_record list \<Rightarrow> artifact_record list" where
  "put_artifact a as = filter (\<lambda>x. art_name x \<noteq> art_name a) as @ [a]"

definition inject_secret :: "env \<Rightarrow> pathbuf \<Rightarrow> string \<Rightarrow> secret_lease \<Rightarrow> project_vm_record cmd" where
  "inject_secret E root pid l =
     bindE (load_project_vm E root pid) (\<lambda>r.
     touch_and_persist E root (r\<lparr>secrets := put_secret l (secrets r)\<rparr>))"

definition collect_artifact :: "env \<Rightarrow> pathbuf \<Rightarrow> string \<Rightarrow> artifact_record \<Rightarrow> project_vm_record cmd" where
  "collect_artifact E root pid a =
     (if trim (art_name a) = [] then throw (Bail ''artifact name must not be empty'')
      else bindE (load_project_vm E root pid) (\<lambda>r.
           touch_and_persist E root (r\<lparr>artifacts := put_artifact a (artifacts r)\<rparr>)))"

definition load_host_ebpf_policy ::
    "env \<Rightarrow> kern \<Rightarrow> pathbuf \<Rightarrow> string \<Rightarrow> host_ebpf_policy \<Rightarrow> project_vm_record cmd" where
  "load_host_ebpf_policy E K root pid pol =
     bindE (load_project_vm E root pid) (\<lambda>r.
     bindE (load_and_attach_host_ebpf E K pid (pol_name pol) (pol_object_path pol) (pol_attach_point pol)) (\<lambda>lp.
     touch_and_persist E root
       (r\<lparr>host_ebpf_policy := Some (pol\<lparr>tc_attach_handle := lp_tc_handle lp,
            pin_path := map_option to_string_lossy (lp_pin_path lp), loaded_at := Some (lp_loaded_at lp)\<rparr>)\<rparr>)))"

definition destroy_project_vm :: "env \<Rightarrow> kern \<Rightarrow> pathbuf \<Rightarrow> string \<Rightarrow> unit cmd" where
  "destroy_project_vm E K root pid =
     bindE (load_project_vm E root pid) (\<lambda>r.
     if vm_state r = Running then throw (Bail ''cannot destroy project VM: VM is still Running'')
     else bindE (detach_host_ebpf_if_loaded E K r) (\<lambda>_.
          bindE (asks (path_exists (vm_dir root pid))) (\<lambda>x.
          whenE x (remove_dir_all E (vm_dir root pid)))))"

end
