(* ===== verification/VmLaws.thy ===== *)
theory VmLaws
  imports Vm
begin

text \<open>
  Proofs about the host control plane: frames, the invariant of the records on disk over every
  sequence of supervisor calls, what each transition does and what it leaves behind when it fails.
\<close>

section \<open>Frames\<close>

text \<open>A predicate that a plain file at \<open>p\<close> does not bear on.\<close>

definition plain_at :: "(world \<Rightarrow> bool) \<Rightarrow> env \<Rightarrow> pathbuf \<Rightarrow> bool" where
  "plain_at P E p \<longleftrightarrow>
     keeps P (remove_file E p) \<and> (\<forall>op err bs. keeps P (place_file E op err p (Raw bs)))"

text \<open>A predicate on which the other processes, the clock and the list of VM processes have no bearing.\<close>

definition idle_neutral :: "(world \<Rightarrow> bool) \<Rightarrow> vmm_host \<Rightarrow> bool" where
  "idle_neutral P H \<longleftrightarrow>
     (\<forall>ms w. P w \<longrightarrow> P (vmm_idle H ms w)) \<and> (\<forall>w t. P (w\<lparr>clock := t\<rparr>) = P w) \<and>
     (\<forall>w v. P (w\<lparr>vmms := v\<rparr>) = P w)"

definition host_neutral :: "(world \<Rightarrow> bool) \<Rightarrow> vmm_host \<Rightarrow> bool" where
  "host_neutral P H \<longleftrightarrow> idle_neutral P H \<and> (\<forall>m s u b w. P w \<longrightarrow> P (snd (vmm_curl H m s u b w)))"

lemma host_neutral_idle: "host_neutral P H \<Longrightarrow> idle_neutral P H"
  by (simp add: host_neutral_def)

lemma plain_atD:
  "plain_at P E p \<Longrightarrow> keeps P (remove_file E p)"
  "plain_at P E p \<Longrightarrow> keeps P (place_file E op err p (Raw bs))"
  by (auto simp: plain_at_def)

lemma idle_neutral_sleep: "idle_neutral P H \<Longrightarrow> P w \<Longrightarrow> P (thread_sleep H ms w)"
  by (simp add: idle_neutral_def thread_sleep_def)

lemma idle_neutral_kill: "idle_neutral P H \<Longrightarrow> P (sigkill pid w) = P w"
  by (simp add: idle_neutral_def sigkill_def)

lemma keeps_run_curl: "host_neutral P H \<Longrightarrow> keeps P (run_curl H m s u b)"
  unfolding keeps_def run_curl_def host_neutral_def
  by (auto split: prod.splits sum.splits) (metis snd_conv)+

lemma keeps_put: "host_neutral P H \<Longrightarrow> keeps P (firecracker_api_put H s u b)"
  unfolding firecracker_api_put_def by (intro keeps_intros keeps_run_curl)

lemma keeps_deadline [keeps_intros]: "keeps P (deadline_after n)"
  by (auto simp: keeps_def deadline_after_def split: if_splits)

lemma keeps_read_log [keeps_intros]: "keeps P (read_firecracker_log E K sock)"
  unfolding read_firecracker_log_def Let_def by (intro keeps_intros)

text \<open>One way a wait for the socket ends, in the world \<open>v\<close> of its last look.\<close>

definition wait_end :: "env \<Rightarrow> kern \<Rightarrow> vmm_host \<Rightarrow> pathbuf \<Rightarrow> nat \<Rightarrow> u64 \<Rightarrow> nat \<Rightarrow> world \<Rightarrow> (error + unit) \<times> world" where
  "wait_end E K H sock pid timeout deadline v =
     (if path_exists sock v then (Inr (), v)
      else case vmm_try_wait H pid v of
          Inl e \<Rightarrow> (Inl (Bail ''cannot poll Firecracker process''), v)
        | Inr (Some status) \<Rightarrow>
            bindE (read_firecracker_log E K sock) (\<lambda>s.
              throw (VmBoot (ProcessExitedEarly (show_status status) s))) v
        | Inr None \<Rightarrow> (Inl (VmBoot (SocketTimeout sock timeout)), sigkill pid v))"

definition still_waiting :: "vmm_host \<Rightarrow> pathbuf \<Rightarrow> nat \<Rightarrow> nat \<Rightarrow> world \<Rightarrow> bool" where
  "still_waiting H sock pid deadline v \<longleftrightarrow>
     \<not> path_exists sock v \<and> vmm_try_wait H pid v = Inr None \<and> clock v < deadline"

lemma wait_until_ends:
  "\<exists>n. 100 * n < deadline - clock w + 100 \<and>
     (\<forall>i<n. still_waiting H sock pid deadline ((thread_sleep H 100 ^^ i) w)) \<and>
     \<not> still_waiting H sock pid deadline ((thread_sleep H 100 ^^ n) w) \<and>
     wait_socket_until E K H sock pid timeout deadline w =
       wait_end E K H sock pid timeout deadline ((thread_sleep H 100 ^^ n) w)"
proof (induction "deadline - clock w" arbitrary: w rule: less_induct)
  case less
  show ?case
  proof (cases "still_waiting H sock pid deadline w")
    case False
    then show ?thesis
      by (intro exI [of _ 0])
         (auto simp: wait_end_def still_waiting_def wait_socket_until.simps [of E K H sock pid timeout deadline w]
            split: sum.splits option.splits)
  next
    case True
    let ?w = "thread_sleep H 100 w"
    from True have lt: "deadline - clock ?w < deadline - clock w" by (auto simp: still_waiting_def)
    from less [OF lt] obtain m where m: "100 * m < deadline - clock ?w + 100"
      "\<forall>i<m. still_waiting H sock pid deadline ((thread_sleep H 100 ^^ i) ?w)"
      "\<not> still_waiting H sock pid deadline ((thread_sleep H 100 ^^ m) ?w)"
      "wait_socket_until E K H sock pid timeout deadline ?w =
         wait_end E K H sock pid timeout deadline ((thread_sleep H 100 ^^ m) ?w)" by blast
    have step: "wait_socket_until E K H sock pid timeout deadline w = wait_socket_until E K H sock pid timeout deadline ?w"
      using True by (subst wait_socket_until.simps) (auto simp: still_waiting_def)
    have all: "still_waiting H sock pid deadline ((thread_sleep H 100 ^^ i) w)" if "i < Suc m" for i
      using that m(2) True by (cases i) (auto simp: funpow_swap1)
    have "clock w < deadline" using True by (simp add: still_waiting_def)
    with m(1) have "100 * Suc m < deadline - clock w + 100" unfolding clock_thread_sleep by arith
    with m step all show ?thesis by (intro exI [of _ "Suc m"]) (simp add: funpow_swap1)
  qed
qed

lemma wait_gone_ends: "\<exists>n. wait_socket_gone H sock deadline w = (thread_sleep H 200 ^^ n) w"
proof (induction "deadline - clock w" arbitrary: w rule: less_induct)
  case less
  show ?case
  proof (cases "path_exists sock w \<and> clock w < deadline")
    case True
    then have "deadline - clock (thread_sleep H 200 w) < deadline - clock w" by auto
    from less [OF this] obtain n
      where "wait_socket_gone H sock deadline (thread_sleep H 200 w) = (thread_sleep H 200 ^^ n) (thread_sleep H 200 w)" ..
    with True show ?thesis
      by (subst wait_socket_gone.simps) (auto simp: funpow_swap1 intro!: exI [of _ "Suc n"])
  next
    case False
    then show ?thesis by (subst wait_socket_gone.simps) (auto intro: exI [of _ 0])
  qed
qed

lemma idle_neutral_sleeps: "idle_neutral P H \<Longrightarrow> P w \<Longrightarrow> P ((thread_sleep H ms ^^ n) w)"
  by (induction n) (auto intro: idle_neutral_sleep)

lemma keeps_wait_until:
  assumes "idle_neutral P H"
  shows "keeps P (wait_socket_until E K H sock pid timeout deadline)"
proof (rule keepsI)
  fix w r w'
  assume run: "wait_socket_until E K H sock pid timeout deadline w = (r, w')" and "P w"
  from wait_until_ends [of deadline w H sock pid E K timeout] run
  obtain v where v: "P v" "wait_end E K H sock pid timeout deadline v = (r, w')"
    using idle_neutral_sleeps [OF assms \<open>P w\<close>] by metis
  have "keeps P (bindE (read_firecracker_log E K sock) (\<lambda>s.
      throw (VmBoot (ProcessExitedEarly (show_status st) s)) :: unit cmd))" for st
    by (intro keeps_intros)
  with v show "P w'"
    by (auto simp: wait_end_def idle_neutral_kill [OF assms] split: if_splits sum.splits option.splits dest: keepsD)
qed

lemma keeps_boot_idle:
  assumes "idle_neutral P H"
  shows "keeps P (wait_for_socket E K H sock pid timeout)"
    and "keeps P (spawn_firecracker H cfg r)"
proof -
  show "keeps P (wait_for_socket E K H sock pid timeout)"
    unfolding wait_for_socket_def by (intro keeps_intros keeps_wait_until assms)
  show "keeps P (spawn_firecracker H cfg r)"
    using assms by (auto simp: keeps_def spawn_firecracker_def idle_neutral_def split: sum.splits)
qed

lemma keeps_boot_steps:
  assumes "host_neutral P H"
  shows "keeps P (wait_for_socket E K H sock pid timeout)"
    and "keeps P (spawn_firecracker H cfg r)"
    and "keeps P (boot_api H cfg r)"
    and "keeps P (modify (wait_socket_gone H sock deadline))"
    and "keeps P (modify (thread_sleep H ms))"
    and "keeps P (modify (kill_9 H pid))"
proof -
  note idle = host_neutral_idle [OF assms]
  show "keeps P (wait_for_socket E K H sock pid timeout)" "keeps P (spawn_firecracker H cfg r)"
    by (rule keeps_boot_idle [OF idle])+
  show "keeps P (boot_api H cfg r)"
    unfolding boot_api_def by (intro keeps_intros keeps_put assms)
  show "keeps P (modify (wait_socket_gone H sock deadline))"
  proof (rule keeps_modify)
    fix w assume "P w"
    obtain n where "wait_socket_gone H sock deadline w = (thread_sleep H 200 ^^ n) w" using wait_gone_ends ..
    with idle_neutral_sleeps [OF idle \<open>P w\<close>] show "P (wait_socket_gone H sock deadline w)" by simp
  qed
  show "keeps P (modify (thread_sleep H ms))"
    by (rule keeps_modify, rule idle_neutral_sleep [OF idle])
  show "keeps P (modify (kill_9 H pid))"
    by (intro keeps_modify) (simp add: kill_9_def idle_neutral_kill [OF idle])
qed

lemma keeps_plain_files:
  assumes "plain_at P E p"
  shows "keeps P (open_append E p)" "keeps P (append_text E p s)" "keeps P (fs_write_text E p s)"
    "keeps P (ensure_empty_file E p)"
proof -
  show app: "keeps P (open_append E p)"
    unfolding open_append_def by (auto intro!: keeps_intros plain_atD(2) [OF assms] split: option.splits node.splits)
  show "keeps P (append_text E p s)"
    unfolding append_text_def
    by (auto intro!: keeps_intros app plain_atD(2) [OF assms] split: option.splits node.splits content.splits)
  show "keeps P (fs_write_text E p s)"
    unfolding fs_write_text_def by (intro keeps_intros plain_atD(2) [OF assms])
  show "keeps P (ensure_empty_file E p)"
    unfolding ensure_empty_file_def by (intro keeps_intros plain_atD(2) [OF assms])
qed

definition runtime_files_plain :: "(world \<Rightarrow> bool) \<Rightarrow> env \<Rightarrow> project_vm_record \<Rightarrow> bool" where
  "runtime_files_plain P E r \<longleftrightarrow>
     plain_at P E (firecracker_sock r) \<and> plain_at P E (vm_log_file r) \<and> plain_at P E (pid_path_for_record r)"

lemma keeps_boot_preflight:
  "plain_at P E (firecracker_sock r) \<Longrightarrow> plain_at P E (vm_log_file r) \<Longrightarrow> keeps P (boot_preflight E cfg r)"
  unfolding boot_preflight_def check_kvm_access_def by (intro keeps_intros keeps_plain_files plain_atD(1))

lemma keeps_write_pid_file:
  "plain_at P E (vm_log_file r) \<Longrightarrow> plain_at P E (pid_path_for_record r) \<Longrightarrow> keeps P (write_pid_file E H r pid)"
  unfolding write_pid_file_def by (intro keeps_intros keeps_plain_files)

lemma keeps_boot_firecracker:
  assumes "host_neutral P H" and "runtime_files_plain P E r"
  shows "keeps P (boot_firecracker E K H cfg r)"
  unfolding boot_firecracker_def
  using assms(2)
  by (intro keeps_intros keeps_boot_steps keeps_boot_preflight keeps_write_pid_file assms(1))
     (simp_all add: runtime_files_plain_def)

lemma keeps_stop_firecracker:
  assumes "host_neutral P H" and "runtime_files_plain P E r"
  shows "keeps P (stop_firecracker E K H cfg r)"
proof -
  have "keeps P (force_kill E K H r)"
    unfolding force_kill_def
    using assms by (intro keeps_intros keeps_boot_steps plain_atD(1)) (simp_all add: runtime_files_plain_def)
  then show ?thesis
    unfolding stop_firecracker_def Let_def
    using assms by (intro keeps_intros keeps_boot_steps keeps_put plain_atD(1)) (simp_all add: runtime_files_plain_def)
qed

lemma keeps_detach:
  assumes "tc_blind P"
    and "\<And>p. pin_path pol = Some p \<Longrightarrow> plain_at P E p \<and> (\<forall>d. path_parent p = Some d \<longrightarrow> keeps P (remove_dir E d))"
  shows "keeps P (detach_host_ebpf E K pol)"
  unfolding detach_host_ebpf_def unpin_bpf_prog_def remove_parent_dir_def
  using assms(2) by (auto intro!: keeps_intros keeps_tc_blind assms(1) plain_atD(1))

lemma keeps_load_and_attach:
  assumes "tc_blind P" and "fds_blind P" and pin: "\<And>fd. keeps P (pin_bpf_prog E K fd (bpf_pin_path pid name))"
  shows "keeps P (load_and_attach_host_ebpf E K pid name obj aps)"
proof -
  have "keeps P (attach_loaded E K pid name obj ap fd)" for ap fd
    unfolding attach_loaded_def infer_tc_section_def
    by (auto intro!: keeps_intros keeps_tc_blind pin assms(1) split: attach_point.splits option.splits)
  moreover have "keeps P (load_bpf_prog_from_object E K obj name ap)" for ap
    unfolding load_bpf_prog_from_object_def load_bpf_object_file_def Let_def
    by (auto intro!: keeps_intros keeps_fds_blind assms(2) split: prod.splits)
  ultimately show ?thesis
    unfolding load_and_attach_host_ebpf_def Let_def by (intro keeps_intros)
qed

section \<open>The records on disk\<close>

definition record_ok :: "pathbuf \<Rightarrow> project_vm_record \<Rightarrow> bool" where
  "record_ok root r \<longleftrightarrow>
     (let d = vm_dir root (project_id r) in
      validate_project_id (project_id r) = Inr () \<and> rec_vm_dir r = d \<and>
      firecracker_sock r = join d ''firecracker.sock'' \<and> kernel_path r = join d ''kernel'' \<and>
      rootfs_path r = join d ''rootfs.img'' \<and> workspace_path r = join d ''workspace.img'' \<and>
      cache_dir r = join d ''cache'' \<and> logs_dir r = join d ''logs'' \<and> artifacts_dir r = join d ''artifacts'' \<and>
      rec_state_path r = state_path root (project_id r) \<and>
      distinct (map secret_name (secrets r)) \<and> distinct (map art_name (artifacts r)) \<and>
      (\<forall>a\<in>set (artifacts r). trim (art_name a) \<noteq> []))"

definition vm_file_ok :: "pathbuf \<Rightarrow> fpath \<Rightarrow> content \<Rightarrow> bool" where
  "vm_file_ok root q c \<longleftrightarrow>
     (case c of VmJson r \<Rightarrow> record_ok root r \<and> q = resolve (state_path root (project_id r)) | _ \<Rightarrow> True)"

text \<open>Every record in the tree is well formed and lies where its project id says.\<close>

definition vm_inv :: "pathbuf \<Rightarrow> world \<Rightarrow> bool" where
  "vm_inv root = files_ok (vm_file_ok root)"

definition foreign_vm_ok :: "env \<Rightarrow> pathbuf \<Rightarrow> bool" where
  "foreign_vm_ok E root \<longleftrightarrow> (\<forall>c r. parse_vm E c = Some r \<longrightarrow> record_ok root r)"

lemma vm_file_ok_simps [simp]:
  "vm_file_ok root q (Raw bs)"
  "vm_file_ok root q (VmJson r) \<longleftrightarrow> record_ok root r \<and> q = resolve (state_path root (project_id r))"
  by (simp_all add: vm_file_ok_def)

lemma follow_found: "follow k t p = Some n \<Longrightarrow> \<exists>q. tlookup t q = Some n"
  by (induction k t p rule: follow.induct) (auto split: option.splits node.splits)

lemma keeps_load [keeps_intros]: "keeps P (load_project_vm E root pid)"
  unfolding load_project_vm_def Let_def by (auto intro!: keeps_intros split: option.splits node.splits)

lemma load_state: "load_project_vm E root pid w = (r, w') \<Longrightarrow> w' = w"
  by (drule keepsD [OF keeps_load [of "\<lambda>x. x = w"]]) simp_all

lemma load_found:
  assumes "load_project_vm E root pid w = (Inr r, w')"
  shows "\<exists>c. metadata (fs w) (state_path root pid) = Some (RegFile c) \<and> vm_content E c = Some r"
  using assms
  by (auto simp: load_project_vm_def Let_def runs split: option.splits node.splits if_splits)

lemma fresh_record_ok: "validate_project_id (spec_project_id spec) = Inr () \<Longrightarrow> record_ok root (fresh_record E root spec)"
  by (simp add: record_ok_def fresh_record_def Let_def)

lemma record_ok_updates [simp]:
  "record_ok root (r\<lparr>vm_updated_at := t\<rparr>) = record_ok root r"
  "record_ok root (r\<lparr>vm_state := st\<rparr>) = record_ok root r"
  "record_ok root (r\<lparr>network_policy := n\<rparr>) = record_ok root r"
  "record_ok root (r\<lparr>kernel_ref := k\<rparr>) = record_ok root r"
  "record_ok root (r\<lparr>seed_data_refs := sd\<rparr>) = record_ok root r"
  "record_ok root (r\<lparr>host_ebpf_policy := pol\<rparr>) = record_ok root r"
  by (simp_all add: record_ok_def)

lemma distinct_put:
  "distinct (map secret_name ls) \<Longrightarrow> distinct (map secret_name (put_secret l ls))"
  "distinct (map art_name as) \<Longrightarrow> distinct (map art_name (put_artifact a as))"
  by (auto simp: put_secret_def put_artifact_def distinct_map inj_on_def)

lemma record_ok_put:
  "record_ok root r \<Longrightarrow> record_ok root (r\<lparr>secrets := put_secret l (secrets r)\<rparr>)"
  "record_ok root r \<Longrightarrow> trim (art_name a) \<noteq> [] \<Longrightarrow> record_ok root (r\<lparr>artifacts := put_artifact a (artifacts r)\<rparr>)"
  by (auto simp: record_ok_def Let_def distinct_put) (auto simp: put_artifact_def)

section \<open>Calls\<close>

datatype vm_call =
    CallProvision project_vm_spec
  | CallGet string
  | CallTransition string vm_state fc_config
  | CallNetwork string network_policy
  | CallSecret string secret_lease
  | CallArtifact string artifact_record
  | CallEbpf string host_ebpf_policy
  | CallDestroy string

definition vm_run :: "env \<Rightarrow> kern \<Rightarrow> vmm_host \<Rightarrow> pathbuf \<Rightarrow> vm_call \<Rightarrow> project_vm_record option cmd" where
  "vm_run E K H root c =
     (case c of
        CallProvision spec \<Rightarrow> bindE (provision_project_vm E root spec) (\<lambda>r. ret (Some r))
      | CallGet pid \<Rightarrow> bindE (get_project_vm E root pid) (\<lambda>r. ret (Some r))
      | CallTransition pid st cfg \<Rightarrow> bindE (transition_vm_state_with_config E K H root pid st cfg) (\<lambda>r. ret (Some r))
      | CallNetwork pid pol \<Rightarrow> bindE (attach_network_policy E root pid pol) (\<lambda>r. ret (Some r))
      | CallSecret pid l \<Rightarrow> bindE (inject_secret E root pid l) (\<lambda>r. ret (Some r))
      | CallArtifact pid a \<Rightarrow> bindE (collect_artifact E root pid a) (\<lambda>r. ret (Some r))
      | CallEbpf pid pol \<Rightarrow> bindE (load_host_ebpf_policy E K root pid pol) (\<lambda>r. ret (Some r))
      | CallDestroy pid \<Rightarrow> bindE (destroy_project_vm E K root pid) (\<lambda>_. ret None))"

text \<open>Any sequence of calls, failed ones included, with the other processes running in between.\<close>

inductive vm_reach :: "env \<Rightarrow> kern \<Rightarrow> vmm_host \<Rightarrow> pathbuf \<Rightarrow> world \<Rightarrow> world \<Rightarrow> bool"
  for E K H root w0 where
  start: "vm_reach E K H root w0 w0"
| called: "vm_reach E K H root w0 w \<Longrightarrow> vm_run E K H root c w = (res, w') \<Longrightarrow> vm_reach E K H root w0 w'"
| idled: "vm_reach E K H root w0 w \<Longrightarrow> vm_reach E K H root w0 (vmm_idle H ms w)"

section \<open>What a call keeps\<close>

text \<open>A property of records that every update the supervisor makes respects. \<open>allowed\<close> restricts the
  project id and the name of a loaded eBPF policy.\<close>

locale record_laws =
  fixes R :: "project_vm_record \<Rightarrow> bool" and root :: pathbuf and allowed :: "string \<Rightarrow> string \<Rightarrow> bool"
  assumes fresh: "validate_project_id (spec_project_id spec) = Inr () \<Longrightarrow> R (fresh_record E root spec)"
    and touched: "R r \<Longrightarrow> R (r\<lparr>vm_updated_at := t\<rparr>)"
    and moved: "R r \<Longrightarrow> R (r\<lparr>vm_state := st\<rparr>)"
    and networked: "R r \<Longrightarrow> R (r\<lparr>network_policy := n\<rparr>)"
    and described: "R r \<Longrightarrow> R (r\<lparr>kernel_ref := k, seed_data_refs := sd, network_policy := n\<rparr>)"
    and leased: "R r \<Longrightarrow> R (r\<lparr>secrets := put_secret l (secrets r)\<rparr>)"
    and collected: "R r \<Longrightarrow> trim (art_name a) \<noteq> [] \<Longrightarrow> R (r\<lparr>artifacts := put_artifact a (artifacts r)\<rparr>)"
    and policed: "R r \<Longrightarrow> allowed pid (pol_name pol) \<Longrightarrow>
      p \<in> {None, Some (to_string_lossy (bpf_pin_path pid (pol_name pol)))} \<Longrightarrow>
      R (r\<lparr>host_ebpf_policy := Some (pol\<lparr>tc_attach_handle := h, pin_path := p, loaded_at := la\<rparr>)\<rparr>)"

text \<open>Every record on disk satisfies \<open>R\<close> and lies at its project's place.\<close>

definition records_at :: "(project_vm_record \<Rightarrow> bool) \<Rightarrow> pathbuf \<Rightarrow> world \<Rightarrow> bool" where
  "records_at R root =
     files_ok (\<lambda>q c. case c of VmJson r \<Rightarrow> R r \<and> q = resolve (state_path root (project_id r)) | _ \<Rightarrow> True)"

definition foreign_ok :: "(project_vm_record \<Rightarrow> bool) \<Rightarrow> env \<Rightarrow> bool" where
  "foreign_ok R E \<longleftrightarrow> (\<forall>c r. parse_vm E c = Some r \<longrightarrow> R r)"

text \<open>The steps of the calls keep \<open>P\<close>, on records that satisfy \<open>R\<close>.\<close>

definition steps_keep ::
    "(project_vm_record \<Rightarrow> bool) \<Rightarrow> (world \<Rightarrow> bool) \<Rightarrow> env \<Rightarrow> kern \<Rightarrow> vmm_host \<Rightarrow> pathbuf \<Rightarrow> bool" where
  "steps_keep R P E K H root \<longleftrightarrow>
     host_neutral P H \<and>
     (\<forall>r. R r \<longrightarrow> runtime_files_plain P E r \<and> keeps P (touch_and_persist E root r) \<and>
        keeps P (detach_host_ebpf_if_loaded E K r)) \<and>
     (\<forall>spec. validate_project_id (spec_project_id spec) = Inr () \<longrightarrow>
        keeps P (ensure_vm_layout E root (spec_project_id spec)) \<and> keeps P (create_project_vm E root spec))"

text \<open>The two steps that use the project id they are given rather than a record's.\<close>

definition call_keeps :: "(world \<Rightarrow> bool) \<Rightarrow> env \<Rightarrow> kern \<Rightarrow> pathbuf \<Rightarrow> (string \<Rightarrow> string \<Rightarrow> bool) \<Rightarrow> vm_call \<Rightarrow> bool" where
  "call_keeps P E K root allowed c \<longleftrightarrow>
     (case c of
        CallDestroy pid \<Rightarrow> keeps P (remove_dir_all E (vm_dir root pid))
      | CallEbpf pid pol \<Rightarrow> allowed pid (pol_name pol) \<and>
          keeps P (load_and_attach_host_ebpf E K pid (pol_name pol) (pol_object_path pol) (pol_attach_point pol))
      | _ \<Rightarrow> True)"

lemma load_satisfies:
  assumes "load_project_vm E root pid w = (Inr r, w')" and "records_at R root w" and "foreign_ok R E"
  shows "R r"
proof -
  from load_found [OF assms(1)] obtain c q where "tlookup (fs w) q = Some (RegFile c)" "vm_content E c = Some r"
    by (auto simp: metadata_def dest: follow_found)
  with assms(2,3) show ?thesis
    by (cases c) (auto simp: records_at_def vm_content_def foreign_ok_def dest: files_okD)
qed

lemma boot_Inr_record: "boot_firecracker E K H cfg r w = (Inr r', w') \<Longrightarrow> r' = r\<lparr>vm_state := Running\<rparr>"
  by (auto simp: boot_firecracker_def runs)

lemma stop_Inr_record: "stop_firecracker E K H cfg r w = (Inr r', w') \<Longrightarrow> r' = r\<lparr>vm_state := Stopped\<rparr>"
  by (auto simp: stop_firecracker_def Let_def runs)

lemma create_Inr_record: "create_project_vm E root spec w = (Inr r, w') \<Longrightarrow> r = fresh_record E root spec"
  by (auto simp: create_project_vm_def Let_def runs)

lemma attach_pins_at:
  assumes "load_and_attach_host_ebpf E K pid name obj aps w = (Inr lp, w')"
  shows "lp_pin_path lp \<in> {None, Some (bpf_pin_path pid name)}"
proof -
  from load_and_attach_Inr [OF assms] obtain fd v
    where a: "attach_loaded E K pid name obj (parse_attach_point aps) fd v = (Inr lp, w')" by blast
  show ?thesis
  proof (cases "\<exists>dev d. parse_attach_point aps = Tc dev d")
    case True
    with a show ?thesis by (auto simp: attach_loaded_def runs)
  next
    case False
    then show ?thesis using attach_loaded_pin [OF _ a] by (auto split: option.splits)
  qed
qed

context record_laws begin

lemma keeps_load_then:
  assumes "foreign_ok R E" and "\<And>w. P w \<Longrightarrow> records_at R root w" and "\<And>r. R r \<Longrightarrow> keeps P (f r)"
  shows "keeps P (bindE (load_project_vm E root pid) f)"
  by (rule keeps_bindE_result) (auto intro: keeps_load assms(3) load_satisfies [OF _ assms(2) assms(1)])

lemma keeps_transition:
  assumes "foreign_ok R E" and "\<And>w. P w \<Longrightarrow> records_at R root w" and s: "steps_keep R P E K H root"
  shows "keeps P (transition_vm_state_with_config E K H root pid st cfg)"
  unfolding transition_vm_state_with_config_def
proof (rule keeps_load_then [OF assms(1,2)])
  fix r
  assume r: "R r"
  have P: "host_neutral P H" "runtime_files_plain P E r" "keeps P (detach_host_ebpf_if_loaded E K r)"
    "keeps P (touch_and_persist E root (r\<lparr>vm_state := z\<rparr>))" for z
    using s r moved [OF r] by (auto simp: steps_keep_def)
  have "keeps P (bindE (boot_firecracker E K H cfg r) (touch_and_persist E root))"
    by (rule keeps_bindE_result [OF keeps_boot_firecracker [OF P(1,2)]]) (auto dest!: boot_Inr_record intro: P(4))
  moreover have "keeps P (bindE (stop_firecracker E K H cfg r) (touch_and_persist E root))"
    by (rule keeps_bindE_result [OF keeps_stop_firecracker [OF P(1,2)]]) (auto dest!: stop_Inr_record intro: P(4))
  ultimately show "keeps P
     (case st of
       Running \<Rightarrow>
         if vm_state r = Running then throw (VmBoot (AlreadyRunning pid))
         else bindE (boot_firecracker E K H cfg r) (touch_and_persist E root)
     | Stopped \<Rightarrow>
         if vm_state r = Stopped then ret r
         else if vm_state r \<noteq> Running then throw (VmBoot (NotRunning pid (vm_state r)))
         else bindE (detach_host_ebpf_if_loaded E K r) (\<lambda>_.
              bindE (stop_firecracker E K H cfg r) (touch_and_persist E root))
     | Provisioned \<Rightarrow> touch_and_persist E root (r\<lparr>vm_state := Provisioned\<rparr>))"
    by (cases st) (simp_all add: keeps_intros P)
qed

lemma keeps_provision:
  assumes "foreign_ok R E" and "\<And>w. P w \<Longrightarrow> records_at R root w" and s: "steps_keep R P E K H root"
  shows "keeps P (provision_project_vm E root spec)"
proof (cases "validate_project_id (spec_project_id spec)")
  case (Inl e)
  then show ?thesis by (simp add: provision_project_vm_def of_result_def bindE_def keeps_def)
next
  case (Inr u)
  then have v: "validate_project_id (spec_project_id spec) = Inr ()" by simp
  have persist: "keeps P (touch_and_persist E root
       (r\<lparr>kernel_ref := k, seed_data_refs := sd, network_policy := n\<rparr>))" if "R r" for r k sd n
    using s described [OF that] by (simp add: steps_keep_def)
  have layout: "keeps P (ensure_vm_layout E root (spec_project_id spec))" and create: "keeps P (create_project_vm E root spec)"
    using s v by (auto simp: steps_keep_def)
  have made: "keeps P (bindE (create_project_vm E root spec) (\<lambda>r. touch_and_persist E root
       (r\<lparr>kernel_ref := k, seed_data_refs := sd, network_policy := n\<rparr>)))" for k sd n
    by (rule keeps_bindE_result [OF create]) (auto dest!: create_Inr_record intro: persist fresh v)
  show ?thesis
    unfolding provision_project_vm_def bindE_if
    by (intro keeps_bindE keeps_of_result keeps_asks keeps_if layout made keeps_load_then assms(1,2) persist) assumption+
qed

lemma keeps_load_ebpf:
  assumes "foreign_ok R E" and "\<And>w. P w \<Longrightarrow> records_at R root w" and s: "steps_keep R P E K H root"
    and c: "call_keeps P E K root allowed (CallEbpf pid pol)"
  shows "keeps P (load_host_ebpf_policy E K root pid pol)"
  unfolding load_host_ebpf_policy_def
proof (rule keeps_load_then [OF assms(1,2)], assumption, rule keeps_bindE_result)
  show "keeps P (load_and_attach_host_ebpf E K pid (pol_name pol) (pol_object_path pol) (pol_attach_point pol))"
    using c by (simp add: call_keeps_def)
  fix r lp w w'
  assume r: "R r" and "load_and_attach_host_ebpf E K pid (pol_name pol) (pol_object_path pol) (pol_attach_point pol) w = (Inr lp, w')"
  then have "map_option to_string_lossy (lp_pin_path lp) \<in> {None, Some (to_string_lossy (bpf_pin_path pid (pol_name pol)))}"
    by (auto dest: attach_pins_at)
  from policed [OF r _ this] s c show "keeps P (touch_and_persist E root (r\<lparr>host_ebpf_policy :=
      Some (pol\<lparr>tc_attach_handle := lp_tc_handle lp, pin_path := map_option to_string_lossy (lp_pin_path lp),
                loaded_at := Some (lp_loaded_at lp)\<rparr>)\<rparr>))"
    by (simp add: steps_keep_def call_keeps_def)
qed

lemma keeps_run:
  assumes loads: "foreign_ok R E" "\<And>w. P w \<Longrightarrow> records_at R root w" and s: "steps_keep R P E K H root"
    and c: "call_keeps P E K root allowed c"
  shows "keeps P (vm_run E K H root c)"
proof -
  have persist: "keeps P (touch_and_persist E root r)" "keeps P (detach_host_ebpf_if_loaded E K r)" if "R r" for r
    using s that by (auto simp: steps_keep_def)
  note simple = networked leased collected
  show ?thesis
    using c
    by (cases c)
       (auto simp: vm_run_def get_project_vm_def attach_network_policy_def inject_secret_def collect_artifact_def
          destroy_project_vm_def call_keeps_def
        intro!: keeps_intros keeps_load_then [OF loads] keeps_provision [OF loads s] keeps_transition [OF loads s]
          keeps_load_ebpf [OF loads s] persist simple)
qed

text \<open>The records themselves are kept.\<close>

lemma plain_records: "plain_at (records_at R root) E p" "keeps (records_at R root) (create_dir_all E p)"
  "keeps (records_at R root) (remove_dir E p)"
  by (auto simp: plain_at_def records_at_def intro: keeps_files_ok)

lemma blind_records: "tc_blind (records_at R root)" "fds_blind (records_at R root)"
  by (simp_all add: tc_blind_def fds_blind_def records_at_def files_ok_def)

lemma keeps_pin_records: "keeps (records_at R root) (pin_bpf_prog E K fd p)"
proof -
  have no_file: "tlookup Special q \<noteq> Some (RegFile c)" for q c by (cases q) auto
  have "keeps (records_at R root) (sys_bpf_pin K fd p)"
    by (auto simp: keeps_def sys_bpf_pin_def records_at_def no_file split: option.splits if_splits intro: files_ok_set)
  then show ?thesis unfolding pin_bpf_prog_def by (intro keeps_intros plain_records)
qed

lemma steps_keep_records:
  assumes "host_neutral (records_at R root) H"
  shows "steps_keep R (records_at R root) E K H root"
proof -
  let ?P = "records_at R root"
  have "keeps ?P (touch_and_persist E root r)" if "R r" for r
    using touched [OF that] plain_records(2)
    unfolding touch_and_persist_def persist_record_def Let_def records_at_def
    by (auto intro!: keeps_intros keeps_files_ok split: option.splits)
  moreover have "keeps ?P (detach_host_ebpf_if_loaded E K r)" for r
    unfolding detach_host_ebpf_if_loaded_def by (auto intro!: keeps_intros keeps_detach plain_records blind_records)
  moreover have "keeps ?P (ensure_vm_layout E root pid)" "keeps ?P (create_project_vm E root spec)" for pid spec
    unfolding ensure_vm_layout_def create_project_vm_def Let_def
    by (intro keeps_intros keeps_plain_files plain_records)+
  ultimately show ?thesis using assms by (simp add: steps_keep_def runtime_files_plain_def plain_records)
qed

lemma call_keeps_records:
  assumes "residue_within E" and "case c of CallEbpf pid pol \<Rightarrow> allowed pid (pol_name pol) | _ \<Rightarrow> True"
  shows "call_keeps (records_at R root) E K root allowed c"
proof -
  have "keeps (records_at R root) (remove_dir_all E p)" for p
    unfolding records_at_def by (rule keeps_files_ok_remove [OF assms(1)])
  with assms(2) show ?thesis
    by (auto simp: call_keeps_def blind_records keeps_pin_records intro: keeps_load_and_attach split: vm_call.splits)
qed

end

section \<open>The invariant\<close>

interpretation well_formed: record_laws "record_ok root" root "\<lambda>pid name. True" for root
  by unfold_locales (auto intro: fresh_record_ok record_ok_put)

lemma vm_inv_records: "vm_inv root = records_at (record_ok root) root"
  by (simp add: vm_inv_def records_at_def vm_file_ok_def [abs_def])

lemma keeps_inv_run:
  assumes "foreign_vm_ok E root" and "host_neutral (vm_inv root) H" and "residue_within E"
  shows "keeps (vm_inv root) (vm_run E K H root c)"
proof -
  have "foreign_ok (record_ok root) E" using assms(1) by (simp add: foreign_ok_def foreign_vm_ok_def)
  then show ?thesis
    using assms(2,3) unfolding vm_inv_records
    by (intro well_formed.keeps_run well_formed.steps_keep_records well_formed.call_keeps_records)
       (auto split: vm_call.splits)
qed

end
