(* ===== verification/VmClaims.thy ===== *)
theory VmClaims
  imports VmLaws
begin

text \<open>
  The properties of the host control plane, with the laws of single steps they rest on and the
  sample host on which their hypotheses hold.
\<close>

section \<open>Steps\<close>

lemma seg_ok_vm [simp]: "seg_ok ''vms''" "seg_ok ''state.json''" "seg_ok ''firecracker.sock''" "seg_ok ''firecracker.pid''"
  "seg_ok ''logs''" "seg_ok ''firecracker.log''"
  by (auto simp: seg_ok_def)

lemma resolve_vm_dir: "seg_ok pid \<Longrightarrow> resolve (vm_dir root pid) = resolve root @ [''vms'', pid]"
  by (simp add: vm_dir_def resolve_join)

lemma resolve_state_path: "resolve (state_path root pid) = resolve (vm_dir root pid) @ [''state.json'']"
  by (simp add: state_path_def resolve_join)

lemma persist_Inr:
  "persist_record E root r w = (Inr u, w') \<Longrightarrow>
   tlookup (fs w') (resolve (state_path root (project_id r))) = Some (RegFile (VmJson r))"
  by (auto simp: persist_record_def Let_def runs dest!: place_file_Inr(2) split: option.splits)

lemma touch_Inr:
  "touch_and_persist E root r w = (Inr r', w') \<Longrightarrow>
   r' = r\<lparr>vm_updated_at := rfc3339_now E\<rparr> \<and>
   tlookup (fs w') (resolve (state_path root (project_id r))) = Some (RegFile (VmJson r'))"
  by (auto simp: touch_and_persist_def Let_def runs dest!: persist_Inr)

lemma keeps_file_mkdir: "keeps (\<lambda>w. tlookup (fs w) q = Some (RegFile c)) (create_dir_all E p)"
  by (auto simp: keeps_def create_dir_all_def split: option.splits if_splits
      dest: tmkdir_leaf simp: is_leaf_iff)

lemma touch_Inl:
  assumes "touch_and_persist E root r w = (Inl e, w')" and "tlookup (fs w) q = Some (RegFile c)"
  shows "tlookup (fs w') q = Some (RegFile c)"
proof -
  let ?P = "\<lambda>w. tlookup (fs w) q = Some (RegFile c)"
  have last: "errs_keep ?P (place_file E op err p d)" for op err p d
    by (auto simp: errs_keep_def dest: place_file_Inl)
  have "errs_keep ?P (persist_record E root r)" for r
    unfolding persist_record_def Let_def
    by (auto split: option.splits
        intro!: errs_keep_bindE keeps_intros keeps_file_mkdir last errs_keep_keeps [OF keeps_throw])
  then show ?thesis
    using assms by (auto simp: touch_and_persist_def Let_def runs dest: errs_keepD)
qed

lemma load_plain:
  assumes "tlookup (fs w) (resolve (state_path root pid)) = Some (RegFile (VmJson r))"
    and "load_project_vm E root pid w = (Inr r', w')"
  shows "r' = r"
  using load_found [OF assms(2)] metadata_not_symlink [OF assms(1)] by (auto simp: vm_content_def)

text \<open>The runtime files of a well-formed record lie beside its state file.\<close>

lemma plain_at_beside: "resolve p \<parallel> q \<Longrightarrow> plain_at (\<lambda>w. tlookup (fs w) q = x) E p"
  unfolding plain_at_def by (intro conjI allI keeps_parallel)

lemma runtime_files_beside:
  assumes "record_ok root r"
  shows "runtime_files_plain (\<lambda>w. tlookup (fs w) (resolve (state_path root (project_id r))) = x) E r"
proof -
  let ?d = "resolve (vm_dir root (project_id r))"
  have s: "resolve (firecracker_sock r) = ?d @ [''firecracker.sock'']"
    and l: "resolve (vm_log_file r) = ?d @ [''logs'', ''firecracker.log'']"
    and p: "resolve (pid_path_for_record r) = ?d @ [''firecracker.pid'']"
    using assms by (simp_all add: record_ok_def Let_def vm_log_file_def pid_path_for_record_def resolve_join)
  show ?thesis
    unfolding runtime_files_plain_def
    by (intro conjI plain_at_beside)
       (simp_all only: s l p resolve_state_path, auto intro!: parallel_snoc)
qed

text \<open>What holds of every tree that other processes leave: no predicate on the rest of the world breaks.\<close>

lemma plain_at_blind: "fs_blind P \<Longrightarrow> plain_at P E p"
  by (simp add: plain_at_def keeps_fs_blind)

lemma keeps_touch_blind: "fs_blind P \<Longrightarrow> keeps P (touch_and_persist E root r)"
  unfolding touch_and_persist_def persist_record_def Let_def
  by (auto intro!: keeps_intros keeps_fs_blind split: option.splits)

lemma fs_blind_parts [simp]: "fs_blind (\<lambda>w. trace w = t)" "fs_blind (\<lambda>w. vmms w = v)" "fs_blind (\<lambda>w. x \<in> set (vmms w))"
  by (simp_all add: fs_blind_def)

text \<open>A host that writes down every API call, and nothing else, in the trace.\<close>

definition api_entry :: "string \<Rightarrow> string \<Rightarrow> json option \<Rightarrow> json" where
  "api_entry m url b = JArr [JStr m, JStr url, unwrap_or b JNull]"

definition records_calls :: "vmm_host \<Rightarrow> bool" where
  "records_calls H \<longleftrightarrow>
     (\<forall>m s u b w. trace (snd (vmm_curl H m s u b w)) = trace w @ [api_entry m u b]) \<and>
     (\<forall>ms w. trace (vmm_idle H ms w) = trace w)"

lemma run_curl_state:
  "run_curl H m s ep b w = (r, w') \<Longrightarrow> w' = snd (vmm_curl H m s (''http://localhost'' @ ep) b w)"
  unfolding run_curl_def by (simp split: prod.splits sum.splits)

lemma run_curl_Inr:
  "run_curl H m s ep b w = (Inr out, w') \<Longrightarrow> vmm_curl H m s (''http://localhost'' @ ep) b w = (Inr out, w')"
  unfolding run_curl_def by (simp split: prod.splits sum.splits)

text \<open>A call that is accepted has run curl, and it answered 204 or 200.\<close>

lemma put_Inr:
  assumes "firecracker_api_put H s ep b w = (Inr u, w')"
  shows "\<exists>out. vmm_curl H ''PUT'' s (''http://localhost'' @ ep) (Some b) w = (Inr out, w') \<and>
    snd (split_curl_output (from_utf8_lossy out)) \<in> {''204'', ''200''}"
proof -
  from assms obtain out w1 where 1: "run_curl H ''PUT'' s ep (Some b) w = (Inr out, w1)"
    and 2: "(case split_curl_output (from_utf8_lossy out) of (response, code) \<Rightarrow>
       if code = ''204'' \<or> code = ''200'' then ret () else throw (api_error ep code response)) w1 = (Inr u, w')"
    unfolding firecracker_api_put_def bindE_Inr by blast
  obtain response code where sp: "split_curl_output (from_utf8_lossy out) = (response, code)" by fastforce
  have "code = ''204'' \<or> code = ''200''"
  proof (rule ccontr)
    assume "\<not> ?thesis"
    with 2 show False unfolding sp prod.case throw_def by simp
  qed
  moreover from this 2 have "w1 = w'" unfolding sp prod.case ret_def by simp
  ultimately show ?thesis using run_curl_Inr [OF 1] sp by (metis insertCI snd_conv)
qed

lemma put_trace:
  assumes "records_calls H" and "firecracker_api_put H s ep b w = (Inr u, w')"
  shows "trace w' = trace w @ [api_entry ''PUT'' (''http://localhost'' @ ep) (Some b)]"
  using put_Inr [OF assms(2)] assms(1) unfolding records_calls_def by (metis snd_conv)

lemma boot_api_trace:
  assumes "records_calls H" and "boot_api H cfg r w = (Inr u, w')"
  shows "trace w' = trace w @ map (\<lambda>(ep, b). api_entry ''PUT'' (''http://localhost'' @ ep) (Some b)) (boot_calls cfg r)"
proof -
  have "for_each (\<lambda>(ep, b). firecracker_api_put H s ep b) cs w = (Inr u, w') \<Longrightarrow>
      trace w' = trace w @ map (\<lambda>(ep, b). api_entry ''PUT'' (''http://localhost'' @ ep) (Some b)) cs" for s cs
  proof (induction cs arbitrary: w)
    case Nil
    then show ?case by (simp add: runs)
  next
    case (Cons c cs)
    then obtain w1 where 1: "firecracker_api_put H s (fst c) (snd c) w = (Inr (), w1)"
      and 2: "for_each (\<lambda>(ep, b). firecracker_api_put H s ep b) cs w1 = (Inr u, w')"
      by (auto simp: runs split: prod.splits)
    from put_trace [OF assms(1) 1] Cons.IH [OF 2] show ?case by (simp add: split_beta)
  qed
  then show ?thesis using assms(2) unfolding boot_api_def by blast
qed

lemma boot_Inr:
  assumes "boot_firecracker E K H cfg r w = (Inr r', w')"
  shows "r' = r\<lparr>vm_state := Running\<rparr> \<and> path_exists (fc_binary_path cfg) w \<and> path_exists ''/dev/kvm'' w \<and>
    (\<exists>w1 w2 w3 w4 pid. boot_preflight E cfg r w = (Inr (), w1) \<and> spawn_firecracker H cfg r w1 = (Inr pid, w2) \<and>
       wait_for_socket E K H (firecracker_sock r) pid (fc_socket_wait_timeout_secs cfg) w2 = (Inr (), w3) \<and>
       boot_api H cfg r w3 = (Inr (), w4) \<and> write_pid_file E H r pid w4 = (Inr (), w'))"
proof -
  from assms obtain w1 w2 w3 w4 pid where r: "r' = r\<lparr>vm_state := Running\<rparr>"
    and 1: "boot_preflight E cfg r w = (Inr (), w1)" and 2: "spawn_firecracker H cfg r w1 = (Inr pid, w2)"
    and 3: "wait_for_socket E K H (firecracker_sock r) pid (fc_socket_wait_timeout_secs cfg) w2 = (Inr (), w3)"
    and 4: "boot_api H cfg r w3 = (Inr (), w4)" and 5: "write_pid_file E H r pid w4 = (Inr (), w')"
    by (auto simp: boot_firecracker_def runs)
  from 1 have "path_exists (fc_binary_path cfg) w" "path_exists ''/dev/kvm'' w"
    by (auto simp: boot_preflight_def check_kvm_access_def runs split: if_splits)
  with r 1 2 3 4 5 show ?thesis by blast
qed

lemma transition_Running_Inr:
  assumes "transition_vm_state_with_config E K H root pid Running cfg w = (Inr r', w')"
  shows "\<exists>r r1 w1. load_project_vm E root pid w = (Inr r, w) \<and> vm_state r \<noteq> Running \<and>
    boot_firecracker E K H cfg r w = (Inr r1, w1) \<and> touch_and_persist E root r1 w1 = (Inr r', w')"
proof -
  from assms obtain r w0 r1 w1 where load: "load_project_vm E root pid w = (Inr r, w0)" and "vm_state r \<noteq> Running"
    and "boot_firecracker E K H cfg r w0 = (Inr r1, w1)" and "touch_and_persist E root r1 w1 = (Inr r', w')"
    by (auto simp: transition_vm_state_with_config_def runs split: if_splits)
  with load_state [OF load] show ?thesis by blast
qed

text \<open>A host that leaves the file at a place, or the processes, alone.\<close>

definition leaves_file :: "vmm_host \<Rightarrow> fpath \<Rightarrow> bool" where
  "leaves_file H q \<longleftrightarrow>
     (\<forall>ms w. tlookup (fs (vmm_idle H ms w)) q = tlookup (fs w) q) \<and>
     (\<forall>m s u b w. tlookup (fs (snd (vmm_curl H m s u b w))) q = tlookup (fs w) q)"

definition leaves_processes :: "vmm_host \<Rightarrow> bool" where
  "leaves_processes H \<longleftrightarrow>
     (\<forall>ms w. vmms (vmm_idle H ms w) = vmms w) \<and> (\<forall>m s u b w. vmms (snd (vmm_curl H m s u b w)) = vmms w)"

definition writes_no_records :: "vmm_host \<Rightarrow> bool" where
  "writes_no_records H \<longleftrightarrow>
     (\<forall>ms w q r. tlookup (fs (vmm_idle H ms w)) q = Some (RegFile (VmJson r)) \<longrightarrow>
        tlookup (fs w) q = Some (RegFile (VmJson r))) \<and>
     (\<forall>m s u b w q r. tlookup (fs (snd (vmm_curl H m s u b w))) q = Some (RegFile (VmJson r)) \<longrightarrow>
        tlookup (fs w) q = Some (RegFile (VmJson r)))"

lemma records_at_iff:
  "records_at R root w \<longleftrightarrow>
     (\<forall>q r. tlookup (fs w) q = Some (RegFile (VmJson r)) \<longrightarrow> R r \<and> q = resolve (state_path root (project_id r)))"
  by (auto simp: records_at_def files_ok_def split: content.splits)

lemma vm_inv_iff:
  "vm_inv root w \<longleftrightarrow>
     (\<forall>q r. tlookup (fs w) q = Some (RegFile (VmJson r)) \<longrightarrow>
        record_ok root r \<and> q = resolve (state_path root (project_id r)))"
  by (simp add: vm_inv_records records_at_iff)

lemma records_at_neutral:
  assumes "writes_no_records H"
  shows "host_neutral (records_at R root) H"
proof -
  have "records_at R root (w\<lparr>clock := t\<rparr>) = records_at R root w" "records_at R root (w\<lparr>vmms := v\<rparr>) = records_at R root w"
    for w t v
    by (simp_all add: records_at_def files_ok_def)
  moreover have "records_at R root (vmm_idle H ms w)" "records_at R root (snd (vmm_curl H m s u b w))"
    if "records_at R root w" for ms m s u b w
    using assms that unfolding records_at_iff writes_no_records_def by blast+
  ultimately show ?thesis unfolding host_neutral_def idle_neutral_def by blast
qed

lemma writes_no_records_neutral: "writes_no_records H \<Longrightarrow> host_neutral (vm_inv root) H"
  by (simp add: vm_inv_records records_at_neutral)

lemma leaves_file_neutral: "leaves_file H q \<Longrightarrow> host_neutral (\<lambda>w. tlookup (fs w) q = x) H"
  by (simp add: host_neutral_def idle_neutral_def leaves_file_def)

lemma wait_Inr:
  assumes "wait_for_socket E K H sock pid timeout w = (Inr u, w')"
  shows "path_exists sock w' \<and> (\<exists>n. w' = (thread_sleep H 100 ^^ n) w)"
proof -
  from assms obtain dl where "wait_socket_until E K H sock pid timeout dl w = (Inr u, w')"
    by (auto simp: wait_for_socket_def deadline_after_def bindE_Inr split: if_splits)
  with wait_until_ends [of dl w H sock pid E K timeout] obtain n
    where "wait_end E K H sock pid timeout dl ((thread_sleep H 100 ^^ n) w) = (Inr u, w')" by metis
  then show ?thesis
    by (auto simp: wait_end_def bindE_Inr throw_run split: if_splits sum.splits option.splits)
qed

lemma vmms_sleeps: "leaves_processes H \<Longrightarrow> vmms ((thread_sleep H ms ^^ n) w) = vmms w"
  by (induction n) (simp_all add: thread_sleep_def leaves_processes_def)

lemma keeps_boot_api_vmms: "leaves_processes H \<Longrightarrow> keeps (\<lambda>w. x \<in> set (vmms w)) (boot_api H cfg r)"
proof -
  assume *: "leaves_processes H"
  have "keeps (\<lambda>w. x \<in> set (vmms w)) (run_curl H m s u b)" for m s u b
  proof (rule keepsI)
    fix w r w'
    assume "run_curl H m s u b w = (r, w')" and "x \<in> set (vmms w)"
    moreover from * have "vmms (snd (vmm_curl H m s (''http://localhost'' @ u) b w)) = vmms w"
      unfolding leaves_processes_def by blast
    ultimately show "x \<in> set (vmms w')" using run_curl_state by metis
  qed
  then show ?thesis unfolding boot_api_def firecracker_api_put_def by (intro keeps_intros)
qed

section \<open>Which errors a step can return\<close>

definition fails_with :: "(error \<Rightarrow> bool) \<Rightarrow> 'a cmd \<Rightarrow> bool" where
  "fails_with Q m \<longleftrightarrow> (\<forall>w e w'. m w = (Inl e, w') \<longrightarrow> Q e)"

named_theorems fails_intros "which errors the steps return"

lemma fails_withD: "fails_with Q m \<Longrightarrow> m w = (Inl e, w') \<Longrightarrow> Q e"
  by (auto simp: fails_with_def)

lemma fails_basic [fails_intros]:
  "fails_with Q (ret a)" "fails_with Q (asks f)" "fails_with Q (modify g)" "fails_with Q (attempt m)"
  by (auto simp: fails_with_def runs)

lemma fails_throw [fails_intros]: "Q e \<Longrightarrow> fails_with Q (throw e)"
  by (auto simp: fails_with_def runs)

lemma fails_bindE [fails_intros]: "fails_with Q m \<Longrightarrow> (\<And>a. fails_with Q (f a)) \<Longrightarrow> fails_with Q (bindE m f)"
  by (auto simp: fails_with_def runs) blast+

lemma fails_whenE [fails_intros]: "fails_with Q m \<Longrightarrow> fails_with Q (whenE b m)"
  by (auto simp: fails_with_def runs)

lemma fails_if [fails_intros]: "fails_with Q m \<Longrightarrow> fails_with Q n \<Longrightarrow> fails_with Q (if b then m else n)"
  by simp

lemma fails_map_err [fails_intros]: "(\<And>e. Q (f e)) \<Longrightarrow> fails_with Q (map_err f m)"
  by (auto simp: fails_with_def runs)

definition not_api :: "error \<Rightarrow> bool" where
  "not_api e \<longleftrightarrow> (\<forall>ep d. e \<noteq> VmBoot (ApiCallFailed ep d))"

lemma not_api_simps [simp]:
  "not_api (IoError op p n)" "not_api (Bail m)" "not_api (Panic m)" "not_api (JsonError p)" "not_api (PersistError p n)"
  "not_api (VmBoot (BinaryNotFound p))" "not_api (VmBoot (KvmUnavailable t))" "not_api (VmBoot (AlreadyRunning t))"
  "not_api (VmBoot (ProcessExitedEarly t u))" "not_api (VmBoot (SocketTimeout p n'))"
  by (simp_all add: not_api_def)

lemma fails_fs [fails_intros]:
  "fails_with not_api (may_fail E op p)" "fails_with not_api (create_dir_all E p)"
  "fails_with not_api (remove_file E p)" "fails_with not_api (temp_file_in E p)"
  "(\<And>e. not_api (err e)) \<Longrightarrow> fails_with not_api (place_file E op err p c)"
  by (auto simp: fails_with_def fs_ops Let_def temp_file_in_def runs split: option.splits node.splits if_splits)

lemma fails_open_append [fails_intros]: "fails_with not_api (open_append E p)"
  unfolding open_append_def by (auto intro!: fails_intros split: option.splits node.splits)

lemma fails_preflight: "fails_with not_api (boot_preflight E cfg r)"
  unfolding boot_preflight_def check_kvm_access_def by (intro fails_intros) simp_all

lemma fails_spawn: "fails_with not_api (spawn_firecracker H cfg r)"
  by (auto simp: fails_with_def spawn_firecracker_def split: sum.splits)

lemma fails_touch: "fails_with not_api (touch_and_persist E root r)"
  unfolding touch_and_persist_def persist_record_def Let_def
  by (auto intro!: fails_intros split: option.splits)

lemma fails_wait: "fails_with not_api (wait_for_socket E K H sock pid timeout)"
proof -
  have dl: "fails_with not_api (deadline_after timeout)"
    by (auto simp: fails_with_def deadline_after_def split: if_splits)
  have log: "fails_with not_api (bindE (read_firecracker_log E K sock) (\<lambda>s.
      throw (VmBoot (ProcessExitedEarly (show_status st) s)) :: unit cmd))" for st
    unfolding read_firecracker_log_def Let_def by (intro fails_intros) simp
  have ended: "fails_with not_api (wait_end E K H sock pid timeout d)" for d
    using log by (auto simp: fails_with_def wait_end_def split: if_splits sum.splits option.splits) 
  have "fails_with not_api (wait_socket_until E K H sock pid timeout d)" for d
    unfolding fails_with_def
    using wait_until_ends [of d _ H sock pid E K timeout] ended by (metis fails_withD)
  with dl show ?thesis unfolding wait_for_socket_def by (intro fails_intros)
qed

text \<open>A boot call that is refused leaves the process that was spawned for it.\<close>

lemma boot_api_failure_leaks:
  assumes "boot_firecracker E K H cfg r w = (Inl e, w')" and "\<not> not_api e" and "leaves_processes H"
  shows "\<exists>cpid. (cpid, project_id r) \<in> set (vmms w')"
proof -
  have noerr: "fails_with (\<lambda>e. False) (write_pid_file E H r p)" for p
    unfolding write_pid_file_def by (auto intro!: fails_intros split: sum.splits)
  obtain w1 w2 w3 cpid where 2: "spawn_firecracker H cfg r w1 = (Inr cpid, w2)"
    and 3: "wait_for_socket E K H (firecracker_sock r) cpid (fc_socket_wait_timeout_secs cfg) w2 = (Inr (), w3)"
    and 4: "boot_api H cfg r w3 = (Inl e, w')"
    using assms(1,2)
    by (auto simp: boot_firecracker_def bindE_Inl ret_run
        dest: fails_withD [OF fails_preflight] fails_withD [OF fails_spawn] fails_withD [OF fails_wait] fails_withD [OF noerr])
  have "(cpid, project_id r) \<in> set (vmms w2)"
    using 2 by (auto simp: spawn_firecracker_def split: sum.splits)
  then have "(cpid, project_id r) \<in> set (vmms w3)"
    using wait_Inr [OF 3] vmms_sleeps [OF assms(3)] by metis
  then show ?thesis using keepsD [OF keeps_boot_api_vmms [OF assms(3)] 4] by blast
qed

section \<open>Provisioning\<close>

lemma provision_Inr:
  assumes "provision_project_vm E root spec w = (Inr r, w')"
  shows "\<exists>r0 w0 w1. validate_project_id (spec_project_id spec) = Inr () \<and>
     ensure_vm_layout E root (spec_project_id spec) w = (Inr (), w0) \<and>
     (if path_exists (state_path root (spec_project_id spec)) w0 then load_project_vm E root (spec_project_id spec)
      else create_project_vm E root spec) w0 = (Inr r0, w1) \<and>
     touch_and_persist E root (r0\<lparr>kernel_ref := spec_kernel_ref spec, seed_data_refs := spec_seed_data_refs spec,
          network_policy := spec_network_policy spec\<rparr>) w1 = (Inr r, w')"
  using assms unfolding provision_project_vm_def bindE_Inr asks_run of_result_run by force

lemma provision_on_disk:
  assumes "provision_project_vm E root spec w = (Inr r, w')"
  shows "tlookup (fs w') (resolve (state_path root (project_id r))) = Some (RegFile (VmJson r))"
  using provision_Inr [OF assms] by (force dest: touch_Inr)

lemma keeps_layout_file: "keeps (\<lambda>w. tlookup (fs w) q = Some (RegFile c)) (ensure_vm_layout E root pid)"
  unfolding ensure_vm_layout_def Let_def by (intro keeps_intros keeps_file_mkdir)

lemma keeps_layout_beside:
  "keeps (\<lambda>w. tlookup (fs w) (resolve (state_path root pid)) = x) (ensure_vm_layout E root pid)"
proof -
  have "resolve (join (vm_dir root pid) s) \<parallel> resolve (state_path root pid)"
    if "seg_ok s" "s \<noteq> ''state.json''" for s
    using that by (simp add: resolve_state_path resolve_join parallel_snoc [of s _ _ "[]" "[]", simplified])
  from this [of "''logs''"] this [of "''artifacts''"] this [of "''cache''"] show ?thesis
    unfolding ensure_vm_layout_def Let_def by (intro keeps_intros keeps_parallel) (simp_all add: seg_ok_def)
qed

lemma resolve_join_dot: "resolve (join p ''.'') = resolve p"
proof -
  have sp: "split_on slash ''.'' = [''.'']" by code_simp
  consider (empty) "p = []" | (sep) a where "p = a @ [slash]" | (plain) "p \<noteq> []" "last p \<noteq> slash"
    by (metis append_butlast_last_id)
  then show ?thesis
  proof cases
    case sep
    have "split_on slash (p @ ''.'') = split_on slash a @ [''.'']"
      by (simp add: sep split_on_append sp)
    moreover have "split_on slash p = split_on slash a @ [[]]"
      using sep split_on_append [of slash a "[]"] by simp
    ultimately show ?thesis using sep by (simp add: join_def is_absolute_def resolve_def norm_append)
  qed (auto simp: join_def is_absolute_def resolve_def split_on_append norm_append sp)
qed

section \<open>Destroying\<close>

text \<open>Detaching the record's policy does not touch \<open>q\<close>.\<close>

definition policy_beside :: "project_vm_record \<Rightarrow> fpath \<Rightarrow> bool" where
  "policy_beside r q \<longleftrightarrow>
     (\<forall>pol p. host_ebpf_policy r = Some pol \<longrightarrow> pin_path pol = Some p \<longrightarrow>
        resolve p \<parallel> q \<and> (\<forall>d. path_parent p = Some d \<longrightarrow> resolve d \<parallel> q))"

lemma keeps_detach_loaded:
  assumes "tc_blind P"
    and "\<And>pol p. host_ebpf_policy r = Some pol \<Longrightarrow> pin_path pol = Some p \<Longrightarrow>
      plain_at P E p \<and> (\<forall>d. path_parent p = Some d \<longrightarrow> keeps P (remove_dir E d))"
  shows "keeps P (detach_host_ebpf_if_loaded E K r)"
  unfolding detach_host_ebpf_if_loaded_def
  by (auto intro!: keeps_intros keeps_detach assms split: option.splits)

lemma keeps_detach_beside:
  assumes "policy_beside r q"
  shows "keeps (\<lambda>w. tlookup (fs w) q = x) (detach_host_ebpf_if_loaded E K r)"
proof (rule keeps_detach_loaded)
  show "tc_blind (\<lambda>w. tlookup (fs w) q = x)" by (simp add: tc_blind_def)
next
  fix pol p
  assume "host_ebpf_policy r = Some pol" "pin_path pol = Some p"
  with assms have "resolve p \<parallel> q" "\<And>d. path_parent p = Some d \<Longrightarrow> resolve d \<parallel> q" by (auto simp: policy_beside_def)
  then show "plain_at (\<lambda>w. tlookup (fs w) q = x) E p \<and>
      (\<forall>d. path_parent p = Some d \<longrightarrow> keeps (\<lambda>w. tlookup (fs w) q = x) (remove_dir E d))"
    by (auto intro: plain_at_beside keeps_parallel)
qed

lemma keeps_detach_vmms: "keeps (\<lambda>w. vmms w = v) (detach_host_ebpf_if_loaded E K r)"
  by (rule keeps_detach_loaded) (auto simp: tc_blind_def intro: plain_at_blind keeps_fs_blind)

lemma destroy_Inr:
  assumes "destroy_project_vm E K root pid w = (Inr (), w')"
  shows "\<exists>r w1. load_project_vm E root pid w = (Inr r, w) \<and> vm_state r \<noteq> Running \<and>
    detach_host_ebpf_if_loaded E K r w = (Inr (), w1) \<and>
    whenE (path_exists (vm_dir root pid) w1) (remove_dir_all E (vm_dir root pid)) w1 = (Inr (), w')"
proof -
  from assms obtain r w0 w1 where load: "load_project_vm E root pid w = (Inr r, w0)" and "vm_state r \<noteq> Running"
    and "detach_host_ebpf_if_loaded E K r w0 = (Inr (), w1)"
    and "whenE (path_exists (vm_dir root pid) w1) (remove_dir_all E (vm_dir root pid)) w1 = (Inr (), w')"
    by (auto simp: destroy_project_vm_def bindE_Inr asks_run throw_run split: if_splits)
  with load_state [OF load] show ?thesis by blast
qed

lemma destroyed:
  assumes "destroy_project_vm E K root pid w = (Inr (), w')"
    and state: "tlookup (fs w) (resolve (state_path root pid)) = Some (RegFile (VmJson r))"
    and beside: "policy_beside r (resolve (vm_dir root pid))"
  shows "vm_state r \<noteq> Running \<and> tlookup (fs w') (resolve (vm_dir root pid) @ q) = None \<and> vmms w' = vmms w \<and>
    (\<forall>q. resolve (vm_dir root pid) \<parallel> q \<longrightarrow> policy_beside r q \<longrightarrow> tlookup (fs w') q = tlookup (fs w) q)"
proof -
  let ?d = "resolve (vm_dir root pid)"
  from destroy_Inr [OF assms(1)] obtain r' w1 where load: "load_project_vm E root pid w = (Inr r', w)"
    and st: "vm_state r' \<noteq> Running" and detach: "detach_host_ebpf_if_loaded E K r' w = (Inr (), w1)"
    and rm: "whenE (path_exists (vm_dir root pid) w1) (remove_dir_all E (vm_dir root pid)) w1 = (Inr (), w')"
    by blast
  have r: "r' = r" by (rule load_plain [OF state load])
  obtain es where dir: "tlookup (fs w) ?d = Some (Dir es)"
    using state by (auto simp: resolve_state_path tlookup_append elim!: tlookup.elims split: option.splits)
  have "tlookup (fs w1) ?d = Some (Dir es)"
    using keepsD [OF keeps_detach_beside [OF beside] detach [unfolded r]] dir by simp
  then have "path_exists (vm_dir root pid) w1" by (simp add: path_exists_def metadata_not_symlink)
  with rm have rm': "remove_dir_all E (vm_dir root pid) w1 = (Inr (), w')" by (simp add: whenE_run)
  note gone = remove_dir_all_Inr [OF rm']
  have "tlookup (fs w') (?d @ q) = None" using gone(3) by (rule tlookup_append_None)
  moreover have "vmms w' = vmms w"
    using keepsD [OF keeps_detach_vmms detach, of "vmms w"] gone(1) by simp
  moreover have "tlookup (fs w') q = tlookup (fs w) q" if "?d \<parallel> q" "policy_beside r q" for q
    using keepsD [OF keeps_detach_beside [OF that(2)] detach [unfolded r], of "tlookup (fs w) q"]
      tdel_parallel [OF that(1)] gone(1) by simp
  ultimately show ?thesis using st r by blast
qed

section \<open>Samples\<close>

definition sample_spec :: "string \<Rightarrow> project_vm_spec" where
  "sample_spec pid = \<lparr>spec_project_id = pid, spec_kernel_ref = None, spec_seed_data_refs = [], spec_network_policy = NP_None\<rparr>"

definition sample_vm :: "string \<Rightarrow> vm_state \<Rightarrow> project_vm_record" where
  "sample_vm pid st = (fresh_record quiet_env ''/r'' (sample_spec pid))\<lparr>vm_state := st\<rparr>"

definition vm_world :: "vm_state \<Rightarrow> world" where
  "vm_world st = dir_world (Dir [(''dev'', Dir [(''kvm'', CharDev 0)]), (''fc'', RegFile (Raw [])),
     (''r'', Dir [(''vms'', Dir [(''p'', Dir [(''logs'', Dir []), (''state.json'', RegFile (VmJson (sample_vm ''p'' st)))])])])])"

text \<open>A Firecracker that makes its socket while the supervisor sleeps.\<close>

definition fc_spawned :: "pathbuf \<Rightarrow> string list \<Rightarrow> world \<Rightarrow> errno + nat" where
  "fc_spawned p args w = Inr 7"

definition fc_sock_made :: "nat \<Rightarrow> world \<Rightarrow> world" where
  "fc_sock_made ms w =
     (case tset [''r'', ''vms'', ''p'', ''firecracker.sock''] Special (fs w) of None \<Rightarrow> w | Some t \<Rightarrow> w\<lparr>fs := t\<rparr>)"

definition on_time :: "nat \<Rightarrow> world \<Rightarrow> nat" where
  "on_time ms w = 0"

definition still_runs :: "nat \<Rightarrow> world \<Rightarrow> errno + u32 option" where
  "still_runs pid w = Inr None"

definition curl_answers :: "u8 list \<Rightarrow> string \<Rightarrow> string \<Rightarrow> string \<Rightarrow> json option \<Rightarrow> world \<Rightarrow> (errno + u8 list) \<times> world" where
  "curl_answers out m s u b w = (Inr out, w\<lparr>trace := trace w @ [api_entry m u b]\<rparr>)"

definition kill_works :: "nat \<Rightarrow> world \<Rightarrow> bool" where
  "kill_works pid w \<longleftrightarrow> False"

definition no_text :: "error \<Rightarrow> string" where
  "no_text e = []"

definition sample_vmm :: "u8 list \<Rightarrow> vmm_host" where
  "sample_vmm out = \<lparr>vmm_spawn = fc_spawned, vmm_idle = fc_sock_made, vmm_late = on_time, vmm_try_wait = still_runs,
     vmm_curl = curl_answers out, vmm_kill_denied = kill_works, vmm_error_text = no_text\<rparr>"

definition sample_cfg :: fc_config where
  "sample_cfg = \<lparr>fc_binary_path = ''/fc'', fc_vcpu_count = 1, fc_mem_size_mib = 128,
     fc_socket_wait_timeout_secs = 1, fc_boot_args = [], fc_stop_timeout_secs = 0\<rparr>"

lemma deadline_after_code [code]:
  "deadline_after secs = (\<lambda>w.
     if int (clock w) div 1000 + uint secs < 9223372036854775808 then (Inr (clock w + nat (1000 * uint secs)), w)
     else (Inl (Panic ''overflow when adding duration to instant''), w))"
proof -
  have "clock w div 1000 + unat secs < 2 ^ 63 \<longleftrightarrow> int (clock w) div 1000 + uint secs < 9223372036854775808" for w :: world
  proof -
    have "int (clock w div 1000 + unat secs) = int (clock w) div 1000 + uint secs" by (simp add: zdiv_int)
    moreover have "(9223372036854775808 :: int) = int (2 ^ 63)" by simp
    ultimately show ?thesis by (metis of_nat_less_iff)
  qed
  moreover have "1000 * unat secs = nat (1000 * uint secs)" by (simp add: nat_mult_distrib)
  ultimately show ?thesis by (simp only: deadline_after_def)
qed


lemma sample_boot_runs: "\<not> isl (fst (transition_vm_state_with_config quiet_env quiet_kern (sample_vmm [10,50,48,52]) ''/r'' ''p'' Running sample_cfg (vm_world Provisioned)))"
  by code_simp

definition bare_world :: world where
  "bare_world = dir_world (Dir [(''r'', Dir [])])"

lemma sample_boot_refused:
  "isl (fst (transition_vm_state_with_config quiet_env quiet_kern (sample_vmm [10, 52, 48, 48]) ''/r'' ''p'' Running sample_cfg (vm_world Provisioned)))"
  by code_simp

lemma sample_provisioned:
  "case tlookup (fs (snd (vm_run quiet_env quiet_kern (sample_vmm [10, 50, 48, 52]) ''/r'' (CallProvision (sample_spec ''p'')) bare_world)))
      [''r'', ''vms'', ''p'', ''state.json''] of
     Some (RegFile (VmJson r)) \<Rightarrow> True | _ \<Rightarrow> False"
  by code_simp

lemma bare_no_records: "tlookup (fs bare_world) q \<noteq> Some (RegFile (VmJson r))"
  by (cases q; cases "tl q") (auto simp: bare_world_def dir_world_def)

lemma sample_destroyed: "\<not> isl (fst (destroy_project_vm quiet_env quiet_kern ''/r'' ''p'' (vm_world Stopped)))"
  by code_simp

lemma sample_records_calls: "records_calls (sample_vmm out)"
  by (auto simp: records_calls_def sample_vmm_def curl_answers_def fc_sock_made_def split: option.splits)

lemma sample_leaves:
  "leaves_file (sample_vmm out) [''r'', ''vms'', ''p'', ''state.json'']" "leaves_processes (sample_vmm out)"
proof -
  have "[''r'', ''vms'', ''p'', ''firecracker.sock''] \<parallel> [''r'', ''vms'', ''p'', ''state.json'']"
    by (simp add: parallel_Cons)
  then show "leaves_file (sample_vmm out) [''r'', ''vms'', ''p'', ''state.json'']"
    by (auto simp: leaves_file_def sample_vmm_def curl_answers_def fc_sock_made_def tset_parallel split: option.splits)
  show "leaves_processes (sample_vmm out)"
    by (auto simp: leaves_processes_def sample_vmm_def curl_answers_def fc_sock_made_def split: option.splits)
qed

lemma sample_writes_no_records: "writes_no_records (sample_vmm out)"
proof -
  have "tlookup Special q \<noteq> Some (RegFile c)" for q c by (cases q) auto
  then show ?thesis
    by (auto simp: writes_no_records_def sample_vmm_def curl_answers_def fc_sock_made_def
        split: option.splits dest: tset_file)
qed

lemma sample_record_ok: "record_ok ''/r'' (sample_vm ''p'' st)"
proof -
  have "validate_project_id ''p'' = Inr ()" by code_simp
  then show ?thesis by (simp add: sample_vm_def fresh_record_ok sample_spec_def)
qed

lemma sample_project_id: "project_id (sample_vm pid st) = pid"
  by (simp add: sample_vm_def fresh_record_def sample_spec_def Let_def)

lemma sample_vm_on_disk:
  "tlookup (fs (vm_world st)) [''r'', ''vms'', ''p'', ''state.json''] = Some (RegFile (VmJson (sample_vm ''p'' st)))"
  by (simp add: vm_world_def dir_world_def)

section \<open>Properties\<close>





text \<open>C18: A transition to Running that fails leaves the record on disk as it was. When it failed because
  Firecracker refused one of the boot calls, the process that was spawned is not killed: it stays,
  and no record says so.\<close>

theorem boot_failure:
  assumes run: "transition_vm_state_with_config E K H root pid Running cfg w = (Inl e, w')"
    and state: "tlookup (fs w) (resolve (state_path root pid)) = Some (RegFile (VmJson r))"
    and ok: "record_ok root r" and pid: "project_id r = pid"
    and host: "leaves_file H (resolve (state_path root pid))" "leaves_processes H"
  shows "tlookup (fs w') (resolve (state_path root pid)) = Some (RegFile (VmJson r)) \<and>
     (\<forall>ep d. e = VmBoot (ApiCallFailed ep d) \<longrightarrow> (\<exists>cpid. (cpid, pid) \<in> set (vmms w')))"
proof -
  let ?P = "\<lambda>w. tlookup (fs w) (resolve (state_path root pid)) = Some (RegFile (VmJson r))"
  have plain: "runtime_files_plain ?P E r" using runtime_files_beside [OF ok] unfolding pid .
  have keep: "keeps ?P (boot_firecracker E K H cfg r)"
    by (rule keeps_boot_firecracker [OF leaves_file_neutral [OF host(1)] plain])
  have early: ?thesis if "w' = w" "not_api e" using that state by (auto simp: not_api_def)
  consider (load) "load_project_vm E root pid w = (Inl e, w')"
    | (on) "w' = w" "e = VmBoot (AlreadyRunning pid)"
    | (boot) "boot_firecracker E K H cfg r w = (Inl e, w')"
    | (disk) r1 w1 where "boot_firecracker E K H cfg r w = (Inr r1, w1)" "touch_and_persist E root r1 w1 = (Inl e, w')"
    using run load_plain [OF state]
    by (fastforce simp: transition_vm_state_with_config_def runs split: if_splits dest: load_state)
  then show ?thesis
  proof cases
    case load
    have "fails_with not_api (load_project_vm E root pid)"
      unfolding load_project_vm_def Let_def by (auto intro!: fails_intros split: option.splits node.splits)
    with load load_state [OF load] early show ?thesis by (auto dest: fails_withD)
  next
    case on
    with early show ?thesis by simp
  next
    case disk
    have "?P w1" using keepsD [OF keep disk(1)] state by simp
    with touch_Inl [OF disk(2)] fails_withD [OF fails_touch disk(2)] show ?thesis by (auto simp: not_api_def)
  next
    case boot
    have "?P w'" using keepsD [OF keep boot] state by simp
    moreover have "\<exists>cpid. (cpid, pid) \<in> set (vmms w')" if "\<not> not_api e"
      using boot_api_failure_leaks [OF boot that host(2)] pid by simp
    ultimately show ?thesis by (auto simp: not_api_def)
  qed
qed

theorem boot_failure_witness:
  "\<exists>e w'. transition_vm_state_with_config quiet_env quiet_kern (sample_vmm [10, 52, 48, 48]) ''/r'' ''p'' Running
       sample_cfg (vm_world Provisioned) = (Inl e, w') \<and>
     tlookup (fs w') [''r'', ''vms'', ''p'', ''state.json''] = Some (RegFile (VmJson (sample_vm ''p'' Provisioned)))"
proof -
  let ?run = "transition_vm_state_with_config quiet_env quiet_kern (sample_vmm [10, 52, 48, 48]) ''/r'' ''p'' Running
       sample_cfg (vm_world Provisioned)"
  obtain e w' where run: "?run = (Inl e, w')"
    using sample_boot_refused by (cases ?run; cases "fst ?run") auto
  have q: "resolve (state_path ''/r'' ''p'') = [''r'', ''vms'', ''p'', ''state.json'']" by code_simp
  have "tlookup (fs w') (resolve (state_path ''/r'' ''p'')) = Some (RegFile (VmJson (sample_vm ''p'' Provisioned)))"
    using boot_failure [OF run, of "sample_vm ''p'' Provisioned"] sample_leaves sample_record_ok
    by (simp add: q sample_vm_on_disk sample_project_id)
  with run q show ?thesis by auto
qed






text \<open>The check of project ids lets the id \<open>.\<close> pass. Its VM directory is the directory of all VMs:
  provisioning it and destroying it again removes every other project's VM, running ones included.\<close>

theorem destroy_dot:
  assumes "provision_project_vm E root spec w = (Inr r, w1)" and "spec_project_id spec = ''.''"
    and "project_id r = ''.''" and "host_ebpf_policy r = None"
    and "destroy_project_vm E K root ''.'' w1 = (Inr (), w2)" and "seg_ok other"
  shows "tlookup (fs w2) (resolve (vm_dir root other) @ q) = None"
proof -
  have "tlookup (fs w1) (resolve (state_path root ''.'')) = Some (RegFile (VmJson r))"
    using provision_on_disk [OF assms(1)] assms(3) by simp
  moreover have "policy_beside r x" for x by (simp add: policy_beside_def assms(4))
  ultimately have "tlookup (fs w2) (resolve (vm_dir root ''.'') @ other # q) = None"
    using destroyed [OF assms(5)] by blast
  moreover have "resolve (vm_dir root ''.'') = resolve root @ [''vms'']" by (simp add: vm_dir_def resolve_join_dot resolve_join)
  ultimately show ?thesis by (simp add: resolve_vm_dir [OF assms(6)])
qed

theorem destroy_dot_witness:
  "\<exists>r w1 w2. provision_project_vm quiet_env ''/r'' (sample_spec ''.'') (vm_world Running) = (Inr r, w1) \<and>
     destroy_project_vm quiet_env quiet_kern ''/r'' ''.'' w1 = (Inr (), w2) \<and>
     tlookup (fs w2) [''r'', ''vms'', ''p'', ''state.json''] = None"
proof -
  let ?run = "provision_project_vm quiet_env ''/r'' (sample_spec ''.'') (vm_world Running)"
  have ok: "\<not> isl (fst ?run) \<and> project_id (projr (fst ?run)) = ''.'' \<and> host_ebpf_policy (projr (fst ?run)) = None \<and>
      \<not> isl (fst (destroy_project_vm quiet_env quiet_kern ''/r'' ''.'' (snd ?run)))"
    by code_simp
  obtain r w1 where run: "?run = (Inr r, w1)" using ok by (cases ?run; cases "fst ?run") auto
  with ok obtain w2 where run2: "destroy_project_vm quiet_env quiet_kern ''/r'' ''.'' w1 = (Inr (), w2)"
    by (auto dest: succeeds)
  have "tlookup (fs w2) (resolve (vm_dir ''/r'' ''p'') @ [''state.json'']) = None"
    by (rule destroy_dot [OF run _ _ _ run2]) (use ok run in \<open>auto simp: sample_spec_def seg_ok_def\<close>)
  moreover have "resolve (vm_dir ''/r'' ''p'') = [''r'', ''vms'', ''p'']" by code_simp
  ultimately show ?thesis using run run2 by auto
qed


text \<open>C27: Provisioning an id whose record exists keeps the record (state, secrets, artifacts, policy, creation
  time) and replaces only the kernel, the seed data, the network policy and the time of the last
  change; for an id without a state file it makes a fresh Provisioned record with the layout of the
  id. Reading the VM afterwards gives the record that was returned.\<close>

theorem provision_spec:
  assumes "provision_project_vm E root spec w = (Inr r, w1)"
  shows "(\<forall>r0. tlookup (fs w) (resolve (state_path root (spec_project_id spec))) = Some (RegFile (VmJson r0)) \<longrightarrow>
       r = r0\<lparr>kernel_ref := spec_kernel_ref spec, seed_data_refs := spec_seed_data_refs spec,
              network_policy := spec_network_policy spec, vm_updated_at := rfc3339_now E\<rparr>) \<and>
     (tlookup (fs w) (resolve (state_path root (spec_project_id spec))) = None \<longrightarrow> r = fresh_record E root spec) \<and>
     (\<forall>r' w2. get_project_vm E root (project_id r) w1 = (Inr r', w2) \<longrightarrow> r' = r)"
proof (intro conjI allI impI)
  let ?pid = "spec_project_id spec" and ?q = "resolve (state_path root (spec_project_id spec))"
  let ?upd = "\<lambda>r0. r0\<lparr>kernel_ref := spec_kernel_ref spec, seed_data_refs := spec_seed_data_refs spec,
     network_policy := spec_network_policy spec, vm_updated_at := rfc3339_now E\<rparr>"
  from provision_Inr [OF assms] obtain r1 w0 w2 where lay: "ensure_vm_layout E root ?pid w = (Inr (), w0)"
    and got: "(if path_exists (state_path root ?pid) w0 then load_project_vm E root ?pid
        else create_project_vm E root spec) w0 = (Inr r1, w2)"
    and last: "touch_and_persist E root (r1\<lparr>kernel_ref := spec_kernel_ref spec,
        seed_data_refs := spec_seed_data_refs spec, network_policy := spec_network_policy spec\<rparr>) w2 = (Inr r, w1)"
    by (elim exE conjE) (rule that)
  have r: "r = ?upd r1" using touch_Inr [OF last] by simp
  show "r = ?upd r0" if old: "tlookup (fs w) ?q = Some (RegFile (VmJson r0))" for r0
  proof -
    have "tlookup (fs w0) ?q = Some (RegFile (VmJson r0))"
      using keepsD [OF keeps_layout_file lay old] .
    with got have "r1 = r0"
      by (auto simp: path_exists_def metadata_not_symlink dest: load_plain)
    with r show ?thesis by simp
  qed
  show "r = fresh_record E root spec" if none: "tlookup (fs w) ?q = None"
  proof -
    have "tlookup (fs w0) ?q = None" using keepsD [OF keeps_layout_beside lay none] .
    with got have "r1 = fresh_record E root spec"
      by (auto simp: path_exists_def metadata_absent create_project_vm_def Let_def runs)
    with r show ?thesis by (simp add: fresh_record_def Let_def)
  qed
  show "r' = r" if "get_project_vm E root (project_id r) w1 = (Inr r', w3)" for r' w3
    using load_plain [OF provision_on_disk [OF assms]] that by (simp add: get_project_vm_def)
qed

theorem provision_spec_witness:
  "\<exists>r w1. provision_project_vm quiet_env ''/r'' (sample_spec ''p'') (vm_world Running) = (Inr r, w1) \<and> vm_state r = Running"
proof -
  let ?run = "provision_project_vm quiet_env ''/r'' (sample_spec ''p'') (vm_world Running)"
  have ok: "\<not> isl (fst ?run)" by code_simp
  obtain r w1 where run: "?run = (Inr r, w1)" using ok by (cases ?run; cases "fst ?run") auto
  have q: "resolve (state_path ''/r'' (spec_project_id (sample_spec ''p''))) = [''r'', ''vms'', ''p'', ''state.json'']" by code_simp
  have "vm_state r = Running"
    using provision_spec [OF run, unfolded q] sample_vm_on_disk [of Running] by (simp add: sample_vm_def)
  with run show ?thesis by blast
qed

text \<open>Injecting a secret leaves exactly one lease of its name, the new one, and every other lease as it was,
  in order; the record with the plaintext values is what lies in the state file afterwards.\<close>

theorem inject_secret_spec:
  assumes "inject_secret E root pid l w = (Inr r', w')"
  shows "\<exists>r. load_project_vm E root pid w = (Inr r, w) \<and>
     r' = r\<lparr>secrets := secrets r', vm_updated_at := rfc3339_now E\<rparr> \<and>
     filter (\<lambda>s. secret_name s = secret_name l) (secrets r') = [l] \<and>
     filter (\<lambda>s. secret_name s \<noteq> secret_name l) (secrets r') = filter (\<lambda>s. secret_name s \<noteq> secret_name l) (secrets r) \<and>
     tlookup (fs w') (resolve (state_path root (project_id r))) = Some (RegFile (VmJson r'))"
proof -
  from assms obtain r w0 where load: "load_project_vm E root pid w = (Inr r, w0)"
    and last: "touch_and_persist E root (r\<lparr>secrets := put_secret l (secrets r)\<rparr>) w0 = (Inr r', w')"
    by (auto simp: inject_secret_def runs)
  from touch_Inr [OF last] load load_state [OF load] show ?thesis
    by (intro exI [of _ r]) (simp add: put_secret_def filter_empty_conv)
qed

theorem inject_secret_spec_witness:
  "\<exists>r' w'. inject_secret quiet_env ''/r'' ''p'' \<lparr>secret_name = ''n'', scope = [], expires_at = [], secret_value = ''v''\<rparr>
       (vm_world Running) = (Inr r', w') \<and> map secret_value (filter (\<lambda>s. secret_name s = ''n'') (secrets r')) = [''v'']"
proof -
  let ?run = "inject_secret quiet_env ''/r'' ''p'' \<lparr>secret_name = ''n'', scope = [], expires_at = [], secret_value = ''v''\<rparr> (vm_world Running)"
  have ok: "\<not> isl (fst ?run)" by code_simp
  obtain r' w' where run: "?run = (Inr r', w')" using ok by (cases ?run; cases "fst ?run") auto
  from inject_secret_spec [OF run] run show ?thesis by auto
qed

text \<open>C33: The wait for the API socket ends: after at most ten sleeps of 100 ms per second of the timeout it has
  looked, each time before finding no socket and a running child before the deadline, and it returns
  what the last look shows: the socket, a failed poll, the child's exit with the end of its log, or
  the timeout, with the child killed.\<close>

theorem wait_for_socket_ends:
  assumes "clock w div 1000 + unat timeout < 2 ^ 63"
  shows "\<exists>n \<le> 10 * unat timeout.
     (\<forall>i<n. still_waiting H sock pid (clock w + 1000 * unat timeout) ((thread_sleep H 100 ^^ i) w)) \<and>
     \<not> still_waiting H sock pid (clock w + 1000 * unat timeout) ((thread_sleep H 100 ^^ n) w) \<and>
     wait_for_socket E K H sock pid timeout w =
       wait_end E K H sock pid timeout (clock w + 1000 * unat timeout) ((thread_sleep H 100 ^^ n) w)"
proof -
  let ?dl = "clock w + 1000 * unat timeout"
  obtain n where n: "100 * n < ?dl - clock w + 100"
    and rest: "\<forall>i<n. still_waiting H sock pid ?dl ((thread_sleep H 100 ^^ i) w)"
      "\<not> still_waiting H sock pid ?dl ((thread_sleep H 100 ^^ n) w)"
      "wait_socket_until E K H sock pid timeout ?dl w = wait_end E K H sock pid timeout ?dl ((thread_sleep H 100 ^^ n) w)"
    using wait_until_ends [of ?dl w H sock pid E K timeout] by blast
  have "n \<le> 10 * unat timeout" using n by arith
  moreover have "wait_for_socket E K H sock pid timeout w = wait_socket_until E K H sock pid timeout ?dl w"
    using assms by (simp add: wait_for_socket_def deadline_after_def bindE_def)
  ultimately show ?thesis using rest by metis
qed

theorem wait_for_socket_ends_witness:
  "wait_for_socket quiet_env quiet_kern (sample_vmm []) ''/s'' 7 0 (vm_world Provisioned) =
     wait_end quiet_env quiet_kern (sample_vmm []) ''/s'' 7 0 0 (vm_world Provisioned)"
proof -
  have c: "clock (vm_world Provisioned) = 0" by (simp add: vm_world_def dir_world_def)
  obtain n where "n \<le> 10 * unat (0::u64)"
    and "wait_for_socket quiet_env quiet_kern (sample_vmm []) ''/s'' 7 0 (vm_world Provisioned) =
      wait_end quiet_env quiet_kern (sample_vmm []) ''/s'' 7 0 (clock (vm_world Provisioned) + 1000 * unat (0::u64))
        ((thread_sleep (sample_vmm []) 100 ^^ n) (vm_world Provisioned))"
    using wait_for_socket_ends [of "vm_world Provisioned" 0 "sample_vmm []" "''/s''" 7 quiet_env quiet_kern] c by auto
  then show ?thesis by (simp add: c)
qed

text \<open>Stopping Firecracker never fails (short of a stop timeout that overflows the clock): whatever the API,
  kill and the file system do, the record comes back Stopped. When the socket is already gone nothing
  at all is done: no process is killed and the PID file stays.\<close>

theorem stop_best_effort:
  assumes "stop_firecracker E K H cfg r w = (res, w')"
  shows "(res = Inr (r\<lparr>vm_state := Stopped\<rparr>) \<or> (\<exists>m. res = Inl (Panic m))) \<and>
     (\<not> path_exists (firecracker_sock r) w \<longrightarrow> res = Inr (r\<lparr>vm_state := Stopped\<rparr>) \<and> w' = w)"
proof -
  let ?Q = "\<lambda>e. \<exists>m. e = Panic m"
  have "fails_with ?Q (deadline_after n)" for n
    by (auto simp: fails_with_def deadline_after_def split: if_splits)
  moreover have "fails_with ?Q (force_kill E K H r)"
    unfolding force_kill_def by (auto intro!: fails_intros split: option.splits)
  ultimately have errs: "fails_with ?Q (stop_firecracker E K H cfg r)"
    unfolding stop_firecracker_def Let_def by (intro fails_intros)
  have val: "r1 = r\<lparr>vm_state := Stopped\<rparr>" if "stop_firecracker E K H cfg r w = (Inr r1, w1)" for r1 w1
    using that by (auto simp: stop_firecracker_def Let_def runs)
  have gone: "stop_firecracker E K H cfg r w = (Inr (r\<lparr>vm_state := Stopped\<rparr>), w)" if "\<not> path_exists (firecracker_sock r) w"
    using that by (simp add: stop_firecracker_def Let_def bindE_def asks_def whenE_def ret_def)
  show ?thesis
    using assms errs val gone by (cases res) (auto dest: fails_withD)
qed

theorem stop_best_effort_witness:
  "stop_firecracker quiet_env quiet_kern (sample_vmm []) sample_cfg (sample_vm ''p'' Running) (vm_world Running) =
     (Inr (sample_vm ''p'' Stopped), vm_world Running)"
proof -
  let ?run = "stop_firecracker quiet_env quiet_kern (sample_vmm []) sample_cfg (sample_vm ''p'' Running) (vm_world Running)"
  obtain res w' where run: "?run = (res, w')" by fastforce
  have "\<not> path_exists (firecracker_sock (sample_vm ''p'' Running)) (vm_world Running)" by code_simp
  with stop_best_effort [OF run] run show ?thesis by (simp add: sample_vm_def)
qed

end
