(* ===== verification/Bench.thy ===== *)
theory Bench
  imports VmClaims Discard Fork Complex_Main
begin

text \<open>
  The benchmark command (src/bench.rs): latency samples of fork, exec, VM boot and the BPF probes,
  their percentiles, and the result it prints. What a stretch of the run took is the parameter
  \<open>b_elapsed\<close> of the worlds before and after; the programs it spawns are \<open>b_spawn\<close>. Doubles are
  rationals, rounded to 53 bits after every operation (samples are far from overflow and from the
  subnormal range).
\<close>

section \<open>Doubles\<close>

definition rat_of_f64 :: "f64 \<Rightarrow> rat" where
  "rat_of_f64 v = (if 0 \<le> snd v then of_nat (fst v * 2 ^ nat (snd v)) else of_nat (fst v) / 2 ^ nat (- snd v))"

definition f64_rnd :: "rat \<Rightarrow> rat" where
  "f64_rnd x =
     (case quotient_of x of (p, q) \<Rightarrow>
        (if p < 0 then - rat_of_f64 (f64_of_ratio (nat (- p)) (nat q)) else rat_of_f64 (f64_of_ratio (nat p) (nat q))))"

definition rank_of :: "rat \<Rightarrow> nat \<Rightarrow> rat" where
  "rank_of p n = f64_rnd (f64_rnd (p / 100) * f64_rnd (of_nat (n - 1)))"

text \<open>\<open>None\<close> is an index out of range.\<close>

definition percentile :: "rat \<Rightarrow> rat list \<Rightarrow> rat option" where
  "percentile p samples =
     (if samples = [] then Some 0
      else let s = sort samples in
        if length s = 1 then Some (s ! 0)
        else let rank = rank_of p (length s); lower = nat \<lfloor>rank\<rfloor>; upper = nat \<lceil>rank\<rceil> in
          if length s \<le> lower \<or> length s \<le> upper then None
          else if lower = upper then Some (s ! lower)
          else let frac = f64_rnd (rank - of_nat lower) in
            Some (f64_rnd (f64_rnd (s ! lower * f64_rnd (1 - frac)) + f64_rnd (s ! upper * frac))))"

definition percentile_cmd :: "rat \<Rightarrow> rat list \<Rightarrow> rat cmd" where
  "percentile_cmd p samples =
     (case percentile p samples of None \<Rightarrow> throw (Panic ''index out of bounds'') | Some x \<Rightarrow> ret x)"

section \<open>Options and results\<close>

record bench_options =
  b_iterations :: u32
  measure_exec :: bool
  measure_vm :: bool

record vm_measured =
  vm_boot :: "rat \<times> rat \<times> rat"
  crun_startup :: "rat \<times> rat \<times> rat"
  host_ebpf_overhead :: "rat \<times> rat"
  guest_ebpf_overhead :: "rat \<times> rat"

datatype vm_bench_result = Skipped | Measured vm_measured

record bench_result =
  res_iterations :: u32
  fork_ms :: "rat \<times> rat \<times> rat"
  exec_ms :: "(rat \<times> rat \<times> rat) option"
  meets_budget_p95 :: bool
  vm_ms :: "vm_measured option"
  vm_tier_skipped_no_kvm :: "bool option"

record bench_host =
  b_elapsed :: "world \<Rightarrow> world \<Rightarrow> rat"
  b_nanos :: "world \<Rightarrow> nat"
  b_spawn :: "pathbuf \<Rightarrow> string list \<Rightarrow> world \<Rightarrow> (errno + u32) \<times> world"
  b_current_exe :: "pathbuf option"
  b_env_vm :: "string option"

text \<open>\<open>Command::new(path).args(..).status()\<close>, and the fallback \<open>or_else\<close>.\<close>

definition spawn_status :: "bench_host \<Rightarrow> pathbuf \<Rightarrow> string list \<Rightarrow> u32 cmd" where
  "spawn_status B path args = (\<lambda>w.
     case b_spawn B path args w of (Inl e, w') \<Rightarrow> (Inl (Bail ''cannot spawn''), w') | (Inr s, w') \<Rightarrow> (Inr s, w'))"

definition or_else :: "'a cmd \<Rightarrow> 'a cmd \<Rightarrow> 'a cmd" where
  "or_else m n = bindE (attempt m) (\<lambda>q. case q of Inl (e :: error) \<Rightarrow> n | Inr a \<Rightarrow> ret a)"

text \<open>The time a step took; an error ends the run before the clock is read again.\<close>

definition timed :: "bench_host \<Rightarrow> 'a cmd \<Rightarrow> ('a \<times> rat) cmd" where
  "timed B m = bindE (asks (\<lambda>w. w)) (\<lambda>w0. bindE m (\<lambda>a. bindE (asks (b_elapsed B w0)) (\<lambda>ms. ret (a, ms))))"

definition progress :: "env \<Rightarrow> string \<Rightarrow> nat \<Rightarrow> nat \<Rightarrow> unit cmd" where
  "progress E what i n =
     whenE (i mod 10 = 0) (eprintln E (JStr (''bench: '' @ what @ '' iteration '' @ show_nat (i + 1) @ ''/'' @ show_nat n)))"

definition completed :: "env \<Rightarrow> string \<Rightarrow> nat \<Rightarrow> unit cmd" where
  "completed E what n =
     eprintln E (JStr (''bench: '' @ what @ '' iterations complete ('' @ show_nat n @ '' samples)''))"

definition bench_id :: "string \<Rightarrow> nat \<Rightarrow> nat \<Rightarrow> string" where
  "bench_id what i nanos = ''bench-'' @ what @ ''-'' @ show_nat i @ ''-'' @ show_nat nanos"

definition percentiles :: "rat list \<Rightarrow> (rat \<times> rat \<times> rat) cmd" where
  "percentiles samples =
     bindE (percentile_cmd 50 samples) (\<lambda>a.
     bindE (percentile_cmd 95 samples) (\<lambda>b.
     bindE (percentile_cmd 99 samples) (\<lambda>c. ret (a, b, c))))"

section \<open>Fork and exec latency\<close>

fun fork_loop :: "env \<Rightarrow> bench_host \<Rightarrow> string \<Rightarrow> pathbuf \<Rightarrow> nat \<Rightarrow> nat list \<Rightarrow> rat list \<Rightarrow> rat list cmd" where
  "fork_loop E B bk rt n [] samples = ret samples"
| "fork_loop E B bk rt n (i # is) samples =
     bindE (progress E ''fork'' i n) (\<lambda>_.
     bindE (asks (\<lambda>w. bench_id ''fork'' i (b_nanos B w))) (\<lambda>fk.
     bindE (timed B (fork_base E bk fk rt None)) (\<lambda>(_, ms).
     bindE (discard_fork E fk rt) (\<lambda>_.
     fork_loop E B bk rt n is (samples @ [ms])))))"

definition exec_status :: "bench_host \<Rightarrow> string \<Rightarrow> u32 cmd" where
  "exec_status B fk =
     (let args = [''exec'', fk, ''--'', ''/bin/true''] in
      or_else (spawn_status B ''fastenv'' args)
        (spawn_status B (case b_current_exe B of None \<Rightarrow> ''fastenv'' | Some p \<Rightarrow> p) args))"

fun exec_loop :: "env \<Rightarrow> bench_host \<Rightarrow> string \<Rightarrow> pathbuf \<Rightarrow> nat \<Rightarrow> nat list \<Rightarrow> rat list \<Rightarrow> rat list cmd" where
  "exec_loop E B bk rt n [] samples = ret samples"
| "exec_loop E B bk rt n (i # is) samples =
     bindE (progress E ''exec'' i n) (\<lambda>_.
     bindE (asks (\<lambda>w. bench_id ''exec'' i (b_nanos B w))) (\<lambda>fk.
     bindE (fork_base E bk fk rt None) (\<lambda>_.
     bindE (timed B (exec_status B fk)) (\<lambda>(status, ms).
     bindE (discard_fork E fk rt) (\<lambda>_.
     exec_loop E B bk rt n is (if status_code status = Some 0 then samples @ [ms] else samples))))))"

section \<open>The VM tier\<close>

text \<open>A result taken as a value; a panic goes on.\<close>

definition try_result :: "'a cmd \<Rightarrow> (error + 'a) cmd" where
  "try_result m = bindE (attempt m) (\<lambda>q. case q of Inl (Panic s) \<Rightarrow> throw (Panic s) | _ \<Rightarrow> ret q)"

definition kvm_accessible :: "env \<Rightarrow> bool cmd" where
  "kvm_accessible E =
     bindE (asks (path_exists ''/dev/kvm'')) (\<lambda>x.
     if \<not> x then ret False
     else bindE (attempt (may_fail E OpenRead ''/dev/kvm'')) (\<lambda>q. ret (case q of Inl (e :: error) \<Rightarrow> False | Inr u \<Rightarrow> True)))"

definition measure_firecracker_boot :: "env \<Rightarrow> kern \<Rightarrow> vmm_host \<Rightarrow> bench_host \<Rightarrow> pathbuf \<Rightarrow> rat cmd" where
  "measure_firecracker_boot E K H B rt =
     bindE (asks (\<lambda>w. ''bench-vm-'' @ show_nat (b_nanos B w))) (\<lambda>pid.
     bindE (timed B (try_result (bindE (provision_project_vm E rt
        \<lparr>spec_project_id = pid, spec_kernel_ref = None, spec_seed_data_refs = [], spec_network_policy = NP_None\<rparr>)
        (\<lambda>_. transition_vm_state E K H rt pid Running)))) (\<lambda>(boot, ms).
     bindE (whenE (\<not> isl boot) (bindE (try_result (transition_vm_state E K H rt pid Stopped)) (\<lambda>_. ret ()))) (\<lambda>_.
     bindE (try_result (destroy_project_vm E K rt pid)) (\<lambda>_.
     ret ms))))"

definition measure_crun_startup_in_vm :: "bench_host \<Rightarrow> rat cmd" where
  "measure_crun_startup_in_vm B =
     bindE (timed B (attempt (or_else (spawn_status B ''crun'' [''--version'']) (spawn_status B ''/bin/true'' []))))
       (\<lambda>(q :: error + u32, ms). ret ms)"

text \<open>The probes change nothing: a query that always fails, and reading /proc/version.\<close>

definition probe_step :: "bench_host \<Rightarrow> rat cmd" where
  "probe_step B = bindE (timed B (attempt (spawn_status B ''/bin/true'' []))) (\<lambda>(q :: error + u32, ms). ret ms)"

fun ebpf_loop :: "env \<Rightarrow> bench_host \<Rightarrow> nat \<Rightarrow> nat list \<Rightarrow> rat list \<times> rat list \<Rightarrow> (rat list \<times> rat list) cmd" where
  "ebpf_loop E B n [] deltas = ret deltas"
| "ebpf_loop E B n (i # is) deltas =
     bindE (progress E ''ebpf-overhead'' i n) (\<lambda>_.
     bindE (probe_step B) (\<lambda>baseline_ms.
     bindE (probe_step B) (\<lambda>host_ms.
     bindE (probe_step B) (\<lambda>guest_ms.
     ebpf_loop E B n is
       (fst deltas @ [f64_rnd (host_ms - baseline_ms)], snd deltas @ [f64_rnd (guest_ms - baseline_ms)])))))"

definition measure_ebpf_overhead :: "env \<Rightarrow> bench_host \<Rightarrow> nat \<Rightarrow> ((rat \<times> rat) \<times> (rat \<times> rat)) cmd" where
  "measure_ebpf_overhead E B n =
     bindE (ebpf_loop E B n [0..<n] ([], [])) (\<lambda>(host, guest).
     bindE (eprintln E (JStr ''bench: ebpf-overhead iterations complete'')) (\<lambda>_.
     bindE (percentile_cmd 50 host) (\<lambda>a.
     bindE (percentile_cmd 95 host) (\<lambda>b.
     bindE (percentile_cmd 50 guest) (\<lambda>c.
     bindE (percentile_cmd 95 guest) (\<lambda>d.
     ret ((a, b), (c, d))))))))"

fun sample_loop :: "env \<Rightarrow> string \<Rightarrow> rat cmd \<Rightarrow> nat \<Rightarrow> nat list \<Rightarrow> rat list \<Rightarrow> rat list cmd" where
  "sample_loop E what m n [] samples = ret samples"
| "sample_loop E what m n (i # is) samples =
     bindE (progress E what i n) (\<lambda>_. bindE m (\<lambda>ms. sample_loop E what m n is (samples @ [ms])))"

definition run_vm_bench :: "env \<Rightarrow> kern \<Rightarrow> vmm_host \<Rightarrow> bench_host \<Rightarrow> pathbuf \<Rightarrow> u32 \<Rightarrow> vm_bench_result cmd" where
  "run_vm_bench E K H B rt iterations =
     bindE (kvm_accessible E) (\<lambda>ok.
     if \<not> ok then bindE (eprintln E (JStr ''bench: /dev/kvm not accessible'')) (\<lambda>_. ret Skipped)
     else let n = max (unat iterations) 1 in
       bindE (eprintln E (JStr (''bench: starting VM-tier benchmarks ('' @ show_nat n @ '' iterations each)''))) (\<lambda>_.
       bindE (sample_loop E ''vm-boot'' (measure_firecracker_boot E K H B rt) n [0..<n] []) (\<lambda>boot.
       bindE (completed E ''vm-boot'' (length boot)) (\<lambda>_.
       bindE (percentiles boot) (\<lambda>vb.
       bindE (sample_loop E ''crun-startup'' (measure_crun_startup_in_vm B) n [0..<n] []) (\<lambda>crun.
       bindE (completed E ''crun-startup'' (length crun)) (\<lambda>_.
       bindE (percentiles crun) (\<lambda>cs.
       bindE (measure_ebpf_overhead E B n) (\<lambda>(ho, go).
       ret (Measured \<lparr>vm_boot = vb, crun_startup = cs, host_ebpf_overhead = ho, guest_ebpf_overhead = go\<rparr>))))))))))"

section \<open>The command\<close>

definition env_wants_vm :: "string option \<Rightarrow> bool" where
  "env_wants_vm v \<longleftrightarrow> (case v of None \<Rightarrow> False | Some s \<Rightarrow> s = ''1'' \<or> map to_upper s = ''TRUE'')"

definition exec_stats :: "env \<Rightarrow> bench_host \<Rightarrow> string \<Rightarrow> pathbuf \<Rightarrow> bench_options \<Rightarrow> (rat \<times> rat \<times> rat) option cmd" where
  "exec_stats E B bk rt opts =
     (if \<not> measure_exec opts then ret None
      else let n = unat (b_iterations opts) in
        bindE (exec_loop E B bk rt n [0..<n] []) (\<lambda>samples.
        bindE (completed E ''exec'' (length samples)) (\<lambda>_.
        if samples = [] then ret None else bindE (percentiles samples) (\<lambda>p. ret (Some p)))))"

definition assemble :: "bench_options \<Rightarrow> rat \<times> rat \<times> rat \<Rightarrow> (rat \<times> rat \<times> rat) option \<Rightarrow> vm_bench_result option \<Rightarrow> bench_result" where
  "assemble opts fork_p exec_p vm =
     \<lparr>res_iterations = b_iterations opts, fork_ms = fork_p, exec_ms = exec_p,
      meets_budget_p95 = (fst (snd fork_p) \<le> 100),
      vm_ms = (case vm of Some (Measured m) \<Rightarrow> Some m | _ \<Rightarrow> None),
      vm_tier_skipped_no_kvm = (case vm of Some Skipped \<Rightarrow> Some True | _ \<Rightarrow> None)\<rparr>"

definition run_bench :: "env \<Rightarrow> kern \<Rightarrow> vmm_host \<Rightarrow> bench_host \<Rightarrow> string \<Rightarrow> pathbuf \<Rightarrow> bench_options \<Rightarrow> bench_result cmd" where
  "run_bench E K H B bk rt opts =
     bindE (registry_open E rt) (\<lambda>_.
     bindE (list_bases E rt) (\<lambda>bs.
     if map_of bs bk = None then throw (Bail ''base not found'')
     else let n = unat (b_iterations opts) in
       bindE (fork_loop E B bk rt n [0..<n] []) (\<lambda>samples.
       bindE (completed E ''fork'' n) (\<lambda>_.
       bindE (exec_stats E B bk rt opts) (\<lambda>exec_p.
       bindE (percentiles samples) (\<lambda>fork_p.
       bindE (if measure_vm opts \<or> env_wants_vm (b_env_vm B)
              then bindE (run_vm_bench E K H B rt (b_iterations opts)) (\<lambda>r. ret (Some r)) else ret None) (\<lambda>vm.
       ret (assemble opts fork_p exec_p vm))))))))"

section \<open>Rounding\<close>

lemma bit_len_upper: "n < 2 ^ bit_len n"
proof (induction n rule: bit_len.induct)
  case (1 n)
  show ?case
  proof (cases "n = 0")
    case False
    with 1 have "n div 2 < 2 ^ bit_len (n div 2)" by simp
    then have "n < 2 * 2 ^ bit_len (n div 2)" by linarith
    with False show ?thesis by (simp add: bit_len.simps [of n])
  qed simp
qed

lemma bit_len_lower: "0 < n \<Longrightarrow> 2 ^ bit_len n \<le> 2 * n"
proof (induction n rule: bit_len.induct)
  case (1 n)
  show ?case
  proof (cases "n = 1")
    case True
    then show ?thesis by (simp add: bit_len.simps)
  next
    case False
    with 1 have "2 ^ bit_len (n div 2) \<le> 2 * (n div 2)" by simp
    with 1(2) show ?thesis by (simp add: bit_len.simps [of n])
  qed
qed

lemma round_half_even_le: "0 < q \<Longrightarrow> p \<le> K * q \<Longrightarrow> round_half_even p q \<le> K"
proof -
  assume q: "0 < q" and p: "p \<le> K * q"
  have k: "p div q \<le> K" using q p by (metis div_le_mono nonzero_mult_div_cancel_right not_gr_zero)
  have "p div q < K" if "p mod q \<noteq> 0"
  proof (rule ccontr)
    assume "\<not> p div q < K"
    with k have "p div q = K" by simp
    then have "p = K * q + p mod q" by (metis div_mult_mod_eq)
    with p that show False by simp
  qed
  with k q show ?thesis by (cases "p mod q = 0") (auto simp: round_half_even_def Let_def)
qed

text \<open>Rounding does not pass an integer below 2 to the 53.\<close>

lemma f64_of_ratio_le:
  assumes d: "0 < d" and n: "n \<le> k * d" and k: "k < 2 ^ 53"
  shows "rat_of_f64 (f64_of_ratio n d) \<le> of_nat k"
proof (cases "n = 0")
  case True
  then show ?thesis by (simp add: f64_of_ratio_def rat_of_f64_def)
next
  case False
  define e0 where "e0 = int (bit_len n) - int (bit_len d) - 53"
  define e where "e = (if 2 ^ 53 * snd (scaled n d e0) \<le> fst (scaled n d e0) then e0 + 1 else e0)"
  have v: "f64_of_ratio n d = (round_half_even (fst (scaled n d e)) (snd (scaled n d e)), e)"
    using False by (simp add: f64_of_ratio_def Let_def e_def e0_def)
  have small: "n < 2 ^ 53 * d" using n k d by (metis le_less_trans mult_less_mono1)
  have "e \<le> 0"
  proof (rule ccontr)
    assume pos: "\<not> e \<le> 0"
    show False
    proof (cases "2 ^ 53 * snd (scaled n d e0) \<le> fst (scaled n d e0)")
      case True
      with pos have "0 \<le> e0" by (simp add: e_def)
      with True have "2 ^ 53 * (d * 2 ^ nat e0) \<le> n" by (simp add: scaled_def)
      moreover have "2 ^ 53 * d \<le> 2 ^ 53 * (d * 2 ^ nat e0)" by simp
      ultimately show False using small by linarith
    next
      case False
      with pos have "1 \<le> e0" by (simp add: e_def)
      then have le: "bit_len d + 54 \<le> bit_len n" by (simp add: e0_def)
      have "2 ^ 54 * d < 2 ^ 54 * 2 ^ bit_len d" using bit_len_upper [of d] by simp
      also have "\<dots> = 2 ^ (bit_len d + 54)" by (simp add: power_add)
      also have "\<dots> \<le> 2 ^ bit_len n" using le by (intro power_increasing) auto
      also have "\<dots> \<le> 2 * n" using \<open>n \<noteq> 0\<close> by (intro bit_len_lower) simp
      finally show False using small by simp
    qed
  qed
  define j where "j = nat (- e)"
  from \<open>e \<le> 0\<close> have e: "e = - int j" by (simp add: j_def)
  have sc: "scaled n d e = (n * 2 ^ j, d)" by (simp add: scaled_def e)
  have "n * 2 ^ j \<le> (k * 2 ^ j) * d" using n by (simp add: algebra_simps)
  with d have "round_half_even (n * 2 ^ j) d \<le> k * 2 ^ j" by (rule round_half_even_le)
  then have "(of_nat (round_half_even (n * 2 ^ j) d) :: rat) \<le> of_nat (k * 2 ^ j)" by (rule of_nat_mono)
  then have "(of_nat (round_half_even (n * 2 ^ j) d) :: rat) / 2 ^ j \<le> of_nat k"
    by (simp add: divide_le_eq)
  moreover have "f64_of_ratio n d = (round_half_even (n * 2 ^ j) d, - int j)"
    unfolding v sc fst_conv snd_conv by (simp add: e)
  ultimately show ?thesis by (cases "j = 0") (simp_all add: rat_of_f64_def)
qed

lemma rat_of_f64_nonneg: "0 \<le> rat_of_f64 v"
  by (simp add: rat_of_f64_def)

lemma f64_rnd_bounds:
  assumes "0 \<le> x" and "x \<le> of_nat k" and "k < 2 ^ 53"
  shows "0 \<le> f64_rnd x \<and> f64_rnd x \<le> of_nat k"
proof -
  obtain p q where pq: "quotient_of x = (p, q)" by fastforce
  then have q: "0 < q" by (rule quotient_of_denom_pos)
  have x: "x = of_int p / of_int q" using pq by (rule quotient_of_div)
  then have p: "0 \<le> p" using assms(1) q by (simp add: zero_le_divide_iff)
  have "(of_int p :: rat) \<le> of_int (int k * q)"
    using assms(2) q x by (simp add: divide_le_eq)
  then have "p \<le> int k * q" by (simp only: of_int_le_iff)
  then have "nat p \<le> k * nat q" using q p by (metis nat_int nat_le_eq_zle nat_mult_distrib of_nat_0_le_iff of_nat_mono order_less_imp_le zero_le_mult_iff nat_mono)
  then have "rat_of_f64 (f64_of_ratio (nat p) (nat q)) \<le> of_nat k"
    using q assms(3) by (intro f64_of_ratio_le) auto
  then show ?thesis using p by (simp add: f64_rnd_def pq rat_of_f64_nonneg)
qed

lemma rank_of_bounds:
  assumes "0 \<le> p" and "p \<le> 100" and "n - 1 < 2 ^ 53"
  shows "0 \<le> rank_of p n \<and> rank_of p n \<le> of_nat (n - 1)"
proof -
  have c: "0 \<le> f64_rnd (p / 100)" "f64_rnd (p / 100) \<le> 1"
    using f64_rnd_bounds [of "p / 100" 1] assms(1,2) by auto
  have n: "0 \<le> f64_rnd (of_nat (n - 1))" "f64_rnd (of_nat (n - 1)) \<le> of_nat (n - 1)"
    using f64_rnd_bounds [of "of_nat (n - 1)" "n - 1"] assms(3) by auto
  have "f64_rnd (p / 100) * f64_rnd (of_nat (n - 1)) \<le> 1 * of_nat (n - 1)"
    using c n by (intro mult_mono) auto
  then show ?thesis
    unfolding rank_of_def using c n assms(3) by (intro f64_rnd_bounds) simp_all
qed

text \<open>C35: The percentiles the benchmark asks for never index out of range: for a percentage between 0 and
  100 and any number of samples a vector can hold here, the rank, rounded as the doubles are, stays
  between the first and the last sample.\<close>

theorem percentile_total:
  assumes "0 \<le> p" and "p \<le> 100" and "length samples \<le> 2 ^ 53"
  shows "percentile p samples \<noteq> None"
proof (cases "length samples \<le> 1")
  case True
  then show ?thesis by (cases samples) (auto simp: percentile_def)
next
  case False
  let ?n = "length samples"
  have "0 \<le> rank_of p ?n" and le: "rank_of p ?n \<le> of_nat (?n - 1)"
    using rank_of_bounds [OF assms(1,2), of ?n] assms(3) False by auto
  then have "\<lfloor>rank_of p ?n\<rfloor> \<le> int (?n - 1)" "\<lceil>rank_of p ?n\<rceil> \<le> int (?n - 1)"
    by (simp_all add: floor_le_iff ceiling_le_iff)
  with False show ?thesis by (auto simp: percentile_def Let_def)
qed

theorem percentile_total_witness: "percentile 95 [3, 1, 2] \<noteq> None"
  by (rule percentile_total) simp_all

section \<open>The forks of a run\<close>

lemma seg_ok_bench_id: "what \<in> {''fork'', ''exec''} \<Longrightarrow> seg_ok (bench_id what i nanos)"
proof -
  have "slash \<notin> set (show_nat m)" for m by (auto dest!: show_nat_digits simp: is_digit_range)
  then show "what \<in> {''fork'', ''exec''} \<Longrightarrow> seg_ok (bench_id what i nanos)"
    by (auto simp: bench_id_def seg_ok_def)
qed

text \<open>The registry says the same of the forks and the bases.\<close>

definition same_entries :: "env \<Rightarrow> pathbuf \<Rightarrow> registry_doc \<Rightarrow> world \<Rightarrow> bool" where
  "same_entries E rt d w \<longleftrightarrow>
     (\<exists>d'. doc_at E rt w = Some d' \<and> doc_ok rt d' \<and> fork_of d' = fork_of d \<and> base_of d' = base_of d)"

lemma keeps_same_print: "keeps (same_entries E rt d) (eprintln E j)"
  unfolding same_entries_def by (intro keeps_print_blind doc_print_blind)

lemma keeps_same_progress: "keeps (same_entries E rt d) (progress E what i n)"
  unfolding progress_def by (intro keeps_intros keeps_same_print)

lemma fork_discard_same:
  assumes start: "same_entries E rt d w" and fork: "fork_base E bk fk rt None w = (Inr u, w1)"
    and mid: "doc_at E rt w2 = doc_at E rt w1" and disc: "discard_fork E fk rt w2 = (Inr v, w3)"
    and k: "seg_ok fk" and flush: "flush_ok E rt" and kernel: "kernel_ok E"
  shows "same_entries E rt d w3"
proof -
  obtain d0 where d0: "doc_at E rt w = Some d0" "doc_ok rt d0" "fork_of d0 = fork_of d" "base_of d0 = base_of d"
    using start by (auto simp: same_entries_def)
  obtain e where none: "fork_of d0 fk = None" and d1: "doc_at E rt w1 = Some (doc_insert_fork fk e d0)"
    using fork_base_Inr [OF fork d0(1) k flush kernel] by blast
  have "reg_inv E rt w1"
    using keepsD [OF keeps_inv_fork [OF flush k] fork] d0 by (simp add: reg_inv_def)
  with d1 have ok1: "doc_ok rt (doc_insert_fork fk e d0)" by (simp add: reg_inv_def)
  from discard_fork_Inr [OF disc _ ok1 flush kernel] d1 mid obtain d3
    where d3: "doc_at E rt w3 = Some d3" "fork_of d3 = (fork_of (doc_insert_fork fk e d0))(fk := None)"
      "base_of d3 = base_of (doc_insert_fork fk e d0)" by auto
  have "reg_inv E rt w3"
    using keepsD [OF keeps_inv_discard [OF flush] disc] d1 mid ok1 by (simp add: reg_inv_def)
  with d3(1) have "doc_ok rt d3" by (simp add: reg_inv_def)
  moreover have "fork_of d3 = fork_of d"
    using d3(2) none d0(3) fork_store.look_ins [of fk e d0] by (simp add: fun_upd_idem)
  moreover have "base_of d3 = base_of d" using d3(3) d0(4) by simp
  ultimately show ?thesis using d3(1) by (auto simp: same_entries_def)
qed

lemma fork_loop_same:
  assumes "fork_loop E B bk rt n is ss w = (Inr res, w')" and "same_entries E rt d w"
    and "flush_ok E rt" and "kernel_ok E"
  shows "same_entries E rt d w' \<and> length res = length ss + length is"
  using assms(1,2)
proof (induction "is" arbitrary: ss w)
  case Nil
  then show ?case by (simp add: runs)
next
  case (Cons i "is")
  then obtain w1 fk w2 w3 ms where 1: "progress E ''fork'' i n w = (Inr (), w1)"
    and fk: "fk = bench_id ''fork'' i (b_nanos B w1)"
    and 2: "fork_base E bk fk rt None w1 = (Inr (), w2)" and 3: "discard_fork E fk rt w2 = (Inr (), w3)"
    and 4: "fork_loop E B bk rt n is (ss @ [ms]) w3 = (Inr res, w')"
    by (auto simp: timed_def runs)
  have "same_entries E rt d w1" using keepsD [OF keeps_same_progress 1 Cons.prems(2)] .
  from fork_discard_same [OF this 2 refl 3 _ assms(3,4)] have "same_entries E rt d w3"
    by (simp add: fk seg_ok_bench_id)
  from Cons.IH [OF 4 this] show ?case by simp
qed

text \<open>Spawned programs leave the registry alone.\<close>

definition spawns_leave :: "env \<Rightarrow> pathbuf \<Rightarrow> bench_host \<Rightarrow> bool" where
  "spawns_leave E rt B \<longleftrightarrow> (\<forall>p args w. doc_at E rt (snd (b_spawn B p args w)) = doc_at E rt w)"

lemma spawn_doc:
  assumes "spawns_leave E rt B" and "spawn_status B p args w = (r, w')"
  shows "doc_at E rt w' = doc_at E rt w"
proof -
  have "w' = snd (b_spawn B p args w)"
    using assms(2) unfolding spawn_status_def by (simp split: prod.splits sum.splits)
  with assms(1) show ?thesis unfolding spawns_leave_def by simp
qed

lemma exec_status_doc:
  assumes "spawns_leave E rt B"
  shows "keeps (\<lambda>w. doc_at E rt w = x) (exec_status B fk)"
proof -
  have "keeps (\<lambda>w. doc_at E rt w = x) (spawn_status B p args)" for p args
    by (auto intro!: keepsI dest: spawn_doc [OF assms])
  then show ?thesis unfolding exec_status_def or_else_def Let_def by (intro keeps_intros)
qed

lemma exec_loop_same:
  assumes "exec_loop E B bk rt n is ss w = (Inr res, w')" and "same_entries E rt d w"
    and "flush_ok E rt" and "kernel_ok E" and "spawns_leave E rt B"
  shows "same_entries E rt d w'"
  using assms(1,2)
proof (induction "is" arbitrary: ss w)
  case Nil
  then show ?case by (simp add: runs)
next
  case (Cons i "is")
  then obtain w1 fk w2 st w3 w4 ss' where 1: "progress E ''exec'' i n w = (Inr (), w1)"
    and fk: "fk = bench_id ''exec'' i (b_nanos B w1)"
    and 2: "fork_base E bk fk rt None w1 = (Inr (), w2)" and 3: "exec_status B fk w2 = (Inr st, w3)"
    and 4: "discard_fork E fk rt w3 = (Inr (), w4)" and 5: "exec_loop E B bk rt n is ss' w4 = (Inr res, w')"
    by (auto simp: timed_def runs)
  have s1: "same_entries E rt d w1" using keepsD [OF keeps_same_progress 1 Cons.prems(2)] .
  have "doc_at E rt w3 = doc_at E rt w2" using keepsD [OF exec_status_doc [OF assms(5)] 3] by simp
  from fork_discard_same [OF s1 2 this 4 _ assms(3,4)] have "same_entries E rt d w4"
    by (simp add: fk seg_ok_bench_id)
  from Cons.IH [OF 5 this] show ?case .
qed


lemma keeps_percentile [keeps_intros]: "keeps P (percentile_cmd p samples)"
  unfolding percentile_cmd_def by (cases "percentile p samples") (auto intro: keeps_intros)

lemma keeps_same_percentiles: "keeps P (percentiles samples)"
  unfolding percentiles_def by (intro keeps_intros)

lemma exec_stats_same:
  assumes "exec_stats E B bk rt opts w = (Inr res, w')" and "same_entries E rt d w"
    and "flush_ok E rt" and "kernel_ok E" and "spawns_leave E rt B"
  shows "same_entries E rt d w'"
proof (cases "measure_exec opts")
  case False
  with assms show ?thesis by (simp add: exec_stats_def runs)
next
  case True
  with assms(1) obtain samples w1 w2 n where 1: "exec_loop E B bk rt n [0..<n] [] w = (Inr samples, w1)"
    and 2: "completed E ''exec'' (length samples) w1 = (Inr (), w2)"
    and 3: "(if samples = [] then ret None else bindE (percentiles samples) (\<lambda>p. ret (Some p))) w2 = (Inr res, w')"
    by (auto simp: exec_stats_def Let_def runs)
  have "same_entries E rt d w1" by (rule exec_loop_same [OF 1 assms(2-)])
  then have "same_entries E rt d w2"
    using keepsD [OF keeps_same_print 2 [unfolded completed_def]] by simp
  moreover have "keeps (same_entries E rt d) (if samples = [] then ret None else bindE (percentiles samples) (\<lambda>p. ret (Some p)))"
    by (intro keeps_intros keeps_same_percentiles)
  ultimately show ?thesis using 3 by (blast dest: keepsD)
qed

text \<open>C26: A benchmark that succeeds without the VM tier leaves the registry saying of every fork and
  every base what it said before: each fork it made, it discarded. Its base was registered, and its
  result counts the iterations asked for and has no VM figures.\<close>

theorem bench_leaves_registry:
  assumes run: "run_bench E K H B bk rt opts w = (Inr res, w')"
    and doc: "doc_at E rt w = Some d" "doc_ok rt d"
    and host: "flush_ok E rt" "kernel_ok E" "spawns_leave E rt B"
    and no_vm: "\<not> measure_vm opts" "\<not> env_wants_vm (b_env_vm B)"
  shows "(\<exists>d'. doc_at E rt w' = Some d' \<and> doc_ok rt d' \<and> fork_of d' = fork_of d \<and> base_of d' = base_of d) \<and>
    base_of d bk \<noteq> None \<and> res_iterations res = b_iterations opts \<and>
    vm_ms res = None \<and> vm_tier_skipped_no_kvm res = None"
proof -
  let ?n = "unat (b_iterations opts)"
  from run no_vm obtain w1 bs w2 samples w3 w4 exec_p w5 fork_p where 1: "registry_open E rt w = (Inr (), w1)"
    and 2: "list_bases E rt w1 = (Inr bs, w2)" and bk: "map_of bs bk \<noteq> None"
    and 3: "fork_loop E B bk rt ?n [0..<?n] [] w2 = (Inr samples, w3)"
    and 4: "completed E ''fork'' ?n w3 = (Inr (), w4)"
    and 5: "exec_stats E B bk rt opts w4 = (Inr exec_p, w5)"
    and 6: "percentiles samples w5 = (Inr fork_p, w')" and res: "res = assemble opts fork_p exec_p None"
    by (auto simp: run_bench_def Let_def runs split: if_splits)
  have d1: "doc_at E rt w1 = Some d" using keepsD [OF keeps_doc_open [of "\<lambda>x. x = Some d"] 1] doc by simp
  from 2 d1 have w2: "w2 = w1" and bs: "map_of bs bk = base_of d bk"
    by (auto simp: list_bases_def base_of_def runs dest: read_doc_Inr read_doc_state)
  have "same_entries E rt d w2" using d1 doc(2) w2 by (simp add: same_entries_def)
  from fork_loop_same [OF 3 this host(1,2)] have "same_entries E rt d w3" by simp
  then have "same_entries E rt d w4" using keepsD [OF keeps_same_print 4 [unfolded completed_def]] by simp
  from exec_stats_same [OF 5 this host] have "same_entries E rt d w5" .
  with 6 have "same_entries E rt d w'" using keepsD [OF keeps_same_percentiles 6] by blast
  then show ?thesis using bk bs by (simp add: same_entries_def res assemble_def)
qed

lemma result_of: "\<not> isl (fst p) \<Longrightarrow> p = (Inr (projr (fst p)), snd p)"
  by (cases p; cases "fst p") auto

text \<open>A host where a step takes one millisecond and every program succeeds, but for those in \<open>bad\<close>.\<close>

definition one_ms :: "world \<Rightarrow> world \<Rightarrow> rat" where
  "one_ms w w' = 1"

definition same_nanos :: "world \<Rightarrow> nat" where
  "same_nanos w = 7"

definition spawn_all :: "pathbuf \<Rightarrow> string list \<Rightarrow> world \<Rightarrow> (errno + u32) \<times> world" where
  "spawn_all p args w = (Inr 0, w)"

definition spawn_none :: "pathbuf \<Rightarrow> string list \<Rightarrow> world \<Rightarrow> (errno + u32) \<times> world" where
  "spawn_none p args w = (Inl 2, w)"

definition sample_bench :: "(pathbuf \<Rightarrow> string list \<Rightarrow> world \<Rightarrow> (errno + u32) \<times> world) \<Rightarrow> bench_host" where
  "sample_bench sp = \<lparr>b_elapsed = one_ms, b_nanos = same_nanos, b_spawn = sp, b_current_exe = None, b_env_vm = None\<rparr>"

definition bench_opts :: bench_options where
  "bench_opts = \<lparr>b_iterations = 1, measure_exec = True, measure_vm = False\<rparr>"

abbreviation bench_run :: "(error + bench_result) \<times> world" where
  "bench_run \<equiv> run_bench quiet_env quiet_kern (sample_vmm []) (sample_bench spawn_all) ''b'' ''/d'' bench_opts (sample_world [])"

theorem bench_leaves_registry_witness:
  "\<exists>res w'. bench_run = (Inr res, w') \<and> exec_ms res = Some (1, 1, 1) \<and> meets_budget_p95 res \<and>
     (\<exists>d'. doc_at quiet_env ''/d'' w' = Some d' \<and> fork_of d' = fork_of (sample_doc []))"
proof -
  have run: "bench_run = (Inr (projr (fst bench_run)), snd bench_run)"
    by (rule result_of) code_simp
  have facts: "exec_ms (projr (fst bench_run)) = Some (1, 1, 1)" "meets_budget_p95 (projr (fst bench_run))"
    by code_simp+
  have opts: "\<not> measure_vm bench_opts" "\<not> env_wants_vm (b_env_vm (sample_bench spawn_all))" by code_simp+
  have leave: "spawns_leave quiet_env ''/d'' (sample_bench spawn_all)"
    by (simp add: spawns_leave_def sample_bench_def spawn_all_def)
  have ok: "doc_ok ''/d'' (sample_doc [])" by code_simp
  from bench_leaves_registry [OF run doc_at_sample ok flush_ok_quiet quiet_env_kernel_ok leave opts]
  have "\<exists>d'. doc_at quiet_env ''/d'' (snd bench_run) = Some d' \<and> fork_of d' = fork_of (sample_doc [])" by blast
  with run facts show ?thesis by blast
qed

text \<open>When the program cannot be spawned, the run ends and the fork stays.\<close>

lemma bench_leaks_fork:
  "let (r, w') = run_bench quiet_env quiet_kern (sample_vmm []) (sample_bench spawn_none) ''b'' ''/d'' bench_opts (sample_world [])
   in isl r \<and> map mnt_target (mtab w') = [''/d/forks/bench-exec-0-7/merged'']"
  by code_simp

end
