(* ===== verification/Du.thy ===== *)
theory Du
  imports MountPath "HOL-Library.Multiset"
begin

text \<open>
  \<open>fastenv du\<close> (src/du.rs): the recursive sum of the regular files of an upper directory, the
  report with its quota comparison, and the human-readable size with the double arithmetic of
  \<open>Quota\<close>.
\<close>

section \<open>Walking a directory\<close>

fun walk_dir :: "env \<Rightarrow> world \<Rightarrow> pathbuf \<Rightarrow> node \<Rightarrow> u64 \<Rightarrow> error + u64"
  and walk_entries :: "env \<Rightarrow> world \<Rightarrow> pathbuf \<Rightarrow> (string \<times> node) list \<Rightarrow> u64 \<Rightarrow> error + u64" where
  "walk_dir E w dir (Dir es) tot =
     (case fault E ReadDir dir w of
        Some e \<Rightarrow> Inl (IoError ReadDir dir e)
      | None \<Rightarrow> walk_entries E w dir es tot)"
| "walk_dir E w dir n tot = Inl (IoError ReadDir dir ENOTDIR)"
| "walk_entries E w dir [] tot = Inr tot"
| "walk_entries E w dir ((name, n) # es) tot =
     (let path = join dir name
      in case (case n of
                 Dir es' \<Rightarrow> walk_dir E w path (Dir es') tot
               | RegFile c \<Rightarrow>
                   (case fault E StatOp path w of
                      Some e \<Rightarrow> Inl (IoError StatOp path e)
                    | None \<Rightarrow> Inr (tot + content_len E c))
               | _ \<Rightarrow> Inr tot)
         of Inl e \<Rightarrow> Inl e | Inr tot' \<Rightarrow> walk_entries E w dir es tot')"

definition walk_upper_bytes :: "env \<Rightarrow> pathbuf \<Rightarrow> u64 cmd" where
  "walk_upper_bytes E p = (\<lambda>w.
     case metadata (fs w) p of
       None \<Rightarrow> (Inr 0, w)
     | Some n \<Rightarrow> (walk_dir E w p n 0, w))"

section \<open>Human-readable sizes\<close>

text \<open>\<open>{:.1}\<close> prints the nearest number of tenths, ties to even.\<close>

definition f64_tenths :: "f64 \<Rightarrow> nat" where
  "f64_tenths v =
     (if 0 \<le> snd v then fst v * 10 * 2 ^ nat (snd v)
      else round_half_even (fst v * 10) (2 ^ nat (- snd v)))"

definition show_tenths :: "nat \<Rightarrow> string" where
  "show_tenths t = show_nat (t div 10) @ ''.'' @ show_nat (t mod 10)"

definition in_unit :: "u64 \<Rightarrow> nat \<Rightarrow> string" where
  "in_unit n k = (let v = f64_of_ratio (unat n) 1 in show_tenths (f64_tenths (fst v, snd v - int k)))"

definition format_bytes :: "u64 \<Rightarrow> string" where
  "format_bytes n =
     (if 2 ^ 40 \<le> n then in_unit n 40 @ '' TiB''
      else if 2 ^ 30 \<le> n then in_unit n 30 @ '' GiB''
      else if 2 ^ 20 \<le> n then in_unit n 20 @ '' MiB''
      else if 2 ^ 10 \<le> n then in_unit n 10 @ '' KiB''
      else show_nat (unat n) @ '' B'')"

section \<open>The command\<close>

definition jnum :: "u64 \<Rightarrow> json" where
  "jnum n = JNum (uint n)"

definition du_output :: "string \<Rightarrow> u64 \<Rightarrow> u64 option \<Rightarrow> u64 option \<Rightarrow> json" where
  "du_output k usage quota over =
     JObj ([(''fork_id'', JStr k), (''usage_bytes'', jnum usage), (''usage_human'', JStr (format_bytes usage))]
       @ (case quota of None \<Rightarrow> [] | Some q \<Rightarrow> [(''quota_bytes'', jnum q)])
       @ (case over of None \<Rightarrow> [] | Some x \<Rightarrow> [(''overage_bytes'', jnum x)]))"

definition du_warning :: "string \<Rightarrow> u64 \<Rightarrow> u64 \<Rightarrow> u64 \<Rightarrow> json" where
  "du_warning k usage quota over =
     JObj [(''level'', JStr ''warn''), (''fork_id'', JStr k), (''usage_bytes'', jnum usage),
           (''quota_bytes'', jnum quota), (''overage_bytes'', jnum over)]"

definition overage :: "u64 option \<Rightarrow> u64 \<Rightarrow> u64 option" where
  "overage quota usage =
     (case quota of None \<Rightarrow> None | Some q \<Rightarrow> if q < usage then Some (usage - q) else None)"

definition du_fork :: "env \<Rightarrow> string \<Rightarrow> pathbuf \<Rightarrow> unit cmd" where
  "du_fork E k root =
     bindE (lookup_fork E k root) (\<lambda>e.
     bindE (walk_upper_bytes E (upper_path e)) (\<lambda>usage.
     let over = overage (quota_bytes e) usage in
     bindE (write_out E (du_output k usage (quota_bytes e) over)) (\<lambda>_.
     case (quota_bytes e, over) of
       (Some q, Some x) \<Rightarrow> write_err E (du_warning k usage q x)
     | _ \<Rightarrow> ret ())))"

section \<open>Specification\<close>

text \<open>The regular files below a node, with their paths.\<close>

fun files :: "node \<Rightarrow> (fpath \<times> content) list"
  and files_in :: "(string \<times> node) list \<Rightarrow> (fpath \<times> content) list" where
  "files (Dir es) = files_in es"
| "files (RegFile c) = [([], c)]"
| "files n = []"
| "files_in [] = []"
| "files_in ((name, n) # es) = map (\<lambda>(p, c). (name # p, c)) (files n) @ files_in es"

definition total_len :: "env \<Rightarrow> node \<Rightarrow> u64" where
  "total_len E n = sum_list (map (\<lambda>(p, c). content_len E c) (files n))"

lemma sum_len_shift:
  "sum_list (map ((\<lambda>(p, c). f c) \<circ> (\<lambda>(p, c). (name # p, c))) xs) = sum_list (map (\<lambda>(p, c). f c) xs)"
  by (induction xs) auto

lemma walk_dir_tot:
  "\<forall>op p. fault E op p w = None \<Longrightarrow> is_leaf n = False \<Longrightarrow> walk_dir E w dir n t = Inr (t + total_len E n)"
  "\<forall>op p. fault E op p w = None \<Longrightarrow>
   walk_entries E w dir es t = Inr (t + sum_list (map (\<lambda>(p, c). content_len E c) (files_in es)))"
proof (induction E w dir n t and E w dir es t rule: walk_dir_walk_entries.induct)
  fix E :: env and w dir name n es tot
  assume "\<And>x x2. x = join dir name \<Longrightarrow> n = Dir x2 \<Longrightarrow> \<forall>op p. fault E op p w = None \<Longrightarrow>
      is_leaf (Dir x2) = False \<Longrightarrow> walk_dir E w x (Dir x2) tot = Inr (tot + total_len E (Dir x2))"
    and "\<And>x b. x = join dir name \<Longrightarrow>
      (case n of Dir es' \<Rightarrow> walk_dir E w x (Dir es') tot
               | RegFile c \<Rightarrow> (case fault E StatOp x w of
                      Some e \<Rightarrow> Inl (IoError StatOp x e) | None \<Rightarrow> Inr (tot + content_len E c))
               | _ \<Rightarrow> Inr tot) = Inr b \<Longrightarrow> \<forall>op p. fault E op p w = None \<Longrightarrow>
      walk_entries E w dir es b = Inr (b + sum_list (map (\<lambda>(p, c). content_len E c) (files_in es)))"
    and "\<forall>op p. fault E op p w = None"
  then show "walk_entries E w dir ((name, n) # es) tot =
      Inr (tot + sum_list (map (\<lambda>(p, c). content_len E c) (files_in ((name, n) # es))))"
    by (cases n) (auto simp: is_leaf_iff total_len_def sum_len_shift add.assoc)
qed (auto simp: is_leaf_iff total_len_def)

text \<open>The order in which a directory lists its entries has no influence.\<close>

lemma files_in_mset: "mset es = mset es' \<Longrightarrow> mset (files_in es) = mset (files_in es')"
proof -
  have "mset (files_in es) = sum_mset (image_mset (\<lambda>(name, n). mset (map (\<lambda>(p, c). (name # p, c)) (files n))) (mset es))" for es
    by (induction es) auto
  then show "mset es = mset es' \<Longrightarrow> mset (files_in es) = mset (files_in es')" by simp
qed

lemma keeps_walk_upper [keeps_intros]: "keeps P (walk_upper_bytes E p)"
  by (auto simp: keeps_def walk_upper_bytes_def split: option.splits)

text \<open>A size below \<open>2^53\<close> prints to the nearest tenth of its unit.\<close>

lemma round_half_even_error:
  assumes "0 < q"
  shows "2 * round_half_even p q * q \<le> 2 * p + q" "2 * p \<le> 2 * round_half_even p q * q + q"
proof -
  define k r where "k = p div q" and "r = p mod q"
  have p: "p = k * q + r" and r: "r < q" using assms by (simp_all add: k_def r_def)
  have v: "round_half_even p q = k \<and> 2 * r \<le> q \<or> round_half_even p q = k + 1 \<and> q \<le> 2 * r"
    by (auto simp: round_half_even_def Let_def simp flip: k_def r_def)
  then show "2 * round_half_even p q * q \<le> 2 * p + q" "2 * p \<le> 2 * round_half_even p q * q + q"
    using r unfolding p [symmetric] by (auto simp: p algebra_simps)
qed

lemma tenths_error:
  assumes "unat n < 2 ^ 53"
  shows "\<exists>t. in_unit n k = show_tenths t \<and>
    2 * (t * 2 ^ k) \<le> 20 * unat n + 2 ^ k \<and> 20 * unat n \<le> 2 * (t * 2 ^ k) + 2 ^ k"
proof -
  obtain j where v: "f64_of_ratio (unat n) 1 = (unat n * 2 ^ j, - int j)"
    using f64_exact [OF assms] by blast
  define t where "t = f64_tenths (unat n * 2 ^ j, - int j - int k)"
  have "in_unit n k = show_tenths t" by (simp only: in_unit_def v t_def Let_def fst_conv snd_conv)
  moreover have "2 * (t * 2 ^ k) \<le> 20 * unat n + 2 ^ k \<and> 20 * unat n \<le> 2 * (t * 2 ^ k) + 2 ^ k"
  proof (cases "j + k = 0")
    case True
    then show ?thesis by (simp add: t_def f64_tenths_def)
  next
    case False
    have "nat (int k + int j) = j + k" by simp
    then have t: "t = round_half_even (unat n * 2 ^ j * 10) (2 ^ (j + k))"
      using False by (auto simp: t_def f64_tenths_def)
    have "2 * t * 2 ^ (j + k) \<le> 2 * (unat n * 2 ^ j * 10) + 2 ^ (j + k)"
      "2 * (unat n * 2 ^ j * 10) \<le> 2 * t * 2 ^ (j + k) + 2 ^ (j + k)"
      unfolding t by (rule round_half_even_error; simp)+
    then have "2 ^ j * (2 * (t * 2 ^ k)) \<le> 2 ^ j * (20 * unat n + 2 ^ k)"
      "2 ^ j * (20 * unat n) \<le> 2 ^ j * (2 * (t * 2 ^ k) + 2 ^ k)"
      by (simp_all add: power_add algebra_simps)
    then show ?thesis by simp
  qed
  ultimately show ?thesis by blast
qed

section \<open>Properties\<close>

text \<open>C39: When nothing fails, the usage of an upper directory is the sum of the lengths of all regular
  files below it, at any depth and in whatever order the directories list their entries; links,
  devices and whiteouts count nothing, and an absent directory counts zero.\<close>

theorem walk_upper_bytes_total:
  assumes "\<forall>op p. fault E op p w = None"
  shows "(metadata (fs w) p = None \<longrightarrow> walk_upper_bytes E p w = (Inr 0, w)) \<and>
    (metadata (fs w) p = Some (Dir es) \<longrightarrow>
       walk_upper_bytes E p w = (Inr (total_len E (Dir es)), w) \<and>
       (\<forall>es'. mset es' = mset es \<longrightarrow> total_len E (Dir es') = total_len E (Dir es)))"
proof -
  have sum: "sum_list (map (\<lambda>(q, c). content_len E c) xs) = sum_mset (image_mset (\<lambda>(q, c). content_len E c) (mset xs))" for xs
    by (induction xs) auto
  have order: "total_len E (Dir es') = total_len E (Dir es)" if "mset es' = mset es" for es'
    by (simp only: total_len_def files.simps sum files_in_mset [OF that])
  have "walk_upper_bytes E p w = (Inr 0, w)" if "metadata (fs w) p = None"
    using that by (simp add: walk_upper_bytes_def)
  moreover have "walk_upper_bytes E p w = (Inr (total_len E (Dir es)), w)" if "metadata (fs w) p = Some (Dir es)"
    using that walk_dir_tot(1) [OF assms, of "Dir es"] by (simp add: walk_upper_bytes_def is_leaf_iff)
  ultimately show ?thesis using order by blast
qed

theorem walk_upper_bytes_total_witness:
  "walk_upper_bytes quiet_env ''/d/forks/f/upper'' (sample_world [''f''])
     = (Inr 3, sample_world [''f''])"
proof -
  have "resolve ''/d/forks/f/upper'' = [''d'', ''forks'', ''f'', ''upper'']" by code_simp
  then have "metadata (fs (sample_world [''f''])) ''/d/forks/f/upper'' = Some (Dir [(''x'', RegFile (Raw [1, 2, 3]))])"
    by (simp add: metadata_not_symlink sample_world_def dir_world_def sample_fork_dir_def)
  then show ?thesis
    using walk_upper_bytes_total [of quiet_env "sample_world [''f'']" "''/d/forks/f/upper''" "[(''x'', RegFile (Raw [1, 2, 3]))]"]
    by (simp add: total_len_def)
qed

text \<open>The printed size is at most half a tenth of its unit away from the real one, and the unit is
  the largest of the binary ones that the size reaches.\<close>

theorem format_bytes_accuracy:
  assumes "unat n < 2 ^ 53" and "2 ^ 10 \<le> n"
  shows "\<exists>t k u. (k, u) \<in> {(10, ''KiB''), (20, ''MiB''), (30, ''GiB''), (40, ''TiB'')} \<and>
    format_bytes n = show_tenths t @ '' '' @ u \<and> 2 ^ k \<le> unat n \<and> (k < 40 \<longrightarrow> unat n < 2 ^ (k + 10)) \<and>
    2 * (t * 2 ^ k) \<le> 20 * unat n + 2 ^ k \<and> 20 * unat n \<le> 2 * (t * 2 ^ k) + 2 ^ k"
proof -
  have le: "(2 ^ k \<le> n) = (2 ^ k \<le> unat n)" if "k \<in> {10, 20, 30, 40}" for k
    using that by (auto simp: word_le_nat_alt)
  consider "2 ^ 40 \<le> n" | "2 ^ 30 \<le> n" "\<not> 2 ^ 40 \<le> n" | "2 ^ 20 \<le> n" "\<not> 2 ^ 30 \<le> n"
    | "2 ^ 10 \<le> n" "\<not> 2 ^ 20 \<le> n" using assms(2) by blast
  then show ?thesis
  proof cases
    case 1
    obtain t where "in_unit n 40 = show_tenths t" "2 * (t * 2 ^ 40) \<le> 20 * unat n + 2 ^ 40"
      "20 * unat n \<le> 2 * (t * 2 ^ 40) + 2 ^ 40" using tenths_error [OF assms(1)] by blast
    with 1 le [of 40] show ?thesis
      by (intro exI [of _ t] exI [of _ "40::nat"] exI [of _ "''TiB''"]) (simp add: format_bytes_def)
  next
    case 2
    obtain t where "in_unit n 30 = show_tenths t" "2 * (t * 2 ^ 30) \<le> 20 * unat n + 2 ^ 30"
      "20 * unat n \<le> 2 * (t * 2 ^ 30) + 2 ^ 30" using tenths_error [OF assms(1)] by blast
    with 2 le [of 30] le [of 40] show ?thesis
      by (intro exI [of _ t] exI [of _ "30::nat"] exI [of _ "''GiB''"]) (simp add: format_bytes_def)
  next
    case 3
    have "\<not> 2 ^ 40 \<le> n" using 3 le [of 30] le [of 40] by simp
    obtain t where "in_unit n 20 = show_tenths t" "2 * (t * 2 ^ 20) \<le> 20 * unat n + 2 ^ 20"
      "20 * unat n \<le> 2 * (t * 2 ^ 20) + 2 ^ 20" using tenths_error [OF assms(1)] by blast
    with 3 le [of 20] le [of 30] \<open>\<not> 2 ^ 40 \<le> n\<close> show ?thesis
      by (intro exI [of _ t] exI [of _ "20::nat"] exI [of _ "''MiB''"]) (simp add: format_bytes_def)
  next
    case 4
    have "\<not> 2 ^ 40 \<le> n" "\<not> 2 ^ 30 \<le> n" using 4 le [of 20] le [of 30] le [of 40] by simp_all
    obtain t where "in_unit n 10 = show_tenths t" "2 * (t * 2 ^ 10) \<le> 20 * unat n + 2 ^ 10"
      "20 * unat n \<le> 2 * (t * 2 ^ 10) + 2 ^ 10" using tenths_error [OF assms(1)] by blast
    with 4 le [of 10] le [of 20] \<open>\<not> 2 ^ 40 \<le> n\<close> \<open>\<not> 2 ^ 30 \<le> n\<close> show ?thesis
      by (intro exI [of _ t] exI [of _ "10::nat"] exI [of _ "''KiB''"]) (simp add: format_bytes_def)
  qed
qed

theorem format_bytes_accuracy_witness: "\<exists>t u. format_bytes 1536 = show_tenths t @ '' '' @ u"
  using format_bytes_accuracy [of 1536] by auto

text \<open>The report of \<open>du\<close> gives the usage of the fork's upper directory with its quota, and an
  overage, on standard output and as a warning on standard error, exactly when the usage is above
  the quota; no file, mount or registry entry changes.\<close>

theorem du_fork_report:
  assumes "du_fork E k root w = (Inr u, w')" and "doc_at E root w = Some d" and "is_dir root w"
  shows "\<exists>e usage. fork_of d k = Some e \<and> walk_upper_bytes E (upper_path e) w = (Inr usage, w) \<and>
    fs w' = fs w \<and> mtab w' = mtab w \<and>
    stdout w' = stdout w @ [du_output k usage (quota_bytes e)
      (case quota_bytes e of Some q \<Rightarrow> if q < usage then Some (usage - q) else None | None \<Rightarrow> None)] \<and>
    stderr w' = stderr w @ (case quota_bytes e of
      Some q \<Rightarrow> if q < usage then [du_warning k usage q (usage - q)] else [] | None \<Rightarrow> [])"
proof -
  from assms(1) obtain e w1 usage w2 w3 where 1: "lookup_fork E k root w = (Inr e, w1)"
    and 2: "walk_upper_bytes E (upper_path e) w1 = (Inr usage, w2)"
    and 3: "write_out E (du_output k usage (quota_bytes e) (overage (quota_bytes e) usage)) w2 = (Inr (), w3)"
    and 4: "(case (quota_bytes e, overage (quota_bytes e) usage) of
       (Some q, Some x) \<Rightarrow> write_err E (du_warning k usage q x) | _ \<Rightarrow> ret ()) w3 = (Inr u, w')"
    by (auto simp: du_fork_def Let_def runs)
  have "registry_open E root w = (Inr (), w)" using assms(3) by (simp add: registry_open_def create_dir_all_def)
  with 1 have "w1 = w" by (auto simp: lookup_fork_def runs get_fork_Inr dest: read_doc_state)
  moreover have "w2 = w1" using keepsD [OF keeps_walk_upper [of "\<lambda>x. x = w1"] 2] by simp
  moreover have "fork_of d k = Some e" using lookup_fork_known [OF assms(2) 1] by simp
  ultimately show ?thesis
    using 2 3 4 by (auto simp: overage_def write_out_def write_err_def runs split: option.splits if_splits)
qed

theorem du_fork_report_witness:
  "stdout (snd (du_fork quiet_env ''f'' ''/d'' (sample_world [''f'']))) \<noteq> []"
proof -
  have run: "du_fork quiet_env ''f'' ''/d'' (sample_world [''f''])
      = (Inr (), snd (du_fork quiet_env ''f'' ''/d'' (sample_world [''f''])))"
    by (rule succeeds) code_simp
  have "is_dir ''/d'' (sample_world [''f''])"
    by (rule is_dirI) (simp add: sample_world_def dir_world_def)
  from du_fork_report [OF run doc_at_sample this] show ?thesis by auto
qed

end
