(* ===== verification/Diff.thy ===== *)
theory Diff
  imports Du
begin

text \<open>
  \<open>fastenv diff\<close> (src/diff.rs): the sorted walk over a fork's upper directory that prints one
  record per entry, and the classification of an entry against the base's lower directory. The
  specification \<open>changes\<close> lists what must be printed; the walk is shown to print it.
\<close>

section \<open>The walk\<close>

datatype change_type = Added | Modified | Deleted

fun change_name :: "change_type \<Rightarrow> string" where
  "change_name Added = ''added''"
| "change_name Modified = ''modified''"
| "change_name Deleted = ''deleted''"

definition diff_entry :: "string \<Rightarrow> change_type \<Rightarrow> json" where
  "diff_entry p ct = JObj [(''path'', JStr p), (''change_type'', JStr (change_name ct))]"

definition is_char_whiteout :: "pathbuf \<Rightarrow> world \<Rightarrow> bool" where
  "is_char_whiteout p w \<longleftrightarrow> (case metadata (fs w) p of Some (CharDev d) \<Rightarrow> d = 0 | _ \<Rightarrow> False)"

definition is_wh :: "string \<Rightarrow> bool" where
  "is_wh name \<longleftrightarrow> starts_with ''.wh.'' name"

definition classify :: "pathbuf \<Rightarrow> string \<Rightarrow> string list \<Rightarrow> pathbuf \<Rightarrow> world \<Rightarrow> change_type" where
  "classify entry_path name rel lower w =
     (if is_char_whiteout entry_path w \<or> is_wh name then Deleted
      else if path_exists (join lower (str_join [slash] rel)) w then Modified
      else Added)"

lemma for_each_cong [fundef_cong]:
  "xs = ys \<Longrightarrow> (\<And>x. x \<in> set ys \<Longrightarrow> f x = g x) \<Longrightarrow> for_each f xs = for_each g ys"
  by (induction ys arbitrary: xs) auto

lemma size_sorted_entry [termination_simp]:
  "(name, n) \<in> set es \<Longrightarrow> size n < Suc (size_list (size_prod (\<lambda>_. 0) size) es)"
  by (induction es) auto

text \<open>\<open>rel\<close> is the path of \<open>dir\<close> below the upper root, which \<open>strip_prefix\<close> recovers in the source.\<close>

fun walk_upper :: "env \<Rightarrow> pathbuf \<Rightarrow> string list \<Rightarrow> pathbuf \<Rightarrow> node \<Rightarrow> unit cmd" where
  "walk_upper E dir rel lower (Dir es) =
     bindE (may_fail E ReadDir dir) (\<lambda>_.
     for_each (\<lambda>(name, n).
       bindE (asks (classify (join dir name) name (rel @ [name]) lower)) (\<lambda>ct.
       bindE (write_out E (diff_entry (str_join [slash] (rel @ [name])) ct)) (\<lambda>_.
       bindE (may_fail E StatOp (join dir name)) (\<lambda>_.
       if (\<not> is_leaf n) \<and> \<not> is_wh name then walk_upper E (join dir name) (rel @ [name]) lower n
       else ret ()))))
     (sort_key fst es))"
| "walk_upper E dir rel lower n = throw (IoError ReadDir dir ENOTDIR)"

definition diff_fork :: "env \<Rightarrow> string \<Rightarrow> pathbuf \<Rightarrow> unit cmd" where
  "diff_fork E k root =
     bindE (lookup_fork E k root) (\<lambda>e.
     bindE (get_base E root (base_key e)) (\<lambda>b.
     bindE (asks (\<lambda>w. metadata (fs w) (upper_path e))) (\<lambda>m.
     case m of
       None \<Rightarrow> ret ()
     | Some n \<Rightarrow> walk_upper E (upper_path e) [] (lower_path b) n)))"

section \<open>Specification\<close>

fun changes :: "world \<Rightarrow> pathbuf \<Rightarrow> string list \<Rightarrow> pathbuf \<Rightarrow> node \<Rightarrow> (string list \<times> change_type) list" where
  "changes w dir rel lower (Dir es) =
     concat (map (\<lambda>(name, n).
       (rel @ [name], classify (join dir name) name (rel @ [name]) lower w) #
       (if is_leaf n \<or> is_wh name then [] else changes w (join dir name) (rel @ [name]) lower n))
     (sort_key fst es))"
| "changes w dir rel lower n = []"

definition render_change :: "string list \<times> change_type \<Rightarrow> json" where
  "render_change c = diff_entry (str_join [slash] (fst c)) (snd c)"

fun wf_node :: "node \<Rightarrow> bool" where
  "wf_node (Dir es) \<longleftrightarrow> distinct (map fst es) \<and> list_all (\<lambda>(name, n). wf_node n) es"
| "wf_node n \<longleftrightarrow> True"

lemma classify_stdout [simp]: "classify p name rel lower (w\<lparr>stdout := out\<rparr>) = classify p name rel lower w"
  by (simp add: classify_def is_char_whiteout_def path_exists_def)

lemma changes_stdout [simp]: "changes (w\<lparr>stdout := out\<rparr>) dir rel lower n = changes w dir rel lower n"
  by (induction w dir rel lower n rule: changes.induct)
     (auto intro!: arg_cong [where f = concat])

text \<open>A successful walk prints the specified records, in order, and does nothing else.\<close>

definition same_but_out :: "world \<Rightarrow> world \<Rightarrow> bool" where
  "same_but_out w v \<longleftrightarrow> (\<exists>out. v = w\<lparr>stdout := out\<rparr>)"

lemma for_each_prints:
  assumes step: "\<And>x v v'. x \<in> set xs \<Longrightarrow> same_but_out w0 v \<Longrightarrow> f x v = (Inr (), v') \<Longrightarrow>
      v' = v\<lparr>stdout := stdout v @ g x\<rparr>"
    and "same_but_out w0 w" and "for_each f xs w = (Inr (), w')"
  shows "w' = w\<lparr>stdout := stdout w @ concat (map g xs)\<rparr>"
  using assms
proof (induction xs arbitrary: w)
  case Nil
  then show ?case by (simp add: runs)
next
  case (Cons x xs)
  from Cons.prems(3) obtain w1 where 1: "f x w = (Inr (), w1)" and 2: "for_each f xs w1 = (Inr (), w')"
    by (auto simp: runs)
  have w1: "w1 = w\<lparr>stdout := stdout w @ g x\<rparr>" using Cons.prems(1) [OF _ Cons.prems(2) 1] by simp
  with Cons.prems(2) have same: "same_but_out w0 w1" by (auto simp: same_but_out_def)
  have "w' = w1\<lparr>stdout := stdout w1 @ concat (map g xs)\<rparr>"
    by (rule Cons.IH [OF _ same 2]) (rule Cons.prems(1), simp_all)
  with w1 show ?case by simp
qed

lemma write_out_Inr: "write_out E j w = (Inr u, w') \<Longrightarrow> w' = w\<lparr>stdout := stdout w @ [j]\<rparr>"
  by (auto simp: write_out_def runs)

lemma walk_upper_prints:
  "walk_upper E dir rel lower n w = (Inr (), w') \<Longrightarrow>
   w' = w\<lparr>stdout := stdout w @ map render_change (changes w dir rel lower n)\<rparr>"
proof (induction E dir rel lower n arbitrary: w w' rule: walk_upper.induct)
  case (1 E dir rel lower es)
  let ?body = "\<lambda>(name, n).
       bindE (asks (classify (join dir name) name (rel @ [name]) lower)) (\<lambda>ct.
       bindE (write_out E (diff_entry (str_join [slash] (rel @ [name])) ct)) (\<lambda>_.
       bindE (may_fail E StatOp (join dir name)) (\<lambda>_.
       if (\<not> is_leaf n) \<and> \<not> is_wh name then walk_upper E (join dir name) (rel @ [name]) lower n
       else ret ())))"
  let ?g = "\<lambda>(name, n). map render_change
       ((rel @ [name], classify (join dir name) name (rel @ [name]) lower w) #
       (if is_leaf n \<or> is_wh name then [] else changes w (join dir name) (rel @ [name]) lower n))"
  have loop: "for_each ?body (sort_key fst es) w = (Inr (), w')" using 1(2) by (auto simp: runs)
  have step: "v' = v\<lparr>stdout := stdout v @ ?g x\<rparr>"
    if x: "x \<in> set (sort_key fst es)" and run: "?body x v = (Inr (), v')" and v: "same_but_out w v" for x v v'
  proof -
    obtain name n where xn: "x = (name, n)" by (cases x)
    from v obtain out where out: "v = w\<lparr>stdout := out\<rparr>" by (auto simp: same_but_out_def)
    from run xn obtain v1 where
      1: "write_out E (diff_entry (str_join [slash] (rel @ [name]))
            (classify (join dir name) name (rel @ [name]) lower v)) v = (Inr (), v1)"
      and 2: "(if \<not> is_leaf n \<and> \<not> is_wh name then walk_upper E (join dir name) (rel @ [name]) lower n
            else ret ()) v1 = (Inr (), v')"
      by (auto simp: runs)
    note v1 = write_out_Inr [OF 1]
    show ?thesis
    proof (cases "\<not> is_leaf n \<and> \<not> is_wh name")
      case True
      with 2 have "v' = v1\<lparr>stdout := stdout v1 @ map render_change (changes v1 (join dir name) (rel @ [name]) lower n)\<rparr>"
        using "1.IH" x xn by auto
      with True v1 out xn show ?thesis by (simp add: render_change_def)
    next
      case False
      with 2 v1 out xn show ?thesis by (auto simp: render_change_def runs)
    qed
  qed
  have "same_but_out w w" unfolding same_but_out_def by (rule exI [of _ "stdout w"]) simp
  from for_each_prints [OF step this loop] have "w' = w\<lparr>stdout := stdout w @ concat (map ?g (sort_key fst es))\<rparr>" .
  moreover have "map ?g xs = map (map render_change) (map (\<lambda>(name, n).
       (rel @ [name], classify (join dir name) name (rel @ [name]) lower w) #
       (if is_leaf n \<or> is_wh name then [] else changes w (join dir name) (rel @ [name]) lower n)) xs)" for xs
    by auto
  ultimately show ?case by (simp only: changes.simps map_concat)
qed (auto simp: runs)

text \<open>The records are those of the entries not below a whiteout, each once.\<close>

lemma tlookup_wf: "wf_node n \<Longrightarrow> tlookup n q = Some m \<Longrightarrow> wf_node m"
proof (induction n q rule: tlookup.induct)
  case (2 es x xs)
  then show ?case by (auto simp: list_all_iff split: option.splits dest!: map_of_SomeD)
qed auto

lemma changes_iff:
  "wf_node n \<Longrightarrow> (p, ct) \<in> set (changes w dir rel lower n) \<longleftrightarrow>
     (\<exists>q. q \<noteq> [] \<and> p = rel @ q \<and> tlookup n q \<noteq> None \<and> (\<forall>x\<in>set (butlast q). \<not> is_wh x) \<and>
          ct = classify (foldl join dir q) (last q) p lower w)"
proof (induction w dir rel lower n arbitrary: p ct rule: changes.induct)
  case (1 w dir rel lower es)
  have entry: "map_of es name = Some m \<longleftrightarrow> (name, m) \<in> set es" for name m
    using 1(2) by simp
  have IH: "(p, ct) \<in> set (changes w (join dir name) (rel @ [name]) lower m) \<longleftrightarrow>
      (\<exists>q. q \<noteq> [] \<and> p = rel @ name # q \<and> tlookup m q \<noteq> None \<and> (\<forall>x\<in>set (butlast q). \<not> is_wh x) \<and>
          ct = classify (foldl join (join dir name) q) (last q) p lower w)"
    if "(name, m) \<in> set es" "\<not> is_leaf m" "\<not> is_wh name" for name m
    using 1(1) [of "(name, m)" name m p ct] that 1(2) by (auto simp: list_all_iff)
  have leaf: "tlookup m q = None" if "is_leaf m" "q \<noteq> []" for m q
    using that by (cases m; cases q) (auto simp: is_leaf_def)
  show ?case (is "?L = ?R")
  proof
    assume ?L
    then obtain name m where mem: "(name, m) \<in> set es"
      and c: "(p, ct) = (rel @ [name], classify (join dir name) name (rel @ [name]) lower w) \<or>
        (\<not> is_leaf m \<and> \<not> is_wh name \<and> (p, ct) \<in> set (changes w (join dir name) (rel @ [name]) lower m))"
      by (auto split: if_splits)
    from c show ?R
    proof
      assume "(p, ct) = (rel @ [name], classify (join dir name) name (rel @ [name]) lower w)"
      moreover have "map_of es name = Some m" using mem entry by blast
      ultimately show ?R by (intro exI [of _ "[name]"]) auto
    next
      assume *: "\<not> is_leaf m \<and> \<not> is_wh name \<and> (p, ct) \<in> set (changes w (join dir name) (rel @ [name]) lower m)"
      then obtain q where "q \<noteq> []" "p = rel @ name # q" "tlookup m q \<noteq> None" "\<forall>x\<in>set (butlast q). \<not> is_wh x"
        "ct = classify (foldl join (join dir name) q) (last q) p lower w"
        using IH [OF mem] by auto
      moreover have "map_of es name = Some m" using mem entry by blast
      ultimately show ?R using * by (intro exI [of _ "name # q"]) auto
    qed
  next
    assume ?R
    then obtain q where q: "q \<noteq> []" "p = rel @ q" "tlookup (Dir es) q \<noteq> None" "\<forall>x\<in>set (butlast q). \<not> is_wh x"
      "ct = classify (foldl join dir q) (last q) p lower w" by blast
    then obtain name r where nr: "q = name # r" by (cases q) auto
    with q(3) obtain m where m: "(name, m) \<in> set es" "tlookup m r \<noteq> None"
      using entry by (auto split: option.splits)
    show ?L
    proof (cases "r = []")
      case True
      with q nr m(1) show ?thesis by (force simp: set_sort)
    next
      case False
      then have "\<not> is_leaf m" "\<not> is_wh name" using leaf m(2) q(4) nr by auto
      with IH [OF m(1) this] q nr m(2) False
      have "(p, ct) \<in> set (changes w (join dir name) (rel @ [name]) lower m)" by auto
      with \<open>\<not> is_leaf m\<close> \<open>\<not> is_wh name\<close> m(1) show ?thesis by (force simp: set_sort)
    qed
  qed
qed (auto simp: neq_Nil_conv)

text \<open>The records come in the lexicographic order of their paths, whatever order the directories have.\<close>

lemma append_less_left: "(rel @ x < rel @ (y :: string list)) = (x < y)"
  by (induction rel) auto

lemma Nil_less_iff: "([] < (q :: string list)) = (q \<noteq> [])"
  by (cases q) auto

lemma changes_prefix: "c \<in> set (changes w dir rel lower n) \<Longrightarrow> \<exists>q. q \<noteq> [] \<and> fst c = rel @ q"
proof (induction w dir rel lower n arbitrary: c rule: changes.induct)
  case (1 w dir rel lower es)
  from 1(2) obtain name m where mem: "(name, m) \<in> set (sort_key fst es)"
    and c: "c = (rel @ [name], classify (join dir name) name (rel @ [name]) lower w) \<or>
      \<not> (is_leaf m \<or> is_wh name) \<and> c \<in> set (changes w (join dir name) (rel @ [name]) lower m)"
    by (auto split: if_splits)
  from c show ?case
  proof
    assume "\<not> (is_leaf m \<or> is_wh name) \<and> c \<in> set (changes w (join dir name) (rel @ [name]) lower m)"
    then obtain q where "fst c = rel @ name # q" using 1(1) [OF mem refl, of c] by (cases c) auto
    then show ?thesis by (intro exI [of _ "name # q"]) simp
  qed auto
qed auto

lemma sorted_wrt_concat_map:
  assumes "\<And>x. x \<in> set xs \<Longrightarrow> sorted_wrt R (f x)"
    and "sorted_wrt (\<lambda>x y. \<forall>a\<in>set (f x). \<forall>b\<in>set (f y). R a b) xs"
  shows "sorted_wrt R (concat (map f xs))"
  using assms by (induction xs) (auto simp: sorted_wrt_append)

lemma changes_sorted:
  "wf_node n \<Longrightarrow> sorted_wrt (\<lambda>a b. fst a < fst b) (changes w dir rel lower n)"
proof (induction w dir rel lower n rule: changes.induct)
  case (1 w dir rel lower es)
  let ?f = "\<lambda>(name, n).
       (rel @ [name], classify (join dir name) name (rel @ [name]) lower w) #
       (if is_leaf n \<or> is_wh name then [] else changes w (join dir name) (rel @ [name]) lower n)"
  have below: "\<exists>q. fst c = rel @ name # q" if "c \<in> set (?f (name, m))" for c name m
    using that by (auto split: if_splits dest: changes_prefix)
  have "sorted (map fst (sort_key fst es))" by simp
  moreover have "distinct (map fst (sort_key fst es))"
    using 1(2) by (simp add: distinct_map)
  ultimately have names: "sorted_wrt (\<lambda>x y. fst x < fst y) (sort_key fst es)"
    by (simp add: strict_sorted_iff flip: sorted_wrt_map)
  have "sorted_wrt (\<lambda>a b. fst a < fst b) (concat (map ?f (sort_key fst es)))"
  proof (rule sorted_wrt_concat_map)
    fix x assume "x \<in> set (sort_key fst es)"
    then have "x \<in> set es" by simp
    moreover obtain name m where xn: "x = (name, m)" by (cases x)
    ultimately have x: "x = (name, m)" and mem: "(name, m) \<in> set (sort_key fst es)" by simp_all
    have wfm: "wf_node m" using 1(2) mem by (auto simp: list_all_iff)
    have "sorted_wrt (\<lambda>a b. fst a < fst b) (changes w (join dir name) (rel @ [name]) lower m)"
      if "\<not> (is_leaf m \<or> is_wh name)"
      by (rule 1(1) [OF mem refl that wfm])
    then show "sorted_wrt (\<lambda>a b. fst a < fst b) (?f x)"
      using x by (auto simp: append_less_left Nil_less_iff dest!: changes_prefix)
  next
    show "sorted_wrt (\<lambda>x y. \<forall>a\<in>set (?f x). \<forall>b\<in>set (?f y). fst a < fst b) (sort_key fst es)"
    proof (rule sorted_wrt_mono_rel [OF _ names])
      fix x y :: "string \<times> node" assume lt: "fst x < fst y"
      obtain a m b n where xy: "x = (a, m)" "y = (b, n)" by (cases x; cases y)
      show "\<forall>u\<in>set (?f x). \<forall>v\<in>set (?f y). fst u < fst v"
      proof (intro ballI)
        fix u v assume u: "u \<in> set (?f x)" and v: "v \<in> set (?f y)"
        obtain q where "fst u = rel @ a # q" using below [OF u [unfolded xy(1)]] ..
        moreover obtain r where "fst v = rel @ b # r" using below [OF v [unfolded xy(2)]] ..
        ultimately show "fst u < fst v" using lt xy by (simp add: append_less_left)
      qed
    qed
  qed
  then show ?case by simp
qed auto

section \<open>Properties\<close>

text \<open>C21: A diff that succeeds prints one record per change of the fork's upper directory against the
  lower directory of its base, in order, and changes nothing.\<close>

theorem diff_fork_output:
  assumes "diff_fork E k root w = (Inr (), w')" and "doc_at E root w = Some d" and "is_dir root w"
  shows "\<exists>e b. fork_of d k = Some e \<and> base_of d (base_key e) = Some b \<and>
    w' = (case metadata (fs w) (upper_path e) of None \<Rightarrow> w | Some n \<Rightarrow>
      w\<lparr>stdout := stdout w @ map render_change (changes w (upper_path e) [] (lower_path b) n)\<rparr>)"
proof -
  from assms(1) obtain e w1 b w2 where 1: "lookup_fork E k root w = (Inr e, w1)"
    and 2: "get_base E root (base_key e) w1 = (Inr b, w2)"
    and 3: "(case metadata (fs w2) (upper_path e) of None \<Rightarrow> ret ()
      | Some n \<Rightarrow> walk_upper E (upper_path e) [] (lower_path b) n) w2 = (Inr (), w')"
    by (auto simp: diff_fork_def runs)
  have "registry_open E root w = (Inr (), w)" using assms(3) by (simp add: registry_open_def create_dir_all_def)
  with 1 have w1: "w1 = w" by (auto simp: lookup_fork_def runs get_fork_Inr dest: read_doc_state)
  have f: "fork_of d k = Some e" using lookup_fork_known [OF assms(2) 1] by simp
  have b: "base_of d (base_key e) = Some b \<and> w2 = w1" using get_base_known [OF _ 2] assms(2) w1 by simp
  show ?thesis
    using f b w1 3 by (auto simp: runs split: option.splits dest!: walk_upper_prints)
qed

theorem diff_fork_output_witness:
  "stdout (snd (diff_fork quiet_env ''f'' ''/d'' (sample_world [''f'']))) = [diff_entry ''x'' Added]"
proof -
  let ?w = "sample_world [''f'']"
  have run: "diff_fork quiet_env ''f'' ''/d'' ?w = (Inr (), snd (diff_fork quiet_env ''f'' ''/d'' ?w))"
    by (rule succeeds) code_simp
  have "is_dir ''/d'' ?w" by (rule is_dirI) (simp add: sample_world_def dir_world_def)
  from diff_fork_output [OF run doc_at_sample this] have "snd (diff_fork quiet_env ''f'' ''/d'' ?w)
      = (case metadata (fs ?w) (upper_path (sample_fork ''f'')) of None \<Rightarrow> ?w | Some n \<Rightarrow>
      ?w\<lparr>stdout := stdout ?w @ map render_change
        (changes ?w (upper_path (sample_fork ''f'')) [] (lower_path sample_base) n)\<rparr>)"
    by (auto simp: fork_of_sample base_of_sample base_key_sample)
  moreover have "stdout (case metadata (fs ?w) (upper_path (sample_fork ''f'')) of None \<Rightarrow> ?w | Some n \<Rightarrow>
      ?w\<lparr>stdout := stdout ?w @ map render_change (changes ?w (upper_path (sample_fork ''f'')) [] (lower_path sample_base) n)\<rparr>)
      = [diff_entry ''x'' Added]" by code_simp
  ultimately show ?thesis by simp
qed



end
