(* ===== verification/ExportPatch.thy ===== *)
theory ExportPatch
  imports Diff
begin

text \<open>
  \<open>fastenv export-patch\<close> (src/export_patch.rs): the sorted walk that turns an upper directory
  into a tar archive. An archive is the list of entries handed to the \<open>tar\<close> crate; what the
  crate refuses, how it renders an archive, and the permission bits are the parameter
  \<open>tar_lib\<close>. Unpacking the archive again gives the upper directory back.
\<close>

section \<open>The archive\<close>

datatype tar_entry = TarWhiteout fpath | TarDir fpath u16 | TarPath fpath node

record tar_lib =
  path_refused :: "fpath \<Rightarrow> errno option"
  append_refused :: "fpath \<Rightarrow> node \<Rightarrow> errno option"
  read_only :: "pathbuf \<Rightarrow> bool"
  render_tar :: "tar_entry list \<Rightarrow> u8 list"

type_synonym 'a tar = "(tar_entry list, error, 'a) io"

definition archive_add :: "tar_entry \<Rightarrow> unit tar" where
  "archive_add x = modify (\<lambda>xs. xs @ [x])"

definition check_op :: "env \<Rightarrow> world \<Rightarrow> fs_op \<Rightarrow> pathbuf \<Rightarrow> ('s, error, unit) io" where
  "check_op E w op p = (case fault E op p w of None \<Rightarrow> ret () | Some e \<Rightarrow> throw (IoError op p e))"

definition check_tar :: "errno option \<Rightarrow> pathbuf \<Rightarrow> unit tar" where
  "check_tar r p = (case r of None \<Rightarrow> ret () | Some e \<Rightarrow> throw (IoError WriteStdout p e))"

definition is_char_whiteout_meta :: "node \<Rightarrow> bool" where
  "is_char_whiteout_meta n \<longleftrightarrow> (case n of CharDev d \<Rightarrow> d = 0 | _ \<Rightarrow> False)"

text \<open>The modes are octal 555 and 755.\<close>

definition dir_mode :: "tar_lib \<Rightarrow> pathbuf \<Rightarrow> u16" where
  "dir_mode T p = (if read_only T p then 365 else 493)"

fun append_dir_recursive :: "tar_lib \<Rightarrow> env \<Rightarrow> world \<Rightarrow> pathbuf \<Rightarrow> fpath \<Rightarrow> node \<Rightarrow> unit tar" where
  "append_dir_recursive T E w dir rel (Dir es) =
     bindE (check_op E w ReadDir dir) (\<lambda>_.
     for_each (\<lambda>(name, n).
       let entry_path = join dir name; p = rel @ [name] in
       bindE (check_op E w StatOp entry_path) (\<lambda>_.
       if is_char_whiteout_meta n then
         bindE (check_tar (path_refused T p) entry_path) (\<lambda>_. archive_add (TarWhiteout p))
       else if \<not> is_leaf n then
         bindE (check_tar (path_refused T p) entry_path) (\<lambda>_.
         bindE (archive_add (TarDir p (dir_mode T entry_path))) (\<lambda>_.
         append_dir_recursive T E w entry_path p n))
       else
         bindE (check_tar (append_refused T p n) entry_path) (\<lambda>_. archive_add (TarPath p n))))
     (sort_key fst es))"
| "append_dir_recursive T E w dir rel n = throw (IoError ReadDir dir ENOTDIR)"

text \<open>The archive a call leaves, complete or not: dropping the builder finishes it as well.\<close>

definition append_upper_to_tar :: "tar_lib \<Rightarrow> env \<Rightarrow> pathbuf \<Rightarrow> world \<Rightarrow> (error + unit) \<times> tar_entry list" where
  "append_upper_to_tar T E upper w =
     (case metadata (fs w) upper of
        None \<Rightarrow> (Inr (), [])
      | Some n \<Rightarrow> append_dir_recursive T E w upper [] n [])"

text \<open>\<open>CountingWriter\<close>: what went through is passed on and counted.\<close>

definition counting_write :: "u8 list \<Rightarrow> u8 list \<times> u64 \<Rightarrow> u8 list \<times> u64" where
  "counting_write buf = (\<lambda>(inner, n). (inner @ buf, n + of_nat (length buf)))"

definition export_patch :: "tar_lib \<Rightarrow> env \<Rightarrow> string \<Rightarrow> pathbuf \<Rightarrow> pathbuf option \<Rightarrow> u64 cmd" where
  "export_patch T E k root output =
     bindE (lookup_fork E k root) (\<lambda>e.
     case output of
       Some out \<Rightarrow>
         bindE (place_file E CreateFile (IoError CreateFile out) out (Raw [])) (\<lambda>_.
         bindE (asks (append_upper_to_tar T E (upper_path e))) (\<lambda>(r, entries).
         let (bytes, n) = counting_write (render_tar T entries) ([], 0) in
         bindE (place_file E CreateFile (IoError CreateFile out) out (Raw bytes)) (\<lambda>_.
         bindE (of_result r) (\<lambda>_. ret n))))
     | None \<Rightarrow>
         bindE (asks (append_upper_to_tar T E (upper_path e))) (\<lambda>(r, entries).
         let (bytes, n) = counting_write (render_tar T entries) ([], 0) in
         bindE (may_fail E WriteStdout []) (\<lambda>_.
         bindE (modify (\<lambda>w. w\<lparr>rawout := rawout w @ bytes\<rparr>)) (\<lambda>_.
         bindE (of_result r) (\<lambda>_. ret n)))))"

section \<open>Specification\<close>

fun tar_entries :: "tar_lib \<Rightarrow> pathbuf \<Rightarrow> fpath \<Rightarrow> node \<Rightarrow> tar_entry list" where
  "tar_entries T dir rel (Dir es) =
     concat (map (\<lambda>(name, n).
       if is_char_whiteout_meta n then [TarWhiteout (rel @ [name])]
       else if \<not> is_leaf n then
         TarDir (rel @ [name]) (dir_mode T (join dir name)) # tar_entries T (join dir name) (rel @ [name]) n
       else [TarPath (rel @ [name]) n]) (sort_key fst es))"
| "tar_entries T dir rel n = []"

lemma for_each_appends:
  assumes "\<And>x xs0 s. x \<in> set xs \<Longrightarrow> f x xs0 = (Inr (), s) \<Longrightarrow> s = xs0 @ g x"
    and "for_each f xs xs0 = (Inr (), s)"
  shows "s = xs0 @ concat (map g xs)"
  using assms by (induction xs arbitrary: xs0) (fastforce simp: runs)+

lemma check_op_Inr [runs]: "check_op E w op p xs = (Inr u, s) \<longleftrightarrow> fault E op p w = None \<and> s = xs"
  by (auto simp: check_op_def runs split: option.splits)

lemma check_tar_Inr [runs]: "check_tar r p xs = (Inr u, s) \<longleftrightarrow> r = None \<and> s = xs"
  by (auto simp: check_tar_def runs split: option.splits)

lemma append_dir_entries:
  "append_dir_recursive T E w dir rel n xs = (Inr (), s) \<Longrightarrow> s = xs @ tar_entries T dir rel n"
proof (induction T E w dir rel n arbitrary: xs s rule: append_dir_recursive.induct)
  case (1 T E w dir rel es)
  from 1(2) have loop: "for_each (\<lambda>(name, n).
       let entry_path = join dir name; p = rel @ [name] in
       bindE (check_op E w StatOp entry_path) (\<lambda>_.
       if is_char_whiteout_meta n then
         bindE (check_tar (path_refused T p) entry_path) (\<lambda>_. archive_add (TarWhiteout p))
       else if \<not> is_leaf n then
         bindE (check_tar (path_refused T p) entry_path) (\<lambda>_.
         bindE (archive_add (TarDir p (dir_mode T entry_path))) (\<lambda>_.
         append_dir_recursive T E w entry_path p n))
       else
         bindE (check_tar (append_refused T p n) entry_path) (\<lambda>_. archive_add (TarPath p n))))
     (sort_key fst es) xs = (Inr (), s)"
    by (auto simp: runs)
  have IH: "s' = ys @ tar_entries T (join dir a) (rel @ [a]) b"
    if "(a, b) \<in> set es" "\<not> is_char_whiteout_meta b" "\<not> is_leaf b"
      "append_dir_recursive T E w (join dir a) (rel @ [a]) b ys = (Inr (), s')" for a b ys s'
    using 1(1) [of "(a, b)" a b "join dir a" "rel @ [a]" ys s'] that by simp
  show ?case unfolding tar_entries.simps
    by (rule for_each_appends [OF _ loop])
       (auto simp: Let_def runs archive_add_def split: if_splits dest!: IH)
qed (auto simp: runs)

text \<open>Unpacking: what applying the entries in order makes of a directory.\<close>

fun unpack_entry :: "tar_entry \<Rightarrow> node \<Rightarrow> node option" where
  "unpack_entry (TarWhiteout p) t = tset p (CharDev 0) t"
| "unpack_entry (TarDir p m) t = tset p (Dir []) t"
| "unpack_entry (TarPath p n) t = tset p n t"

fun unpack :: "tar_entry list \<Rightarrow> node \<Rightarrow> node option" where
  "unpack [] t = Some t"
| "unpack (x # xs) t = Option.bind (unpack_entry x t) (unpack xs)"

fun sort_node :: "node \<Rightarrow> node" where
  "sort_node (Dir es) = Dir (map (\<lambda>(name, n). (name, sort_node n)) (sort_key fst es))"
| "sort_node n = n"

lemma unpack_append: "unpack (xs @ ys) t = Option.bind (unpack xs t) (unpack ys)"
  by (induction xs arbitrary: t) (auto split: bind_splits)

lemma bind_unpack_Nil [simp]: "Option.bind x (unpack []) = x"
  by (cases x) auto

lemma update_fresh: "k \<notin> fst ` set al \<Longrightarrow> AList.update k v al = al @ [(k, v)]"
  by (induction al) auto

lemma update_twice: "AList.update k v (AList.update k u al) = AList.update k v al"
  by (induction al) auto

lemma tset_snoc:
  "tlookup t p = Some (Dir acc) \<Longrightarrow> x \<notin> fst ` set acc \<Longrightarrow>
   tset (p @ [x]) n t = tset p (Dir (acc @ [(x, n)])) t"
proof (induction t p rule: tlookup.induct)
  case (1 t)
  then have "map_of acc x = None" by (simp add: map_of_eq_None_iff)
  with 1 show ?case by (simp add: update_fresh)
qed (auto split: option.splits)

lemma tset_tset: "tset p a t = Some t' \<Longrightarrow> tset p b t' = tset p b t"
proof (induction p a t arbitrary: t' rule: tset.induct)
  case (2 x xs new es)
  then show ?case
    by (auto split: option.splits if_splits simp: update_twice)
qed auto

lemma tset_present: "tlookup t p \<noteq> None \<Longrightarrow> \<exists>t'. tset p n t = Some t'"
  by (induction t p rule: tlookup.induct) (auto split: option.splits)

definition entry_tar :: "tar_lib \<Rightarrow> pathbuf \<Rightarrow> fpath \<Rightarrow> string \<times> node \<Rightarrow> tar_entry list" where
  "entry_tar T dir rel = (\<lambda>(name, n).
       if is_char_whiteout_meta n then [TarWhiteout (rel @ [name])]
       else if \<not> is_leaf n then
         TarDir (rel @ [name]) (dir_mode T (join dir name)) # tar_entries T (join dir name) (rel @ [name]) n
       else [TarPath (rel @ [name]) n])"

lemma unpack_list:
  assumes "distinct (map fst es)" and "tlookup t rel = Some (Dir acc)"
    and "fst ` set es \<inter> fst ` set acc = {}"
    and step: "\<And>x t acc. x \<in> set es \<Longrightarrow> tlookup t rel = Some (Dir acc) \<Longrightarrow> fst x \<notin> fst ` set acc \<Longrightarrow>
      unpack (g x) t = tset rel (Dir (acc @ [(fst x, h x)])) t"
  shows "unpack (concat (map g es)) t = tset rel (Dir (acc @ map (\<lambda>x. (fst x, h x)) es)) t"
  using assms
proof (induction es arbitrary: t acc)
  case Nil
  have "tset p n t = Some t" if "tlookup t p = Some n" for p n t
    using that by (induction t p rule: tlookup.induct)
      (auto split: option.splits simp: AList.update_triv map_of_SomeD)
  with Nil show ?case by simp
next
  case (Cons x es)
  obtain t1 where t1: "tset rel (Dir (acc @ [(fst x, h x)])) t = Some t1"
    using tset_present [of t rel] Cons.prems(2) by auto
  have l1: "tlookup t1 rel = Some (Dir (acc @ [(fst x, h x)]))" using t1 by (rule tset_lookup_self)
  have "unpack (g x) t = Some t1" using Cons.prems t1 by auto
  moreover have "unpack (concat (map g es)) t1
      = tset rel (Dir ((acc @ [(fst x, h x)]) @ map (\<lambda>x. (fst x, h x)) es)) t1"
    by (rule Cons.IH [OF _ l1]) (use Cons.prems in auto)
  ultimately show ?case using tset_tset [OF t1] by (simp add: unpack_append)
qed

lemma unpack_entries:
  "wf_node (Dir es) \<Longrightarrow> tlookup t rel = Some (Dir []) \<Longrightarrow>
   unpack (tar_entries T dir rel (Dir es)) t = tset rel (sort_node (Dir es)) t"
proof (induction T dir rel "Dir es" arbitrary: es t rule: tar_entries.induct)
  case (1 T dir rel es)
  have eq: "tar_entries T dir rel (Dir es) = concat (map (entry_tar T dir rel) (sort_key fst es))"
    by (simp add: entry_tar_def)
  have "unpack (concat (map (entry_tar T dir rel) (sort_key fst es))) t
      = tset rel (Dir ([] @ map (\<lambda>x. (fst x, sort_node (snd x))) (sort_key fst es))) t"
  proof (rule unpack_list)
    show "distinct (map fst (sort_key fst es))" using 1(2) by (simp add: distinct_map)
    show "tlookup t rel = Some (Dir [])" by (rule 1(3))
    show "fst ` set (sort_key fst es) \<inter> fst ` set [] = {}" by simp
  next
    fix x t acc
    assume x: "x \<in> set (sort_key fst es)" and t: "tlookup t rel = Some (Dir acc)" and f: "fst x \<notin> fst ` set acc"
    obtain name n where xn: "x = (name, n)" by (cases x)
    have snoc: "tset (rel @ [name]) m t = tset rel (Dir (acc @ [(name, m)])) t" for m
      using tset_snoc [OF t] f xn by simp
    show "unpack (entry_tar T dir rel x) t = tset rel (Dir (acc @ [(fst x, sort_node (snd x))])) t"
    proof (cases n)
      case (Dir es')
      obtain t1 where t1: "tset (rel @ [name]) (Dir []) t = Some t1"
        using snoc tset_present [of t rel] t by auto
      have mem: "(name, Dir es') \<in> set es" using x xn Dir by simp
      have wfc: "wf_node (Dir es')" using 1(2) mem unfolding wf_node.simps(1) [of es] list_all_iff by blast
      have "unpack (tar_entries T (join dir name) (rel @ [name]) (Dir es')) t1
          = tset (rel @ [name]) (sort_node (Dir es')) t1"
        by (rule 1(1) [OF _ _ _ _ wfc tset_lookup_self [OF t1]])
           (use x xn Dir in \<open>simp_all add: is_char_whiteout_meta_def is_leaf_def\<close>)
      then show ?thesis
        using Dir xn t1 snoc tset_tset [OF t1]
        by (simp add: entry_tar_def is_char_whiteout_meta_def is_leaf_def)
    qed (use xn snoc in \<open>auto simp: entry_tar_def is_char_whiteout_meta_def is_leaf_def\<close>)
  qed
  moreover have "(\<lambda>x :: string \<times> node. (fst x, sort_node (snd x))) = (\<lambda>(name, n). (name, sort_node n))" by auto
  ultimately show ?case unfolding eq sort_node.simps by (simp only: append_Nil)
qed

section \<open>Properties\<close>


definition plain_tar :: tar_lib where
  "plain_tar = \<lparr>path_refused = Map.empty, append_refused = (\<lambda>p n. None), read_only = (\<lambda>p. False),
     render_tar = concat \<circ> map (\<lambda>x. [0])\<rparr>"




end
