(* ===== verification/Gc.thy ===== *)
theory Gc
  imports ExportPatch
begin

text \<open>
  \<open>fastenv gc\<close> (src/gc.rs): durations, the two eviction policies as a plan over the forks with
  a readable timestamp, and the sweep that discards the planned forks one by one. Times are
  nanoseconds; the arithmetic of \<open>parse_duration\<close> is that of a release build, which wraps.
\<close>

section \<open>Durations\<close>

definition parse_duration :: "string \<Rightarrow> error + u64" where
  "parse_duration s =
     (if s = ''0'' then Inr 0
      else
        let amount = (\<lambda>r m. case parse_u64 r of
              None \<Rightarrow> Inl (Bail ''invalid duration: non-numeric amount'')
            | Some n \<Rightarrow> Inr (n * m))
        in case strip_suffix ''s'' s of
             Some r \<Rightarrow> amount r 1
           | None \<Rightarrow> (case strip_suffix ''m'' s of
               Some r \<Rightarrow> amount r 60
             | None \<Rightarrow> (case strip_suffix ''h'' s of
                 Some r \<Rightarrow> amount r 3600
               | None \<Rightarrow> Inl (Bail ''invalid duration: expected suffix s, m, or h''))))"

text \<open>\<open>chrono::Duration::from_std\<close> fails above \<open>i64::MAX\<close> milliseconds, and then zero is taken.\<close>

definition chrono_max_secs :: nat where
  "chrono_max_secs = 9223372036854775"

definition max_age_nanos :: "u64 \<Rightarrow> int" where
  "max_age_nanos secs =
     (if unat secs \<le> chrono_max_secs then int (unat secs) * 1000000000 else 0)"

section \<open>The plan\<close>

record gc_options =
  max_age :: "u64 option"
  max_forks :: "nat option"
  dry_run :: bool

definition forks_with_time :: "env \<Rightarrow> (string \<times> fork_entry) list \<Rightarrow> (string \<times> int) list" where
  "forks_with_time E fks =
     sort_key snd (List.map_filter (\<lambda>(k, e). map_option (\<lambda>ts. (k, ts)) (parse_time E (fork_created_at e))) fks)"

definition ttl_evict :: "env \<Rightarrow> gc_options \<Rightarrow> (string \<times> int) list \<Rightarrow> string list" where
  "ttl_evict E opts ft =
     (case max_age opts of
        None \<Rightarrow> []
      | Some secs \<Rightarrow> map fst (filter (\<lambda>(k, ts). max_age_nanos secs \<le> now_nanos E - ts) ft))"

definition lru_evict :: "gc_options \<Rightarrow> (string \<times> int) list \<Rightarrow> string list" where
  "lru_evict opts ft =
     (case max_forks opts of
        None \<Rightarrow> []
      | Some m \<Rightarrow> if m < length ft then map fst (take (length ft - m) ft) else [])"

definition eviction_list :: "env \<Rightarrow> gc_options \<Rightarrow> (string \<times> fork_entry) list \<Rightarrow> string list" where
  "eviction_list E opts fks =
     (let ft = forks_with_time E fks;
          to_evict = ttl_evict E opts ft @ lru_evict opts ft
      in map fst (filter (\<lambda>(k, ts). k \<in> set to_evict) ft))"

section \<open>The sweep\<close>

definition gc_summary :: "string list \<Rightarrow> u64 \<Rightarrow> bool \<Rightarrow> json" where
  "gc_summary evicted bytes dry =
     JObj [(''evicted_forks'', JArr (map JStr evicted)), (''bytes_reclaimed'', jnum bytes),
           (''dry_run'', JBool dry)]"

definition measure_fork :: "env \<Rightarrow> pathbuf \<Rightarrow> string \<Rightarrow> u64 cmd" where
  "measure_fork E root k =
     bindE (attempt (get_fork E root k)) (\<lambda>r.
     case r of
       Inl (e :: error) \<Rightarrow> ret 0
     | Inr entry \<Rightarrow>
         bindE (attempt (walk_upper_bytes E (upper_path entry))) (\<lambda>q.
         ret (case q of Inl (e :: error) \<Rightarrow> 0 | Inr n \<Rightarrow> n)))"

fun gc_sweep :: "env \<Rightarrow> pathbuf \<Rightarrow> string list \<Rightarrow> u64 \<Rightarrow> string list \<Rightarrow> (u64 \<times> string list) cmd" where
  "gc_sweep E root [] bytes evicted = ret (bytes, evicted)"
| "gc_sweep E root (k # ks) bytes evicted =
     bindE (measure_fork E root k) (\<lambda>n.
     bindE (attempt (discard_fork E k root)) (\<lambda>r.
     gc_sweep E root ks (bytes + n) (case r of Inr u \<Rightarrow> evicted @ [k] | Inl (e :: error) \<Rightarrow> evicted)))"

definition run_gc :: "env \<Rightarrow> pathbuf \<Rightarrow> gc_options \<Rightarrow> unit cmd" where
  "run_gc E root opts =
     bindE (registry_open E root) (\<lambda>_.
     bindE (list_forks E root) (\<lambda>fks.
     let plan = eviction_list E opts fks in
     if dry_run opts then write_out E (gc_summary plan 0 True)
     else bindE (gc_sweep E root plan 0 []) (\<lambda>(bytes, evicted).
          write_out E (gc_summary evicted bytes False))))"

section \<open>The plan, specified\<close>

lemma keeps_measure [keeps_intros]: "keeps P (measure_fork E root k)"
  unfolding measure_fork_def by (intro keeps_intros)

lemma fwt_sorted: "sorted (map snd (forks_with_time E fks))"
  by (simp add: forks_with_time_def)

lemma fwt_set:
  "set (forks_with_time E fks) = {(k, ts). \<exists>e. (k, e) \<in> set fks \<and> parse_time E (fork_created_at e) = Some ts}"
  by (force simp: forks_with_time_def List.map_filter_def)

lemma fwt_distinct: "distinct (map fst fks) \<Longrightarrow> distinct (map fst (forks_with_time E fks))"
proof -
  let ?f = "\<lambda>(k, e). map_option (\<lambda>ts. (k, ts)) (parse_time E (fork_created_at e))"
  assume d: "distinct (map fst fks)"
  have "fst ` set (List.map_filter ?f xs) \<subseteq> fst ` set xs" for xs
    by (force simp: List.map_filter_def)
  then have "distinct (map fst xs) \<Longrightarrow> distinct (map fst (List.map_filter ?f xs))" for xs
    by (induction xs) (force simp: map_filter_simps split: option.splits)+
  from this [OF d] show ?thesis by (simp add: forks_with_time_def distinct_map)
qed

lemma lru_nth:
  "k \<in> set (lru_evict opts ft) \<longleftrightarrow>
     (\<exists>m i. max_forks opts = Some m \<and> i + m < length ft \<and> fst (ft ! i) = k)"
proof -
  have "k \<in> fst ` set (take j ft) \<longleftrightarrow> (\<exists>i<length ft. i < j \<and> fst (ft ! i) = k)" for j
  proof
    assume "k \<in> fst ` set (take j ft)"
    then obtain x where "x \<in> set (take j ft)" "k = fst x" by blast
    then obtain i where "i < length (take j ft)" "take j ft ! i = x" by (meson in_set_conv_nth)
    with \<open>k = fst x\<close> show "\<exists>i<length ft. i < j \<and> fst (ft ! i) = k" by (intro exI [of _ i]) auto
  next
    assume "\<exists>i<length ft. i < j \<and> fst (ft ! i) = k"
    then obtain i where i: "i < length ft" "i < j" "fst (ft ! i) = k" by blast
    then have "take j ft ! i = ft ! i" "i < length (take j ft)" by simp_all
    then have "ft ! i \<in> set (take j ft)" by (metis nth_mem)
    with i(3) show "k \<in> fst ` set (take j ft)" by blast
  qed
  note take = this
  have lt: "i + m < n \<Longrightarrow> i < n" for i m n :: nat by simp
  show ?thesis
    by (cases "max_forks opts") (auto simp: lru_evict_def take less_diff_conv dest: lt)
qed

lemma eviction_mem:
  assumes ft_def: "ft = forks_with_time E fks"
  shows "k \<in> set (eviction_list E opts fks) \<longleftrightarrow>
    (\<exists>i<length ft. fst (ft ! i) = k \<and>
       ((\<exists>secs. max_age opts = Some secs \<and> max_age_nanos secs \<le> now_nanos E - snd (ft ! i)) \<or>
        (\<exists>m. max_forks opts = Some m \<and> i + m < length ft)))"
proof -
  have mem: "k \<in> set (eviction_list E opts fks) \<longleftrightarrow>
      (\<exists>i<length ft. fst (ft ! i) = k \<and> (k \<in> set (ttl_evict E opts ft) \<or> k \<in> set (lru_evict opts ft)))"
    by (force simp: eviction_list_def Let_def in_set_conv_nth [of _ ft] simp flip: ft_def)
  have ttl: "k \<in> set (ttl_evict E opts ft) \<longleftrightarrow>
      (\<exists>i<length ft. fst (ft ! i) = k \<and>
        (\<exists>secs. max_age opts = Some secs \<and> max_age_nanos secs \<le> now_nanos E - snd (ft ! i)))"
    by (force simp: ttl_evict_def in_set_conv_nth [of _ ft] split: option.splits)
  have lt: "i + m < n \<Longrightarrow> i < n" for i m n :: nat by simp
  show ?thesis unfolding mem ttl lru_nth by (blast dest: lt)
qed

lemma lru_count: "max_forks opts = Some m \<Longrightarrow> length ft - m = length (lru_evict opts ft)"
  by (auto simp: lru_evict_def)

lemma eviction_count:
  assumes "distinct (map fst fks)" and "max_forks opts = Some m"
  shows "length (forks_with_time E fks) \<le> m + length (eviction_list E opts fks)"
proof -
  let ?ft = "forks_with_time E fks"
  have d: "distinct (lru_evict opts ?ft)"
    using distinct_take [OF fwt_distinct [OF assms(1), of E]] assms(2) by (auto simp: lru_evict_def take_map)
  have "set (lru_evict opts ?ft) \<subseteq> set (eviction_list E opts fks)"
  proof
    fix k assume "k \<in> set (lru_evict opts ?ft)"
    then obtain i where "i + m < length ?ft" "fst (?ft ! i) = k" using assms(2) by (auto simp: lru_nth)
    then show "k \<in> set (eviction_list E opts fks)"
      unfolding eviction_mem [OF refl] using assms(2) by (intro exI [of _ i]) simp
  qed
  then have "length (lru_evict opts ?ft) \<le> length (eviction_list E opts fks)"
    using d by (metis List.finite_set card_length card_mono distinct_card le_trans)
  with lru_count [OF assms(2), of ?ft] show ?thesis by simp
qed

section \<open>The sweep, specified\<close>

lemma keeps_inv_gc_sweep:
  assumes "flush_ok E root"
  shows "keeps (reg_inv E root) (gc_sweep E root ks bytes evicted)"
proof (induction ks arbitrary: bytes evicted)
  case Nil
  show ?case unfolding gc_sweep.simps by (intro keeps_intros)
next
  case (Cons k ks)
  show ?case unfolding gc_sweep.simps by (intro keeps_intros keeps_inv_discard assms Cons)
qed

lemma keeps_inv_gc:
  "flush_ok E root \<Longrightarrow> keeps (reg_inv E root) (run_gc E root opts)"
  unfolding run_gc_def Let_def by (intro keeps_intros keeps_inv_gc_sweep)

text \<open>The sweep always ends with a result; the entries that go are those of the forks it lists.\<close>

lemma gc_sweep_result:
  assumes "gc_sweep E root ks bytes ev w = (r, w')" and "doc_at E root w = Some d" and "doc_ok root d"
    and "flush_ok E root" and "kernel_ok E"
  shows "\<exists>n done d'. r = Inr (n, ev @ done) \<and> subseq done ks \<and> doc_at E root w' = Some d' \<and>
    fork_of d' = fork_of d |` (- set done) \<and> base_of d' = base_of d"
  using assms(1-3)
proof (induction ks arbitrary: bytes ev w d)
  case Nil
  then show ?case by (auto simp: runs intro!: exI [of _ d])
next
  case (Cons k ks)
  from keepsD [OF keeps_inv_discard [OF assms(4), of k]] have inv: "reg_inv E root w1 \<Longrightarrow> discard_fork E k root w1 = (q, w2) \<Longrightarrow> reg_inv E root w2" for w1 q w2
    by blast
  obtain q w1 where m: "measure_fork E root k w = (q, w1)" by (cases "measure_fork E root k w")
  have w1: "w1 = w" using keepsD [OF keeps_measure [of "\<lambda>x. x = w"] m] by simp
  have "\<exists>n. q = Inr n"
    using m by (auto simp: measure_fork_def io_defs split: prod.splits sum.splits)
  then obtain n where n: "measure_fork E root k w = (Inr n, w)" using m w1 by auto
  obtain x w2 where x: "discard_fork E k root w = (x, w2)" by (cases "discard_fork E k root w")
  have "reg_inv E root w" using Cons.prems by (simp add: reg_inv_def)
  then have "reg_inv E root w2" using inv x by blast
  then obtain d2 where d2: "doc_at E root w2 = Some d2" "doc_ok root d2" by (rule reg_invE)
  show ?case
  proof (cases x)
    case (Inl e)
    have run: "gc_sweep E root ks (bytes + n) ev w2 = (r, w')"
      using Cons.prems(1) n x Inl by (simp add: bindE_def attempt_def)
    have "d2 = d" using discard_doc_Inl [OF _ Cons.prems(2,3)] x Inl d2(1) by auto
    with Cons.IH [OF run d2] show ?thesis by (fastforce intro: subseq_Cons')
  next
    case (Inr u)
    have run: "gc_sweep E root ks (bytes + n) (ev @ [k]) w2 = (r, w')"
      using Cons.prems(1) n x Inr by (simp add: bindE_def attempt_def)
    have "discard_fork E k root w = (Inr u, w2)" using x Inr by simp
    from discard_fork_Inr [OF this Cons.prems(2,3) assms(4,5)] d2(1)
    have dd: "fork_of d2 = (fork_of d)(k := None)" "base_of d2 = base_of d" by auto
    from Cons.IH [OF run d2] obtain n' dn d' where
      "r = Inr (n', (ev @ [k]) @ dn)" "subseq dn ks" "doc_at E root w' = Some d'"
      "fork_of d' = fork_of d2 |` (- set dn)" "base_of d' = base_of d2" by blast
    then show ?thesis using dd
      by (intro exI [of _ n'] exI [of _ "k # dn"] exI [of _ d']) (auto simp: restrict_map_def fun_eq_iff)
  qed
qed

section \<open>Properties\<close>

text \<open>A duration is its number times the unit, as a 64-bit product that wraps: above the range, a
  long duration becomes a short one.\<close>

theorem parse_duration_units:
  assumes "n < 2 ^ 64" and "(u, m) \<in> {(CHR ''s'', 1), (CHR ''m'', 60), (CHR ''h'', 3600)}"
  shows "parse_duration (show_nat n @ [u]) = Inr (of_nat (n * m))"
proof -
  have p: "parse_u64 (show_nat n) = Some (of_nat n)"
    using assms(1) by (simp add: parse_u64_def parse_uint_show_nat)
  have z: "show_nat n @ [u] \<noteq> ''0''" by (cases "show_nat n") auto
  have suf: "strip_suffix [c] (show_nat n @ [u]) = (if c = u then Some (show_nat n) else None)" for c
    by (auto simp: strip_suffix_def)
  show ?thesis using assms(2) z p by (auto simp: parse_duration_def suf Let_def)
qed

text \<open>The witness: five quadrillion hours are 3584 seconds.\<close>

theorem parse_duration_units_witness:
  "parse_duration (show_nat 5124095576030432 @ ''h'') = Inr 3584"
  using parse_duration_units [of 5124095576030432 "CHR ''h''" 3600] by simp

text \<open>C13: The plan of a collection is a selection of the forks with a readable time, oldest first. It has
  exactly the forks whose age has reached the limit, and those that come so early in the order of
  age that at least the allowed number comes after them; at most the allowed number of those forks
  is left over.\<close>

theorem eviction_plan:
  assumes "distinct (map fst fks)" and "ft = forks_with_time E fks"
  shows "sorted (map snd ft) \<and> subseq (eviction_list E opts fks) (map fst ft) \<and>
    (k \<in> set (eviction_list E opts fks) \<longleftrightarrow>
      (\<exists>i<length ft. fst (ft ! i) = k \<and>
         ((\<exists>secs. max_age opts = Some secs \<and> max_age_nanos secs \<le> now_nanos E - snd (ft ! i)) \<or>
          (\<exists>m. max_forks opts = Some m \<and> i + m < length ft)))) \<and>
    (\<forall>m. max_forks opts = Some m \<longrightarrow> length ft \<le> m + length (eviction_list E opts fks))"
proof (intro conjI)
  show "sorted (map snd ft)" using assms(2) fwt_sorted by simp
  show "subseq (eviction_list E opts fks) (map fst ft)"
    by (simp add: eviction_list_def Let_def assms(2) subseq_map)
  show "(k \<in> set (eviction_list E opts fks) \<longleftrightarrow>
      (\<exists>i<length ft. fst (ft ! i) = k \<and>
         ((\<exists>secs. max_age opts = Some secs \<and> max_age_nanos secs \<le> now_nanos E - snd (ft ! i)) \<or>
          (\<exists>m. max_forks opts = Some m \<and> i + m < length ft))))"
    by (rule eviction_mem [OF assms(2)])
  show "\<forall>m. max_forks opts = Some m \<longrightarrow> length ft \<le> m + length (eviction_list E opts fks)"
    using eviction_count [OF assms(1)] assms(2) by blast
qed

definition aged_fork :: "string \<Rightarrow> string \<Rightarrow> string \<times> fork_entry" where
  "aged_fork k t = (k, (sample_fork k)\<lparr>fork_created_at := t\<rparr>)"

theorem eviction_plan_witness:
  "''a'' \<in> set (eviction_list quiet_env \<lparr>max_age = None, max_forks = Some 1, dry_run = False\<rparr>
     [aged_fork ''b'' ''2'', aged_fork ''a'' ''1''])"
proof -
  have "forks_with_time quiet_env [aged_fork ''b'' ''2'', aged_fork ''a'' ''1''] = [(''a'', 1), (''b'', 2)]"
    by code_simp
  then show ?thesis
    using eviction_plan [of "[aged_fork ''b'' ''2'', aged_fork ''a'' ''1'']" "[(''a'', 1), (''b'', 2)]" quiet_env
      "\<lparr>max_age = None, max_forks = Some 1, dry_run = False\<rparr>" "''a''"]
    by (auto simp: aged_fork_def)
qed

text \<open>A limit above the range of milliseconds counts as no age at all: every fork with a time that is
  not in the future is then in the plan.\<close>

theorem eviction_overflow:
  assumes "max_age opts = Some secs" and "chrono_max_secs < unat secs"
    and "(k, e) \<in> set fks" and "parse_time E (fork_created_at e) = Some ts" and "ts \<le> now_nanos E"
  shows "k \<in> set (eviction_list E opts fks)"
proof -
  have "(k, ts) \<in> set (forks_with_time E fks)" using assms(3,4) by (auto simp: fwt_set)
  then obtain i where "i < length (forks_with_time E fks)" "forks_with_time E fks ! i = (k, ts)"
    by (meson in_set_conv_nth)
  then show ?thesis using assms(1,2,5)
    unfolding eviction_mem [OF refl] by (intro exI [of _ i]) (auto simp: max_age_nanos_def)
qed

theorem eviction_overflow_witness:
  "''a'' \<in> set (eviction_list quiet_env \<lparr>max_age = Some 9223372036854775807, max_forks = None, dry_run = False\<rparr>
     [aged_fork ''a'' ''0''])"
proof -
  have "decimal_parse ''0'' = Some 0" by code_simp
  then show ?thesis
    by (intro eviction_overflow [of _ 9223372036854775807 _ "snd (aged_fork ''a'' ''0'')" _ _ 0])
       (simp_all add: aged_fork_def chrono_max_secs_def)
qed



text \<open>The bytes of a fork that could not be discarded count as reclaimed: the sweep adds what it
  measured whether or not the discard then succeeds.\<close>

theorem gc_counts_failed:
  assumes "measure_fork E root k w = (Inr n, w1)" and "discard_fork E k root w1 = (Inl e, w')"
  shows "gc_sweep E root [k] b ev w = (Inr (b + n, ev), w')"
  using assms by (simp add: bindE_def attempt_def ret_def)

theorem gc_counts_failed_witness:
  "\<exists>w'. gc_sweep locked_env ''/d'' [''f''] 0 [] (sample_world [''f'']) = (Inr (3, []), w')"
proof -
  let ?w = "sample_world [''f'']"
  have m: "measure_fork locked_env ''/d'' ''f'' ?w = (Inr 3, snd (measure_fork locked_env ''/d'' ''f'' ?w))"
  proof -
    have "fst (measure_fork locked_env ''/d'' ''f'' ?w) = Inr 3" by code_simp
    then show ?thesis by (metis prod.collapse)
  qed
  have "isl (fst (discard_fork locked_env ''f'' ''/d'' (snd (measure_fork locked_env ''/d'' ''f'' ?w))))" by code_simp
  from gc_counts_failed [OF m fails [OF this], of 0 "[]"] show ?thesis by simp
qed

end
