(* ===== verification/BuildBase.thy ===== *)
theory BuildBase
  imports Gc
begin

text \<open>
  \<open>fastenv build-base\<close> (src/build_base.rs): the collection and sorting of the source tree, the
  blob in the content store, the extraction of the base and its cache layers, and the registration.
  The crates \<open>tar\<close>, \<open>flate2\<close> and \<open>sha2\<close> and the canonicalisation of the source path
  are the parameter \<open>pack_lib\<close>.
\<close>

section \<open>Packing\<close>

datatype pack_item = PackDir | PackFile node

record pack_lib =
  gzip_tar :: "(fpath \<times> pack_item) list \<Rightarrow> errno + u8 list"
  sha256_hex :: "u8 list \<Rightarrow> string"
  unpack_into :: "u8 list \<Rightarrow> node \<Rightarrow> errno option \<times> node"
  canonicalize :: "pathbuf \<Rightarrow> node \<Rightarrow> errno + pathbuf"

fun collect_entries :: "env \<Rightarrow> world \<Rightarrow> pathbuf \<Rightarrow> fpath \<Rightarrow> node \<Rightarrow> ((fpath \<times> pathbuf) list, error, unit) io" where
  "collect_entries E w cur rel (Dir es) =
     bindE (check_op E w ReadDir cur) (\<lambda>_.
     for_each (\<lambda>(name, n).
       let abs = join cur name in
       bindE (modify (\<lambda>xs. xs @ [(rel @ [name], abs)])) (\<lambda>_.
       if is_leaf n then ret () else collect_entries E w abs (rel @ [name]) n)) es)"
| "collect_entries E w cur rel n = throw (IoError ReadDir cur ENOTDIR)"

definition pack_entry :: "env \<Rightarrow> world \<Rightarrow> fpath \<times> pathbuf \<Rightarrow> error + (fpath \<times> pack_item)" where
  "pack_entry E w = (\<lambda>(rel, abs).
     case metadata (fs w) abs of
       None \<Rightarrow> Inl (IoError StatOp abs ENOENT)
     | Some (Dir es) \<Rightarrow> Inr (rel, PackDir)
     | Some n \<Rightarrow> (case fault E OpenRead abs w of
           Some e \<Rightarrow> Inl (IoError OpenRead abs e)
         | None \<Rightarrow> Inr (rel, PackFile n)))"

fun pack_all :: "env \<Rightarrow> world \<Rightarrow> (fpath \<times> pathbuf) list \<Rightarrow> error + (fpath \<times> pack_item) list" where
  "pack_all E w [] = Inr []"
| "pack_all E w (x # xs) =
     (case pack_entry E w x of
        Inl e \<Rightarrow> Inl e
      | Inr y \<Rightarrow> (case pack_all E w xs of Inl e \<Rightarrow> Inl e | Inr ys \<Rightarrow> Inr (y # ys)))"

definition build_gzip_tar :: "pack_lib \<Rightarrow> env \<Rightarrow> pathbuf \<Rightarrow> u8 list cmd" where
  "build_gzip_tar L E dir = (\<lambda>w.
     (case metadata (fs w) dir of
        None \<Rightarrow> Inl (IoError ReadDir dir ENOENT)
      | Some n \<Rightarrow>
          (case collect_entries E w dir [] n [] of
             (Inl e, xs) \<Rightarrow> Inl e
           | (Inr u, xs) \<Rightarrow>
               (case pack_all E w (sort_key fst xs) of
                  Inl e \<Rightarrow> Inl e
                | Inr items \<Rightarrow>
                    (case gzip_tar L items of Inl e \<Rightarrow> Inl (IoError WriteData dir e) | Inr blob \<Rightarrow> Inr blob))), w))"

section \<open>The pipeline\<close>

definition write_atomic :: "env \<Rightarrow> pathbuf \<Rightarrow> content \<Rightarrow> unit cmd" where
  "write_atomic E dest data =
     (case path_parent dest of
        None \<Rightarrow> throw (Bail ''dest has no parent directory'')
      | Some parent \<Rightarrow>
          bindE (temp_file_in E parent) (\<lambda>_.
          bindE (may_fail E WriteData dest) (\<lambda>_.
          place_file E PersistOp (PersistError dest) dest data)))"

text \<open>Unpacking an archive into a directory that exists.\<close>

definition unpack_archive :: "pack_lib \<Rightarrow> pathbuf \<Rightarrow> u8 list \<Rightarrow> unit cmd" where
  "unpack_archive L dir blob = (\<lambda>w.
     case tlookup (fs w) (resolve dir) of
       None \<Rightarrow> (Inl (IoError Unpack dir ENOENT), w)
     | Some n \<Rightarrow>
         (case unpack_into L blob n of (err, n') \<Rightarrow>
            ((case err of None \<Rightarrow> Inr () | Some e \<Rightarrow> Inl (IoError Unpack dir e)),
             (case tset (resolve dir) n' (fs w) of None \<Rightarrow> w | Some t \<Rightarrow> w\<lparr>fs := t\<rparr>))))"

definition base_dir :: "pathbuf \<Rightarrow> string \<Rightarrow> pathbuf" where
  "base_dir root bk = join (join root ''bases'') bk"

definition lower_of :: "pathbuf \<Rightarrow> string \<Rightarrow> pathbuf" where
  "lower_of root bk = join (base_dir root bk) ''lower''"

definition cache_of :: "pathbuf \<Rightarrow> string \<Rightarrow> string \<Rightarrow> pathbuf" where
  "cache_of root bk name = join (join (base_dir root bk) ''cache'') name"

definition meta_of :: "pathbuf \<Rightarrow> string \<Rightarrow> pathbuf" where
  "meta_of root bk = join (base_dir root bk) ''meta.json''"

definition blobs_dir :: "pathbuf \<Rightarrow> pathbuf" where
  "blobs_dir root = join (join (join root ''content'') ''blobs'') ''sha256''"

definition known_cache_names :: "string list" where
  "known_cache_names = [''npm'', ''pip'', ''cargo'']"

definition store_blob :: "pack_lib \<Rightarrow> env \<Rightarrow> pathbuf \<Rightarrow> u8 list \<Rightarrow> unit cmd" where
  "store_blob L E root blob =
     (let p = join (blobs_dir root) (sha256_hex L blob) in
      bindE (create_dir_all E (blobs_dir root)) (\<lambda>_.
      bindE (asks (path_exists p)) (\<lambda>x.
      whenE (\<not> x) (write_atomic E p (Raw blob)))))"

fun extract_caches :: "pack_lib \<Rightarrow> env \<Rightarrow> pathbuf \<Rightarrow> string \<Rightarrow> pathbuf \<Rightarrow> string list \<Rightarrow>
    pathbuf list \<Rightarrow> string list \<Rightarrow> (pathbuf list \<times> string list) cmd" where
  "extract_caches L E src bk root [] paths names = ret (paths, names)"
| "extract_caches L E src bk root (n # ns) paths names =
     (let cache_src = join (join src ''cache'') n; lower = cache_of root bk n in
      bindE (asks (is_dir cache_src)) (\<lambda>d.
      if \<not> d then extract_caches L E src bk root ns paths names
      else bindE (create_dir_all E lower) (\<lambda>_.
           bindE (build_gzip_tar L E cache_src) (\<lambda>blob.
           bindE (unpack_archive L lower blob) (\<lambda>_.
           extract_caches L E src bk root ns (paths @ [lower]) (names @ [n]))))))"

definition build_fresh :: "pack_lib \<Rightarrow> env \<Rightarrow> pathbuf \<Rightarrow> string \<Rightarrow> pathbuf \<Rightarrow> unit cmd" where
  "build_fresh L E src bk root =
     bindE (build_gzip_tar L E src) (\<lambda>blob.
     bindE (store_blob L E root blob) (\<lambda>_.
     bindE (create_dir_all E (lower_of root bk)) (\<lambda>_.
     bindE (unpack_archive L (lower_of root bk) blob) (\<lambda>_.
     bindE (extract_caches L E src bk root known_cache_names [] []) (\<lambda>(paths, names).
     let meta = \<lparr>layer_digest = ''sha256:'' @ sha256_hex L blob, source_path = src,
                 meta_created_at = rfc3339_now E, cache_names = names\<rparr>
     in bindE (write_atomic E (meta_of root bk) (MetaJson meta)) (\<lambda>_.
        insert_base E root bk
          \<lparr>lower_path = lower_of root bk, meta_path = meta_of root bk,
           base_created_at = rfc3339_now E, cache_lower_paths = paths\<rparr>))))))"

definition canonical :: "pack_lib \<Rightarrow> pathbuf \<Rightarrow> pathbuf cmd" where
  "canonical L source =
     bindE (asks (\<lambda>w. canonicalize L source (fs w))) (\<lambda>c.
     of_result (case c of Inl e \<Rightarrow> Inl (IoError Canonicalize source e) | Inr p \<Rightarrow> Inr p))"

definition build_base :: "pack_lib \<Rightarrow> env \<Rightarrow> pathbuf \<Rightarrow> string \<Rightarrow> pathbuf \<Rightarrow> unit cmd" where
  "build_base L E source bk root =
     bindE (canonical L source) (\<lambda>src.
     bindE (registry_open E root) (\<lambda>_.
     bindE (attempt (get_base E root bk)) (\<lambda>r.
     case r of
       Inr b \<Rightarrow> ret ()
     | Inl (e :: error) \<Rightarrow> build_fresh L E src bk root)))"

section \<open>Frames\<close>

lemma seg_ok_base_names [simp]:
  "seg_ok ''lower''" "seg_ok ''cache''" "seg_ok ''meta.json''" "seg_ok ''content''" "seg_ok ''blobs''"
  "seg_ok ''sha256''" "seg_ok ''npm''" "seg_ok ''pip''" "seg_ok ''cargo''"
  by (auto simp: seg_ok_def)

lemma resolve_base_paths:
  assumes "seg_ok bk"
  shows "resolve (lower_of root bk) = resolve root @ [''bases'', bk, ''lower'']"
    "seg_ok n \<Longrightarrow> resolve (cache_of root bk n) = resolve root @ [''bases'', bk, ''cache'', n]"
    "resolve (meta_of root bk) = resolve root @ [''bases'', bk, ''meta.json'']"
    "resolve (blobs_dir root) = resolve root @ [''content'', ''blobs'', ''sha256'']"
  using assms
  by (simp_all add: lower_of_def cache_of_def meta_of_def base_dir_def blobs_dir_def resolve_join)

lemma beside_child:
  "x \<noteq> ''registry.json'' \<Longrightarrow> x \<noteq> ''registry.json.lock'' \<Longrightarrow> beside_registry root (resolve root @ x # p)"
  using parallel_snoc [of "''registry.json''" x "resolve root" "[]" p]
    parallel_snoc [of "''registry.json.lock''" x "resolve root" "[]" p]
  by (simp add: beside_registry_def)

lemma beside_parallel: "beside_registry root q \<Longrightarrow> q \<parallel> (resolve root @ [''registry.json''])"
  by (auto simp: beside_registry_def parallel_sym)

lemma keeps_build_gzip [keeps_intros]: "keeps P (build_gzip_tar L E dir)"
  by (auto simp: keeps_def build_gzip_tar_def)

lemma keeps_doc_unpack:
  "resolve dir \<parallel> (resolve root @ [''registry.json'']) \<Longrightarrow>
   keeps (\<lambda>w. Q (doc_at E root w)) (unpack_archive L dir blob)"
  by (rule keeps_doc)
     (auto simp: keeps_def unpack_archive_def tset_parallel split: option.splits prod.splits)

lemma keeps_doc_write_atomic:
  "resolve p \<parallel> (resolve root @ [''registry.json'']) \<Longrightarrow>
   keeps (\<lambda>w. Q (doc_at E root w)) (write_atomic E p c)"
  unfolding write_atomic_def by (intro keeps_intros keeps_doc_parallel)

definition hex_ok :: "pack_lib \<Rightarrow> bool" where
  "hex_ok L \<longleftrightarrow> (\<forall>b. seg_ok (sha256_hex L b))"

lemma base_paths_parallel:
  assumes "seg_ok bk" and "hex_ok L"
  shows "resolve (lower_of root bk) \<parallel> (resolve root @ [''registry.json''])"
    "seg_ok n \<Longrightarrow> resolve (cache_of root bk n) \<parallel> (resolve root @ [''registry.json''])"
    "resolve (meta_of root bk) \<parallel> (resolve root @ [''registry.json''])"
    "resolve (blobs_dir root) \<parallel> (resolve root @ [''registry.json''])"
    "resolve (join (blobs_dir root) (sha256_hex L blob)) \<parallel> (resolve root @ [''registry.json''])"
  using assms
  by (simp_all add: resolve_base_paths [OF assms(1)] resolve_join hex_ok_def beside_parallel beside_child)

lemma keeps_doc_store:
  assumes "seg_ok bk" and "hex_ok L"
  shows "keeps (\<lambda>w. Q (doc_at E root w)) (store_blob L E root blob)"
  unfolding store_blob_def Let_def
  by (intro keeps_intros keeps_doc_write_atomic keeps_doc_parallel base_paths_parallel [OF assms])

lemma keeps_doc_caches:
  assumes "seg_ok bk" and "hex_ok L"
  shows "set ns \<subseteq> set known_cache_names \<Longrightarrow>
   keeps (\<lambda>w. Q (doc_at E root w)) (extract_caches L E src bk root ns paths names)"
proof (induction ns arbitrary: paths names)
  case Nil
  show ?case unfolding extract_caches.simps by (intro keeps_intros)
next
  case (Cons n ns)
  then have n: "seg_ok n" by (auto simp: known_cache_names_def)
  show ?case unfolding extract_caches.simps Let_def
    by (intro keeps_intros keeps_doc_parallel keeps_doc_unpack base_paths_parallel [OF assms] n Cons.IH)
       (use Cons.prems in auto)
qed

lemma extract_caches_Inr:
  "extract_caches L E src bk root ns ps xs w = (Inr (paths, names), w') \<Longrightarrow>
   ps = map (cache_of root bk) xs \<Longrightarrow>
   paths = map (cache_of root bk) names \<and> (\<exists>found. names = xs @ found \<and> subseq found ns)"
proof (induction ns arbitrary: ps xs w)
  case Nil
  then show ?case by (auto simp: runs)
next
  case (Cons n ns)
  then consider (skip) w1 where "extract_caches L E src bk root ns ps xs w1 = (Inr (paths, names), w')"
    | (found) w1 where "extract_caches L E src bk root ns (ps @ [cache_of root bk n]) (xs @ [n]) w1 = (Inr (paths, names), w')"
    by (auto simp: Let_def runs split: if_splits)
  then show ?case
  proof cases
    case skip
    from Cons.IH [OF skip Cons.prems(2)] show ?thesis by (auto intro: subseq_Cons')
  next
    case found
    from Cons.IH [OF found] Cons.prems(2) obtain f where "paths = map (cache_of root bk) names"
      "names = (xs @ [n]) @ f" "subseq f ns" by auto
    then show ?thesis by (auto intro!: exI [of _ "n # f"])
  qed
qed

lemma errs_keep_build_base:
  assumes "seg_ok bk" and "hex_ok L"
  shows "errs_keep (\<lambda>w. Q (doc_at E root w)) (build_base L E source bk root)"
proof -
  have caches: "keeps (\<lambda>w. Q (doc_at E root w)) (extract_caches L E src bk root known_cache_names ps ns)" for src ps ns
    by (rule keeps_doc_caches [OF assms]) simp
  have main: "errs_keep (\<lambda>w. Q (doc_at E root w)) (build_fresh L E src bk root)" for src
    unfolding build_fresh_def insert_base_def case_prod_beta Let_def
    by (intro errs_keep_bindE errs_keep_lock keeps_intros keeps_doc_store [OF assms] caches keeps_doc_parallel
        keeps_doc_unpack keeps_doc_write_atomic base_paths_parallel [OF assms])
  have sum: "errs_keep P (case r of Inl (e :: error) \<Rightarrow> m | Inr (x :: base_entry) \<Rightarrow> ret ())"
    if "errs_keep P m" for P r and m :: "unit cmd"
    using that by (cases r) (auto intro: errs_keep_keeps keeps_ret)
  have canon: "keeps P (canonical L source)" for P unfolding canonical_def by (intro keeps_intros)
  show ?thesis
    unfolding build_base_def
    by (intro errs_keep_bindE [OF canon] errs_keep_bindE [OF keeps_doc_open]
        errs_keep_bindE [OF keeps_attempt [OF keeps_get(2)]] sum main)
qed

lemma write_atomic_Inr: "write_atomic E p c w = (Inr u, w') \<Longrightarrow> tlookup (fs w') (resolve p) = Some (RegFile c)"
  by (auto simp: write_atomic_def runs split: option.splits dest: place_file_Inr(2))

section \<open>Order independence\<close>

text \<open>What the collection gathers, as a function of the tree.\<close>

fun all_entries :: "pathbuf \<Rightarrow> fpath \<Rightarrow> node \<Rightarrow> (fpath \<times> pathbuf) list" where
  "all_entries cur rel (Dir es) =
     concat (map (\<lambda>(name, n). (rel @ [name], join cur name) #
       (if is_leaf n then [] else all_entries (join cur name) (rel @ [name]) n)) es)"
| "all_entries cur rel n = []"

lemma collect_all: "collect_entries E w cur rel n xs = (Inr (), s) \<Longrightarrow> s = xs @ all_entries cur rel n"
proof (induction E w cur rel n arbitrary: xs s rule: collect_entries.induct)
  case (1 E w cur rel es)
  from 1(2) have loop: "for_each (\<lambda>(name, n).
       let abs = join cur name in
       bindE (modify (\<lambda>xs. xs @ [(rel @ [name], abs)])) (\<lambda>_.
       if is_leaf n then ret () else collect_entries E w abs (rel @ [name]) n)) es xs = (Inr (), s)"
    by (auto simp: runs)
  have IH: "s' = ys @ all_entries (join cur a) (rel @ [a]) b"
    if "(a, b) \<in> set es" "\<not> is_leaf b"
      "collect_entries E w (join cur a) (rel @ [a]) b ys = (Inr (), s')" for a b ys s'
    using 1(1) [of "(a, b)" a b "join cur a" ys s'] that by simp
  show ?case unfolding all_entries.simps
    by (rule for_each_appends [OF _ loop]) (auto simp: Let_def runs split: if_splits dest!: IH)
qed (auto simp: runs)

lemma mset_concat_map: "mset (concat (map f xs)) = sum_mset (image_mset (\<lambda>x. mset (f x)) (mset xs))"
  by (induction xs) auto

lemma all_entries_sort_node: "mset (all_entries cur rel (sort_node n)) = mset (all_entries cur rel n)"
proof (induction cur rel n rule: all_entries.induct)
  case (1 cur rel es)
  let ?g = "\<lambda>(name, n). mset ((rel @ [name], join cur name) #
       (if is_leaf n then [] else all_entries (join cur name) (rel @ [name]) n))"
  have leaf: "is_leaf (sort_node n) = is_leaf n" for n by (cases n) (auto simp: is_leaf_def)
  have "?g (name, sort_node n) = ?g (name, n)" if "(name, n) \<in> set es" for name n
    using 1 [OF that refl] leaf by simp
  then have "image_mset (?g \<circ> (\<lambda>(name, n). (name, sort_node n))) (mset es) = image_mset ?g (mset es)"
    by (intro image_mset_cong) auto
  moreover have "mset (all_entries cur rel (Dir xs)) = sum_mset (image_mset ?g (mset xs))" for xs
    by (simp add: mset_concat_map case_prod_unfold)
  ultimately show ?case
    by (simp only: sort_node.simps mset_map mset_sort multiset.map_comp)
qed auto

text \<open>The relative paths are distinct.\<close>

lemma all_entries_prefix: "x \<in> set (all_entries cur rel n) \<Longrightarrow> \<exists>q. q \<noteq> [] \<and> fst x = rel @ q"
proof (induction cur rel n rule: all_entries.induct)
  case (1 cur rel es)
  from 1(2) obtain name n where mem: "(name, n) \<in> set es"
    and c: "x = (rel @ [name], join cur name) \<or>
      \<not> is_leaf n \<and> x \<in> set (all_entries (join cur name) (rel @ [name]) n)"
    by (auto split: if_splits)
  from c show ?case
  proof
    assume *: "\<not> is_leaf n \<and> x \<in> set (all_entries (join cur name) (rel @ [name]) n)"
    then obtain q where "fst x = rel @ name # q" using 1(1) [OF mem refl] by auto
    then show ?thesis by (intro exI [of _ "name # q"]) simp
  qed auto
qed auto

lemma all_entries_distinct: "wf_node n \<Longrightarrow> distinct (map fst (all_entries cur rel n))"
proof (induction cur rel n rule: all_entries.induct)
  case (1 cur rel es)
  let ?f = "\<lambda>(name, n). (rel @ [name], join cur name) #
       (if is_leaf n then [] else all_entries (join cur name) (rel @ [name]) n)"
  have below: "\<exists>q. fst c = rel @ name # q" if "c \<in> set (?f (name, m))" for c name m
    using that by (auto split: if_splits dest: all_entries_prefix)
  have each: "distinct (map fst (?f (name, n)))" if "(name, n) \<in> set es" for name n
  proof -
    have "wf_node n" using 1(2) that by (auto simp: list_all_iff)
    then have "\<not> is_leaf n \<Longrightarrow> distinct (map fst (all_entries (join cur name) (rel @ [name]) n))"
      using 1(1) [OF that refl] by blast
    then show ?thesis by (auto dest!: all_entries_prefix)
  qed
  have "distinct (map fst es)" using 1(2) by simp
  then have "distinct (map fst (concat (map ?f es)))" using each
  proof (induction es)
    case (Cons x es)
    obtain name n where x: "x = (name, n)" by (cases x)
    have "fst ` set (?f x) \<inter> fst ` set (concat (map ?f es)) = {}"
    proof (rule ccontr)
      assume "\<not> ?thesis"
      then obtain p where p1: "p \<in> fst ` set (?f x)" and p2: "p \<in> fst ` set (concat (map ?f es))" by blast
      from p1 obtain c where c: "c \<in> set (?f x)" and pc: "p = fst c" by (rule imageE)
      from p2 obtain d where cd: "d \<in> set (concat (map ?f es))" and pd: "p = fst d" by (rule imageE)
      from pc pd have eq: "fst c = fst d" by simp
      from cd obtain y where y: "y \<in> set es" and d: "d \<in> set (?f y)" unfolding set_concat set_map by blast
      obtain b m where yb: "y = (b, m)" by (cases y)
      from below [OF c [unfolded x]] below [OF d [unfolded yb]] eq have "name = b" by auto
      with Cons.prems(1) x yb y show False by (auto simp: image_iff)
    qed
    moreover have "distinct (map fst (?f x))" using Cons.prems(2) [of name n] x by simp
    moreover have "distinct (map fst (concat (map ?f es)))" using Cons by auto
    ultimately show ?case by simp
  qed simp
  then show ?case by simp
qed auto

lemma sorted_key_unique:
  assumes "mset xs = mset ys" and "distinct (map fst xs)"
  shows "sort_key fst xs = sort_key fst ys"
proof -
  have "inj_on fst (set xs)" using assms(2) by (simp add: distinct_map)
  moreover have "mset xs = mset (sort_key fst ys)" using assms(1) by simp
  ultimately show ?thesis by (intro sort_key_inj_key_eq) auto
qed

section \<open>Properties\<close>



text \<open>Building a base that is registered already does nothing: nothing is packed or extracted and
  the entry stays.\<close>

theorem build_base_idempotent:
  assumes "doc_at E root w = Some d" and "base_of d bk = Some b" and "is_dir root w"
    and "\<forall>p. fault E OpenRead p w = None" and "canonicalize L source (fs w) = Inr src"
  shows "build_base L E source bk root w = (Inr (), w)"
proof -
  have "registry_open E root w = (Inr (), w)" using assms(3) by (simp add: registry_open_def create_dir_all_def)
  moreover have "read_doc E root w = (Inr d, w)" using assms(1,4) by (intro read_doc_ok) auto
  ultimately show ?thesis
    using assms(2,5)
    by (simp add: build_base_def canonical_def get_base_def base_of_def bindE_def attempt_def asks_def of_result_def ret_def)
qed

text \<open>A packing library that keeps the items as they are.\<close>

definition item_byte :: "fpath \<times> pack_item \<Rightarrow> u8" where
  "item_byte x = of_nat (length (fst x))"

definition plain_pack :: pack_lib where
  "plain_pack = \<lparr>gzip_tar = (\<lambda>xs. Inr (map item_byte xs)), sha256_hex = (\<lambda>b. ''h'' @ show_nat (length b)),
     unpack_into = (\<lambda>b n. (None, n)), canonicalize = (\<lambda>p t. Inr p)\<rparr>"

lemma sample_is_dir: "is_dir ''/d'' (sample_world ks)"
  by (rule is_dirI) (simp add: sample_world_def dir_world_def)

theorem build_base_idempotent_witness:
  "build_base plain_pack quiet_env ''/src'' ''b'' ''/d'' (sample_world []) = (Inr (), sample_world [])"
  by (rule build_base_idempotent [OF doc_at_sample base_of_sample sample_is_dir]) (simp_all add: plain_pack_def)

lemma build_fresh_Inr:
  assumes "build_fresh L E src bk root w2 = (Inr (), w')" and d2: "doc_at E root w2 = Some d"
    and "seg_ok bk" and "hex_ok L" and "flush_ok E root"
  shows "\<exists>blob names. subseq names known_cache_names \<and>
    tlookup (fs w') (resolve (meta_of root bk)) = Some (RegFile (MetaJson
      \<lparr>layer_digest = ''sha256:'' @ sha256_hex L blob, source_path = src,
       meta_created_at = rfc3339_now E, cache_names = names\<rparr>)) \<and>
    doc_at E root w' = Some (doc_insert_base bk
      \<lparr>lower_path = lower_of root bk, meta_path = meta_of root bk, base_created_at = rfc3339_now E,
       cache_lower_paths = map (cache_of root bk) names\<rparr> d)"
proof -
  from assms(1) obtain blob w3 w4 w5 w6 paths names w7 w8 where
    4: "build_gzip_tar L E src w2 = (Inr blob, w3)" and 5: "store_blob L E root blob w3 = (Inr (), w4)"
    and 6: "create_dir_all E (lower_of root bk) w4 = (Inr (), w5)"
    and 7: "unpack_archive L (lower_of root bk) blob w5 = (Inr (), w6)"
    and 8: "extract_caches L E src bk root known_cache_names [] [] w6 = (Inr (paths, names), w7)"
    and 9: "write_atomic E (meta_of root bk) (MetaJson \<lparr>layer_digest = ''sha256:'' @ sha256_hex L blob,
        source_path = src, meta_created_at = rfc3339_now E, cache_names = names\<rparr>) w7 = (Inr (), w8)"
    and 10: "insert_base E root bk \<lparr>lower_path = lower_of root bk, meta_path = meta_of root bk,
        base_created_at = rfc3339_now E, cache_lower_paths = paths\<rparr> w8 = (Inr (), w')"
    by (auto simp: build_fresh_def Let_def runs)
  note par = base_paths_parallel [OF assms(3,4)]
  let ?Q = "\<lambda>x. x = Some d"
  have "doc_at E root w3 = Some d" using keepsD [OF keeps_build_gzip [of "\<lambda>x. x = w2"] 4] d2 by simp
  then have "doc_at E root w4 = Some d" using keepsD [OF keeps_doc_store [OF assms(3,4), of ?Q] 5] by simp
  then have "doc_at E root w5 = Some d" using keepsD [OF keeps_doc_parallel(1) [OF par(1), of ?Q] 6] by simp
  then have "doc_at E root w6 = Some d" using keepsD [OF keeps_doc_unpack [OF par(1), of ?Q] 7] by simp
  then have "doc_at E root w7 = Some d"
    using keepsD [OF keeps_doc_caches [OF assms(3,4), of known_cache_names ?Q] 8] by simp
  then have d8: "doc_at E root w8 = Some d" using keepsD [OF keeps_doc_write_atomic [OF par(3), of ?Q] 9] by simp
  have beside: "beside_registry root (resolve (meta_of root bk))"
    using assms(3) by (simp add: resolve_base_paths beside_child)
  have "tlookup (fs w') (resolve (meta_of root bk)) = Some (RegFile (MetaJson
      \<lparr>layer_digest = ''sha256:'' @ sha256_hex L blob, source_path = src,
       meta_created_at = rfc3339_now E, cache_names = names\<rparr>))"
    using keepsD [OF keeps_registry_beside [OF beside] 10 [unfolded insert_base_def]] write_atomic_Inr [OF 9] by blast
  moreover have "paths = map (cache_of root bk) names \<and> subseq names known_cache_names"
    using extract_caches_Inr [OF 8] by auto
  moreover note insert_base_Inr [OF assms(5) d8 10]
  ultimately show ?thesis by blast
qed


definition source_world :: world where
  "source_world = dir_world (Dir
     [(''d'', Dir []),
      (''s'', Dir [(''cache'', Dir [(''pip'', Dir [(''w'', RegFile (Raw [1]))])]), (''m'', RegFile (Raw [2]))])])"


text \<open>A build that fails leaves the registry document as it was, and the key can be built again.\<close>

lemma build_base_failure:
  "seg_ok bk \<Longrightarrow> hex_ok L \<Longrightarrow> build_base L E source bk root w = (Inl e, w') \<Longrightarrow>
   doc_at E root w' = doc_at E root w"
  using errs_keepD [OF errs_keep_build_base [of bk L "\<lambda>x. x = doc_at E root w"]] by blast

text \<open>The invariant of the registry under a build.\<close>

lemma keeps_inv_build_base:
  assumes "seg_ok bk" and "hex_ok L" and flush: "flush_ok E root"
  shows "keeps (reg_inv E root) (build_base L E source bk root)"
proof -
  have caches: "keeps (reg_inv E root) (extract_caches L E src bk root known_cache_names ps ns)" for src ps ns
    unfolding reg_inv_Q by (rule keeps_doc_caches [OF assms(1,2)]) simp
  have ins: "keeps (reg_inv E root) (insert_base E root k b)" for k b
    unfolding insert_base_def using flush by (intro keeps_inv_lock) (auto intro: doc_ok_insert_base)
  have parts: "keeps (reg_inv E root) (store_blob L E root blob)"
    "keeps (reg_inv E root) (create_dir_all E (lower_of root bk))"
    "keeps (reg_inv E root) (unpack_archive L (lower_of root bk) blob)"
    "keeps (reg_inv E root) (write_atomic E (meta_of root bk) c)" for blob c
    unfolding reg_inv_Q
    by (intro keeps_doc_store [OF assms(1,2)] keeps_doc_parallel keeps_doc_unpack keeps_doc_write_atomic
        base_paths_parallel [OF assms(1,2)])+
  show ?thesis
    unfolding build_base_def canonical_def build_fresh_def Let_def case_prod_beta
    by (intro keeps_intros caches ins parts)
qed

end
