(* ===== verification/Boundary.thy ===== *)
theory Boundary
  imports Bench ExecLaws BuildBase MountPath Gc Diff Du
begin

text \<open>
  The guest boundary (src/boundary.rs): the trait as a record of operations, the local implementation
  on the modules of the workspace engine, and the contract a caller may count on, as a locale that
  the local implementation satisfies.
\<close>

section \<open>The trait\<close>

record guest_runtime =
  g_build_base :: "pathbuf \<Rightarrow> string \<Rightarrow> pathbuf \<Rightarrow> unit cmd"
  g_fork_base :: "string \<Rightarrow> string \<Rightarrow> pathbuf \<Rightarrow> u64 option \<Rightarrow> unit cmd"
  g_discard_fork :: "string \<Rightarrow> pathbuf \<Rightarrow> unit cmd"
  g_run_exec :: "string \<Rightarrow> string list \<Rightarrow> pathbuf \<Rightarrow> exec_options \<Rightarrow> int cmd"
  g_diff_fork :: "string \<Rightarrow> pathbuf \<Rightarrow> unit cmd"
  g_du_fork :: "string \<Rightarrow> pathbuf \<Rightarrow> unit cmd"
  g_export_patch :: "string \<Rightarrow> pathbuf \<Rightarrow> pathbuf option \<Rightarrow> unit cmd"
  g_run_gc :: "pathbuf \<Rightarrow> gc_options \<Rightarrow> unit cmd"
  g_mount_path :: "string \<Rightarrow> pathbuf \<Rightarrow> unit cmd"
  g_unmount_fork :: "string \<Rightarrow> pathbuf \<Rightarrow> unit cmd"
  g_run_bench :: "string \<Rightarrow> pathbuf \<Rightarrow> bench_options \<Rightarrow> bench_result cmd"

text \<open>What a process of the program runs on.\<close>

record platform =
  p_env :: env
  p_kern :: kern
  p_containers :: container_host
  p_vmm :: vmm_host
  p_bench :: bench_host
  p_pack :: pack_lib
  p_tar :: tar_lib
  p_tmp :: "world \<Rightarrow> pathbuf"

definition local_guest :: "platform \<Rightarrow> guest_runtime" where
  "local_guest P =
     \<lparr>g_build_base = build_base (p_pack P) (p_env P),
      g_fork_base = fork_base (p_env P),
      g_discard_fork = discard_fork (p_env P),
      g_run_exec = run_exec (p_env P) (p_kern P) (p_containers P) (p_tmp P),
      g_diff_fork = diff_fork (p_env P),
      g_du_fork = du_fork (p_env P),
      g_export_patch = (\<lambda>k rt out. bindE (export_patch (p_tar P) (p_env P) k rt out) (\<lambda>_. ret ())),
      g_run_gc = run_gc (p_env P),
      g_mount_path = mount_path (p_env P),
      g_unmount_fork = unmount_fork (p_env P),
      g_run_bench = run_bench (p_env P) (p_kern P) (p_vmm P) (p_bench P)\<rparr>"

section \<open>The contract\<close>

text \<open>
  On a platform that is \<open>host_ok\<close> every operation keeps the invariant of the data root, given keys
  that are one path component and an output file outside the registry. \<open>vm_tier\<close> says whether the VM
  tier of the benchmark is covered.
\<close>

locale guest_boundary =
  fixes G :: "'p \<Rightarrow> guest_runtime"
    and host_ok :: "'p \<Rightarrow> pathbuf \<Rightarrow> bool"
    and I :: "'p \<Rightarrow> pathbuf \<Rightarrow> world \<Rightarrow> bool"
    and key_ok :: "string \<Rightarrow> bool"
    and out_ok :: "pathbuf \<Rightarrow> pathbuf \<Rightarrow> bool"
    and vm_tier :: bool
  assumes keeps_build: "host_ok p rt \<Longrightarrow> key_ok k \<Longrightarrow> keeps (I p rt) (g_build_base (G p) src k rt)"
    and keeps_fork: "host_ok p rt \<Longrightarrow> key_ok k \<Longrightarrow> keeps (I p rt) (g_fork_base (G p) bk k rt q)"
    and keeps_discard: "host_ok p rt \<Longrightarrow> keeps (I p rt) (g_discard_fork (G p) k rt)"
    and keeps_exec: "host_ok p rt \<Longrightarrow> keeps (I p rt) (g_run_exec (G p) k args rt opts)"
    and keeps_diff: "host_ok p rt \<Longrightarrow> keeps (I p rt) (g_diff_fork (G p) k rt)"
    and keeps_du: "host_ok p rt \<Longrightarrow> keeps (I p rt) (g_du_fork (G p) k rt)"
    and keeps_export: "host_ok p rt \<Longrightarrow> (\<And>f. out = Some f \<Longrightarrow> out_ok rt f) \<Longrightarrow>
      keeps (I p rt) (g_export_patch (G p) k rt out)"
    and keeps_gc: "host_ok p rt \<Longrightarrow> keeps (I p rt) (g_run_gc (G p) rt gopts)"
    and keeps_mount: "host_ok p rt \<Longrightarrow> keeps (I p rt) (g_mount_path (G p) k rt)"
    and keeps_unmount: "host_ok p rt \<Longrightarrow> keeps (I p rt) (g_unmount_fork (G p) k rt)"
    and keeps_bench: "host_ok p rt \<Longrightarrow> (measure_vm bopts \<longrightarrow> vm_tier) \<Longrightarrow> keeps (I p rt) (g_run_bench (G p) bk rt bopts)"
    and print: "print_blind (I p rt)"

section \<open>The local implementation keeps it\<close>

definition outside_registry :: "pathbuf \<Rightarrow> pathbuf \<Rightarrow> bool" where
  "outside_registry rt p \<longleftrightarrow> resolve p \<parallel> (resolve rt @ [''registry.json''])"

text \<open>
  The data root is not below /sys, temporary directories are not in the way of the registry, and
  containers and spawned programs leave it alone.
\<close>

definition platform_base :: "platform \<Rightarrow> pathbuf \<Rightarrow> bool" where
  "platform_base P rt \<longleftrightarrow>
     flush_ok (p_env P) rt \<and> hex_ok (p_pack P) \<and> [''sys''] \<parallel> resolve rt \<and>
     (\<forall>v. outside_registry rt (p_tmp P v)) \<and>
     (\<forall>c args w. doc_at (p_env P) rt (snd (spawn_wait (p_containers P) c args w)) = doc_at (p_env P) rt w) \<and>
     spawns_leave (p_env P) rt (p_bench P)"

text \<open>The environment does not ask for the VM tier either.\<close>

definition platform_ok :: "platform \<Rightarrow> pathbuf \<Rightarrow> bool" where
  "platform_ok P rt \<longleftrightarrow> platform_base P rt \<and> \<not> env_wants_vm (b_env_vm (p_bench P))"

lemma keeps_asks_bind: "(\<And>s. keeps P (g (f s))) \<Longrightarrow> keeps P (bindE (asks f) g)"
  by (auto simp: keeps_def bindE_def asks_def)

lemma print_blind_inv: "print_blind (reg_inv E rt)"
  by (simp add: print_blind_def reg_inv_def doc_at_blind)

lemma keeps_inv_parallel:
  assumes "outside_registry rt p"
  shows "keeps (reg_inv E rt) (create_dir_all E' p)" "keeps (reg_inv E rt) (remove_dir_all E' p)"
    "keeps (reg_inv E rt) (place_file E' op err p c)"
  unfolding reg_inv_Q
  using assms by (intro keeps_doc keeps_parallel; simp add: outside_registry_def)+

lemma keeps_inv_blind:
  "fds_blind (reg_inv E rt)"
  by (simp add: fds_blind_def reg_inv_def doc_at_def)

lemma guest_attach_pin:
  "guest_attach E K pol w = (Inr l, w') \<Longrightarrow> tracepoint_pin l = Some p \<Longrightarrow>
   p = guest_bpf_pin_path (container_id pol) ''tracepoint''"
proof -
  assume run: "guest_attach E K pol w = (Inr l, w')" and pin: "tracepoint_pin l = Some p"
  from run obtain fd w2 where "attach_pin E K (container_id pol) fd w2 = (Inr (tracepoint_pin l), w')"
    unfolding guest_attach_def bindE_Inr ret_run by auto
  with pin show ?thesis
    by (simp add: attach_pin_def Let_def runs split: option.splits)
qed

lemma sys_parallel: "[''sys''] \<parallel> resolve rt \<Longrightarrow> (''sys'' # q) \<parallel> (resolve rt @ q')"
  by (cases "resolve rt") (auto simp: parallel_Cons)

lemma keeps_inv_guest_detach:
  assumes ok: "platform_base P rt" and k: "seg_ok k"
    and pin: "\<And>p. tracepoint_pin l = Some p \<Longrightarrow> p = guest_bpf_pin_path k ''tracepoint''"
  shows "keeps (reg_inv E rt) (guest_detach E l)"
proof -
  have sys: "[''sys''] \<parallel> resolve rt" using ok by (simp add: platform_base_def)
  note path = guest_pin_path [OF k]
  let ?p = "guest_bpf_pin_path k ''tracepoint''"
  have "keeps (reg_inv E rt) (remove_file E ?p)"
    unfolding reg_inv_Q using sys_parallel [OF sys] by (intro keeps_doc_parallel) (simp add: path(1))
  moreover have "keeps (reg_inv E rt) (remove_dir E d)" if "path_parent ?p = Some d" for d
    unfolding reg_inv_Q using sys_parallel [OF sys] by (intro keeps_doc_parallel) (simp add: path(2) [OF that])
  ultimately have "keeps (reg_inv E rt) (unpin_guest E ?p)"
    unfolding unpin_guest_def remove_parent_dir_def by (intro keeps_intros)
  then have "keeps (reg_inv E rt) (unpin_guest E p)" if "tracepoint_pin l = Some p" for p
    using pin [OF that] by simp
  then show ?thesis
    unfolding guest_detach_def close_opt_def
    by (intro keeps_intros keeps_fds_blind keeps_inv_blind)
qed

lemma keeps_inv_exec_in_bundle:
  assumes ok: "platform_base P rt" and b: "outside_registry rt b" and k: "seg_ok k"
  shows "keeps (reg_inv (p_env P) rt)
    (exec_in_bundle (p_env P) (p_kern P) (p_containers P) k command m opts b)"
proof -
  let ?I = "reg_inv (p_env P) rt"
  have cid: "container_id (for_container k) = k" by (simp add: for_container_def)
  have "outside_registry rt (join b ''config.json'')"
    using b parallel_append [of "resolve b" _ "[''config.json'']" "[]"]
    by (simp add: outside_registry_def resolve_join seg_ok_def)
  then have cfg: "keeps ?I (fs_write_json (p_env P) (join b ''config.json'') j)" for j
    unfolding fs_write_json_def by (intro keeps_intros keeps_inv_parallel)
  have sys: "resolve (guest_bpf_pin_path k ''tracepoint'') \<parallel> (resolve rt @ [''registry.json''])"
    using ok guest_pin_path(1) [OF k] by (simp add: platform_base_def sys_parallel)
  have attach: "keeps ?I (guest_attach (p_env P) (p_kern P) (for_container k))"
    unfolding reg_inv_Q
    using sys k by (intro keeps_doc keeps_attach_elsewhere) (simp_all only: cid)
  have start: "keeps ?I (crun_start (p_containers P) p k b)" for p
  proof (rule keepsI)
    fix w r w'
    assume "crun_start (p_containers P) p k b w = (r, w')" and inv: "?I w"
    then have "w' = snd (spawn_wait (p_containers P) p [''run'', ''--bundle'', b, k] w)"
      unfolding crun_start_def by (simp split: prod.splits sum.splits)
    then have "doc_at (p_env P) rt w' = doc_at (p_env P) rt w" using ok unfolding platform_base_def by simp
    with inv show "?I w'" by (simp add: reg_inv_def)
  qed
  have emit: "keeps ?I (emit_audit_event (p_env P) l ev d)" for l ev d
    unfolding emit_audit_event_def by (rule keeps_modify) (simp add: reg_inv_def doc_at_def)
  have detach: "keeps ?I (guest_detach (p_env P) l)"
    if "guest_attach (p_env P) (p_kern P) (for_container k) w = (Inr l, w')" for l w w'
    using guest_attach_pin [OF that] cid by (intro keeps_inv_guest_detach [OF ok k]) simp
  show ?thesis
    unfolding exec_in_bundle_def crun_create_def crun_delete_def
    by (rule keeps_bindE [OF cfg], rule keeps_bindE_result [OF attach]) (intro keeps_intros start emit detach)
qed

lemma keeps_inv_exec_body:
  assumes ok: "platform_base P rt" and k: "seg_ok k"
  shows "keeps (reg_inv (p_env P) rt) (with_tempdir (p_env P) (p_tmp P)
    (exec_in_bundle (p_env P) (p_kern P) (p_containers P) k command m opts))"
proof (rule keepsI)
  let ?I = "reg_inv (p_env P) rt"
  have tmp: "outside_registry rt (p_tmp P v)" for v using ok by (simp add: platform_base_def)
  fix w r w'
  assume run: "with_tempdir (p_env P) (p_tmp P)
    (exec_in_bundle (p_env P) (p_kern P) (p_containers P) k command m opts) w = (r, w')" and inv: "?I w"
  from with_tempdir_run [OF run] show "?I w'"
  proof (elim disjE exE conjE)
    assume "w' = w"
    from inv show "?I w'" unfolding \<open>w' = w\<close> .
  next
    fix w1 w2
    assume 1: "make_tempdir (p_env P) (p_tmp P) w = (Inr (p_tmp P w), w1)"
      and 2: "exec_in_bundle (p_env P) (p_kern P) (p_containers P) k command m opts (p_tmp P w) w1 = (r, w2)"
      and w': "w' = snd (remove_dir_all (p_env P) (p_tmp P w) w2)"
    from make_tempdir_Inr [OF 1] obtain t where t: "tset (resolve (p_tmp P w)) (Dir []) (fs w) = Some t"
      and w1: "w1 = w\<lparr>fs := t\<rparr>" by blast
    have "doc_at (p_env P) rt w1 = doc_at (p_env P) rt w"
      using tset_parallel [OF t tmp [of w, unfolded outside_registry_def]]
      by (intro doc_at_cong) (simp add: w1)
    with inv have "?I w1" by (simp add: reg_inv_def)
    with keepsD [OF keeps_inv_exec_in_bundle [OF ok tmp k] 2] have "?I w2" .
    then show "?I w'" unfolding w' by (rule keeps_remove_dir_all_snd [of ?I, OF keeps_inv_parallel(2) [OF tmp]])
  qed
qed

lemma keeps_inv_exec:
  assumes "platform_base P rt"
  shows "keeps (reg_inv (p_env P) rt)
    (run_exec (p_env P) (p_kern P) (p_containers P) (p_tmp P) k command rt opts)"
  unfolding run_exec_def
  by (rule keeps_if [OF keeps_throw], rule keeps_inv_lookup) (intro keeps_intros keeps_inv_exec_body assms)

lemma keeps_classify_walk [keeps_intros]:
  "print_blind P \<Longrightarrow> keeps P (walk_upper E dir rel lower n)"
proof (induction n arbitrary: dir rel)
  case (Dir es)
  show ?case
    unfolding walk_upper.simps
    by (intro keeps_intros keeps_print_blind Dir) auto
qed (auto intro: keeps_intros)

lemma keeps_inv_reads:
  shows "keeps (reg_inv E rt) (diff_fork E k rt)" and "keeps (reg_inv E rt) (du_fork E k rt)"
  unfolding diff_fork_def du_fork_def Let_def
  by (intro keeps_intros keeps_get keeps_print_blind print_blind_inv)+

lemma keeps_inv_export:
  assumes "\<And>f. out = Some f \<Longrightarrow> outside_registry rt f"
  shows "keeps (reg_inv E rt) (export_patch T E k rt out)"
proof -
  have "keeps (reg_inv E rt) (modify (\<lambda>w. w\<lparr>rawout := rawout w @ bytes\<rparr>))" for bytes
    by (rule keeps_modify) (simp add: reg_inv_def doc_at_def)
  then show ?thesis
    unfolding export_patch_def Let_def
    by (intro keeps_intros keeps_inv_parallel) (use assms in auto)
qed

lemma keeps_inv_spawn:
  assumes "spawns_leave E rt B"
  shows "keeps (reg_inv E rt) (spawn_status B p args)"
  using spawn_doc [OF assms] by (fastforce simp: keeps_def reg_inv_def)

lemma keeps_inv_fork_loop:
  assumes "flush_ok E rt"
  shows "keeps (reg_inv E rt) (fork_loop E B bk rt n is samples)"
proof (induction "is" arbitrary: samples)
  case (Cons i "is")
  show ?case
    unfolding fork_loop.simps progress_def timed_def
    by (intro keeps_intros keeps_asks_bind keeps_inv_fork keeps_inv_discard assms Cons.IH)
       (simp_all add: seg_ok_bench_id)
qed (auto intro: keeps_intros)

lemma keeps_inv_exec_loop:
  assumes "flush_ok E rt" and "spawns_leave E rt B"
  shows "keeps (reg_inv E rt) (exec_loop E B bk rt n is samples)"
proof (induction "is" arbitrary: samples)
  case (Cons i "is")
  have "keeps (reg_inv E rt) (exec_status B fk)" for fk
    unfolding exec_status_def or_else_def Let_def by (intro keeps_intros keeps_inv_spawn assms(2))
  then show ?case
    unfolding exec_loop.simps progress_def timed_def
    by (intro keeps_intros keeps_asks_bind keeps_inv_fork keeps_inv_discard assms(1) Cons.IH)
       (simp_all add: seg_ok_bench_id)
qed (auto intro: keeps_intros)

lemma keeps_inv_bench:
  assumes "flush_ok E rt" and "spawns_leave E rt B" and "\<not> measure_vm opts" and "\<not> env_wants_vm (b_env_vm B)"
  shows "keeps (reg_inv E rt) (run_bench E K H B bk rt opts)"
  using assms(3,4)
  unfolding run_bench_def exec_stats_def completed_def Let_def
  by (intro keeps_intros keeps_get keeps_same_percentiles keeps_inv_fork_loop keeps_inv_exec_loop assms(1,2)) auto

interpretation guest: guest_boundary local_guest platform_ok "\<lambda>P. reg_inv (p_env P)" seg_ok outside_registry False
  by unfold_locales
     (simp_all add: local_guest_def keeps_inv_exec keeps_inv_reads print_blind_inv platform_ok_def,
      unfold platform_base_def,
      auto intro: keeps_bindE keeps_ret keeps_inv_build_base keeps_inv_fork keeps_inv_discard keeps_inv_export
        keeps_inv_gc keeps_inv_mount_path keeps_inv_unmount keeps_inv_bench)

end
