(* ===== verification/Cli.thy ===== *)
theory Cli
  imports Boundary
begin

text \<open>
  The command line (src/main.rs): the commands as clap hands them over, their dispatch through the
  guest boundary, the exit status of the process, and the table of commands (src/parity_check.rs).
  What any sequence of runs leaves is the relation \<open>cli_reach\<close>.
\<close>

section \<open>Commands\<close>

datatype commands =
    BuildBase pathbuf string
  | Fork string string "string option"
  | Discard string
  | Exec string "string list" pathbuf "string option" "u64 option" guest_network_mode
  | Diff string
  | Du string
  | ExportPatch string "pathbuf option"
  | Gc string "nat option" bool
  | MountPath string
  | Unmount string
  | Bench string u32 bool bool

definition jfrac :: "rat \<Rightarrow> json" where
  "jfrac x = (case quotient_of x of (p, q) \<Rightarrow> JFrac p q)"

definition jthree :: "string \<Rightarrow> (rat \<times> rat \<times> rat) option \<Rightarrow> (string \<times> json) list" where
  "jthree what x = opt_field (what @ ''_p50_ms'') (\<lambda>(a, b, c). jfrac a) x
     @ opt_field (what @ ''_p95_ms'') (\<lambda>(a, b, c). jfrac b) x @ opt_field (what @ ''_p99_ms'') (\<lambda>(a, b, c). jfrac c) x"

definition jtwo :: "string \<Rightarrow> (rat \<times> rat) option \<Rightarrow> (string \<times> json) list" where
  "jtwo what x = opt_field (what @ ''_p50_ms'') (\<lambda>(a, b). jfrac a) x @ opt_field (what @ ''_p95_ms'') (\<lambda>(a, b). jfrac b) x"

definition bench_json :: "bench_result \<Rightarrow> json" where
  "bench_json r =
     JObj ((''iterations'', JNum (uint (res_iterations r))) # jthree ''fork'' (Some (fork_ms r)) @ jthree ''exec'' (exec_ms r)
       @ [(''meets_budget_p95'', JBool (meets_budget_p95 r))]
       @ jthree ''vm_boot'' (map_option vm_boot (vm_ms r)) @ jthree ''crun_startup'' (map_option crun_startup (vm_ms r))
       @ jtwo ''host_ebpf_overhead'' (map_option host_ebpf_overhead (vm_ms r))
       @ jtwo ''guest_ebpf_overhead'' (map_option guest_ebpf_overhead (vm_ms r))
       @ opt_field ''vm_tier_skipped_no_kvm'' JBool (vm_tier_skipped_no_kvm r))"

text \<open>\<open>Option::map(f).transpose()\<close>\<close>

definition transpose_opt :: "('a \<Rightarrow> error + 'b) \<Rightarrow> 'a option \<Rightarrow> error + 'b option" where
  "transpose_opt f x =
     (case x of None \<Rightarrow> Inr None | Some a \<Rightarrow> (case f a of Inl e \<Rightarrow> Inl e | Inr b \<Rightarrow> Inr (Some b)))"

definition run_command :: "env \<Rightarrow> guest_runtime \<Rightarrow> pathbuf \<Rightarrow> commands \<Rightarrow> int cmd" where
  "run_command E G rt c =
     (case c of
        BuildBase dir name \<Rightarrow> bindE (g_build_base G dir name rt) (\<lambda>_. ret 0)
      | Fork base name quota \<Rightarrow>
          bindE (of_result (transpose_opt parse_quota_size quota)) (\<lambda>quota_bytes.
          bindE (g_fork_base G base name rt quota_bytes) (\<lambda>_. ret 0))
      | Discard k \<Rightarrow> bindE (g_discard_fork G k rt) (\<lambda>_. ret 0)
      | Exec k command crun cpu memory network \<Rightarrow>
          bindE (of_result (transpose_opt parse_cpu_spec cpu)) (\<lambda>cpu_spec.
          g_run_exec G k command rt
            \<lparr>crun_path = crun, opt_cpu = cpu_spec, opt_memory = memory, opt_network = network, secret_leases = []\<rparr>)
      | Diff k \<Rightarrow> bindE (g_diff_fork G k rt) (\<lambda>_. ret 0)
      | Du k \<Rightarrow> bindE (g_du_fork G k rt) (\<lambda>_. ret 0)
      | ExportPatch k out \<Rightarrow> bindE (g_export_patch G k rt out) (\<lambda>_. ret 0)
      | Gc age m dry \<Rightarrow>
          bindE (map_err (\<lambda>_. Bail ''invalid --max-age value'') (of_result (parse_duration age))) (\<lambda>d.
          bindE (g_run_gc G rt \<lparr>max_age = Some d, max_forks = m, dry_run = dry\<rparr>) (\<lambda>_. ret 0))
      | MountPath k \<Rightarrow> bindE (g_mount_path G k rt) (\<lambda>_. ret 0)
      | Unmount k \<Rightarrow> bindE (g_unmount_fork G k rt) (\<lambda>_. ret 0)
      | Bench base n ex vm \<Rightarrow>
          bindE (g_run_bench G base rt \<lparr>b_iterations = n, measure_exec = ex, measure_vm = vm\<rparr>) (\<lambda>r.
          bindE (println E (bench_json r)) (\<lambda>_. ret 0)))"

text \<open>
  The status the parent sees: an error returned from \<open>main\<close> is 1, a panic 101, and
  \<open>process::exit\<close> keeps the low eight bits of its code.
\<close>

definition exit_status :: "error + int \<Rightarrow> int" where
  "exit_status r = (case r of Inl (Panic s) \<Rightarrow> 101 | Inl e \<Rightarrow> 1 | Inr c \<Rightarrow> c mod 256)"

definition fastenv_main :: "platform \<Rightarrow> pathbuf \<Rightarrow> commands \<Rightarrow> world \<Rightarrow> int \<times> world" where
  "fastenv_main P rt c w =
     (case run_command (p_env P) (local_guest P) rt c w of (r, w') \<Rightarrow> (exit_status r, w'))"

section \<open>The table of commands\<close>

datatype command_boundary = GuestRuntime | HostControlPlane

record parity_entry =
  pe_command :: string
  pe_boundary :: command_boundary
  pe_deprecated :: bool

definition command_parity_table :: "parity_entry list" where
  "command_parity_table =
     map (\<lambda>(c, dep). \<lparr>pe_command = c, pe_boundary = GuestRuntime, pe_deprecated = dep\<rparr>)
       [(''build-base'', False), (''fork'', False), (''exec'', False), (''diff'', False), (''du'', False),
        (''export-patch'', False), (''gc'', False), (''bench'', False), (''discard'', False),
        (''mount-path'', True), (''unmount'', True)]"

definition supported_commands :: "string list" where
  "supported_commands = map pe_command (filter (\<lambda>e. \<not> pe_deprecated e) command_parity_table)"

definition deprecated_commands :: "string list" where
  "deprecated_commands = map pe_command (filter pe_deprecated command_parity_table)"

text \<open>The name clap derives of a command.\<close>

definition command_name :: "commands \<Rightarrow> string" where
  "command_name c = (case c of BuildBase _ _ \<Rightarrow> ''build-base'' | Fork _ _ _ \<Rightarrow> ''fork'' | Discard _ \<Rightarrow> ''discard''
     | Exec _ _ _ _ _ _ \<Rightarrow> ''exec'' | Diff _ \<Rightarrow> ''diff'' | Du _ \<Rightarrow> ''du'' | ExportPatch _ _ \<Rightarrow> ''export-patch''
     | Gc _ _ _ \<Rightarrow> ''gc'' | MountPath _ \<Rightarrow> ''mount-path'' | Unmount _ \<Rightarrow> ''unmount'' | Bench _ _ _ _ \<Rightarrow> ''bench'')"

lemma command_in_table: "command_name c \<in> set (supported_commands @ deprecated_commands)"
  by (cases c) (simp_all add: command_name_def supported_commands_def deprecated_commands_def command_parity_table_def)

lemma tables_apart: "distinct (supported_commands @ deprecated_commands)"
  by code_simp

section \<open>Any run keeps the invariant\<close>

text \<open>What the command line does not check: names are one path component, the output is not the
  registry, and, unless \<open>vm_tier\<close>, the VM tier of the benchmark is not asked for.\<close>

definition command_ok :: "(string \<Rightarrow> bool) \<Rightarrow> (pathbuf \<Rightarrow> bool) \<Rightarrow> bool \<Rightarrow> commands \<Rightarrow> bool" where
  "command_ok key_ok out_ok vm_tier c \<longleftrightarrow>
     (case c of
        BuildBase dir name \<Rightarrow> key_ok name
      | Fork base name quota \<Rightarrow> key_ok name
      | ExportPatch k (Some f) \<Rightarrow> out_ok f
      | Bench base n ex vm \<Rightarrow> vm \<longrightarrow> vm_tier
      | _ \<Rightarrow> True)"

context guest_boundary
begin

lemma keeps_command:
  assumes "host_ok p rt" and "command_ok key_ok (out_ok rt) vm_tier c"
  shows "keeps (I p rt) (run_command E (G p) rt c)"
proof (cases c)
  case (ExportPatch k out)
  with assms show ?thesis
    by (auto simp: run_command_def command_ok_def intro!: keeps_intros keeps_export)
qed (use assms in \<open>auto simp: run_command_def command_ok_def intro!: keeps_intros keeps_build keeps_fork keeps_discard
      keeps_exec keeps_diff keeps_du keeps_gc keeps_mount keeps_unmount keeps_bench keeps_print_blind print\<close>)

end

section \<open>Sequences of runs\<close>

text \<open>
  The worlds any number of runs lead to, from a data root without a registry. Each run has a platform
  of its own, so a clock and faults of its own; between runs others may do what leaves the registry
  file as it is. What a JSON file means is the same for all of them.
\<close>

inductive cli_reach :: "env \<Rightarrow> pathbuf \<Rightarrow> world \<Rightarrow> bool" for E0 rt where
  fresh: "tlookup (fs w) (resolve (registry_path rt)) = None \<Longrightarrow> cli_reach E0 rt w"
| command: "cli_reach E0 rt w \<Longrightarrow> platform_ok P rt \<Longrightarrow> parse_registry (p_env P) = parse_registry E0 \<Longrightarrow>
    command_ok seg_ok (outside_registry rt) False c \<Longrightarrow> fastenv_main P rt c w = (s, w') \<Longrightarrow> cli_reach E0 rt w'"
| others: "cli_reach E0 rt w \<Longrightarrow> doc_at E0 rt w' = doc_at E0 rt w \<Longrightarrow> cli_reach E0 rt w'"

inductive_cases cli_reachE: "cli_reach E0 rt w"

lemma reg_inv_parse: "parse_registry E = parse_registry E' \<Longrightarrow> reg_inv E rt = reg_inv E' rt"
proof -
  assume p: "parse_registry E = parse_registry E'"
  have "content_doc E = content_doc E'" by (rule ext) (simp add: content_doc_def p split: content.splits)
  then have "doc_at E rt = doc_at E' rt"
    by (intro ext) (simp add: doc_at_def split: option.splits node.splits)
  then show ?thesis by (intro ext) (simp add: reg_inv_def)
qed

lemma cli_reach_inv: "cli_reach E0 rt w \<Longrightarrow> reg_inv E0 rt w"
proof (induction rule: cli_reach.induct)
  case (fresh w)
  then have "doc_at E0 rt w = Some default_registry_doc" by (simp add: doc_at_def)
  then show ?case by (simp add: reg_inv_def doc_ok_default)
next
  case (command w P c s w')
  then obtain r where run: "run_command (p_env P) (local_guest P) rt c w = (r, w')"
    by (auto simp: fastenv_main_def split: prod.splits)
  from keepsD [OF guest.keeps_command [OF command(2,4)] run] command(3,6) show ?case
    by (simp add: reg_inv_parse [OF command(3)])
next
  case (others w w')
  then show ?case by (simp add: reg_inv_def)
qed

lemma reg_inv_spelled:
  assumes "reg_inv E0 rt w"
  shows "\<exists>d. doc_at E0 rt w = Some d \<and> distinct (map fst (bases d)) \<and> distinct (map fst (forks d)) \<and>
    (\<forall>k e. fork_of d k = Some e \<longrightarrow> upper_path e = upper_of rt k \<and> work_path e = work_of rt k \<and>
       (merged_path e = None \<or> merged_path e = Some (merged_of rt k))) \<and>
    (\<forall>k1 k2. fork_of d k1 \<noteq> None \<and> fork_of d k2 \<noteq> None \<and> k1 \<noteq> k2 \<longrightarrow>
       resolve (fork_dir rt k1) \<parallel> resolve (fork_dir rt k2))"
proof -
  obtain d where d: "doc_at E0 rt w = Some d" "doc_ok rt d"
    using assms by (rule reg_invE)
  have key: "seg_ok k \<and> entry_ok rt k e" if "fork_of d k = Some e" for k e
    using doc_ok_fork [OF d(2) that] .
  have apart: "resolve (fork_dir rt k1) \<parallel> resolve (fork_dir rt k2)"
    if "fork_of d k1 \<noteq> None" "fork_of d k2 \<noteq> None" "k1 \<noteq> k2" for k1 k2
    using that key parallel_snoc [of k1 k2 "resolve rt @ [''forks'']" "[]" "[]"]
    by (auto simp: resolve_fork_paths)
  show ?thesis
    using d key apart by (intro exI [of _ d]) (auto simp: doc_ok_def wf_doc_def entry_ok_def)
qed

text \<open>C2: Whatever sequence of commands runs on a data root that starts without a registry, and whatever
  succeeds or fails on the way, the registry stays readable; base and fork keys are distinct; a fork's
  paths are those of its own key; and the directories of two forks never lie inside one another. The
  names given to \<open>build-base\<close> and \<open>fork\<close> are taken to be one path component.\<close>

theorem cli_registry_sound:
  assumes "cli_reach E0 rt w"
  shows "\<exists>d. doc_at E0 rt w = Some d \<and> distinct (map fst (bases d)) \<and> distinct (map fst (forks d)) \<and>
    (\<forall>k e. fork_of d k = Some e \<longrightarrow> upper_path e = upper_of rt k \<and> work_path e = work_of rt k \<and>
       (merged_path e = None \<or> merged_path e = Some (merged_of rt k))) \<and>
    (\<forall>k1 k2. fork_of d k1 \<noteq> None \<and> fork_of d k2 \<noteq> None \<and> k1 \<noteq> k2 \<longrightarrow>
       resolve (fork_dir rt k1) \<parallel> resolve (fork_dir rt k2))"
  by (rule reg_inv_spelled [OF cli_reach_inv [OF assms]])

lemma run_exec_code:
  assumes "run_exec E K C tmp k command rt opts w = (Inr c, w')"
  shows "\<exists>s. c = crun_exit_code s"
proof -
  have code: "\<exists>s. c = crun_exit_code s" if "exec_in_bundle E K C k command m opts b v = (Inr c, v')" for m b v v'
    using that by (auto simp: exec_in_bundle_def runs dest: crun_start_Inr)
  from run_exec_run [OF assms] obtain m w1 where "with_tempdir E tmp (exec_in_bundle E K C k command m opts) w1 = (Inr c, w')"
    by auto
  from with_tempdir_run [OF this] code show ?thesis by auto
qed


section \<open>On a sample platform\<close>

definition sample_platform :: platform where
  "sample_platform = \<lparr>p_env = quiet_env, p_kern = quiet_kern, p_containers = quiet_host, p_vmm = sample_vmm [],
     p_bench = sample_bench spawn_all, p_pack = plain_pack, p_tar = plain_tar, p_tmp = bundle_at\<rparr>"

definition sample_main :: "commands \<Rightarrow> world \<Rightarrow> int \<times> world" where
  "sample_main = fastenv_main sample_platform ''/d''"

definition built_world :: world where
  "built_world = snd (sample_main (Fork ''k'' ''f'' None) (snd (sample_main (BuildBase ''/s'' ''k'') source_world)))"

lemma hex_ok_plain: "hex_ok plain_pack"
proof -
  have "CHR ''/'' \<notin> set (show_nat n)" for n by (auto dest!: show_nat_digits simp: is_digit_range)
  then show ?thesis by (auto simp: hex_ok_def plain_pack_def seg_ok_def)
qed

lemma platform_ok_sample: "platform_ok sample_platform ''/d''"
proof -
  have d: "resolve ''/d'' = [''d'']" by code_simp
  have "outside_registry ''/d'' (bundle_at v)" for v
    by (simp add: outside_registry_def bundle_at_def sample_bundle d parallel_Cons)
  moreover have "doc_at quiet_env ''/d'' (snd (spawn_wait quiet_host c args v)) = doc_at quiet_env ''/d'' v" for c args v
    by (simp add: quiet_host_def killed_child_def)
  moreover have "spawns_leave quiet_env ''/d'' (sample_bench spawn_all)"
    by (simp add: spawns_leave_def sample_bench_def spawn_all_def)
  moreover have "\<not> env_wants_vm (b_env_vm (sample_bench spawn_all))" by code_simp
  ultimately show ?thesis
    by (simp add: platform_ok_def platform_base_def sample_platform_def hex_ok_plain d parallel_Cons)
qed

lemma cli_reach_sample:
  assumes "cli_reach quiet_env ''/d'' w" and "command_ok seg_ok (outside_registry ''/d'') False c"
  shows "cli_reach quiet_env ''/d'' (snd (sample_main c w))"
  by (rule cli_reach.command [OF assms(1) platform_ok_sample _ assms(2), of "fst (sample_main c w)"])
     (simp_all add: sample_platform_def sample_main_def)

lemma cli_reach_built: "cli_reach quiet_env ''/d'' built_world"
proof -
  have "cli_reach quiet_env ''/d'' source_world"
    by (rule cli_reach.fresh) (simp add: source_world_def dir_world_def)
  then show ?thesis
    unfolding built_world_def by (intro cli_reach_sample) (simp_all add: command_ok_def seg_ok_def)
qed

theorem cli_registry_sound_witness:
  "\<exists>d e. doc_at quiet_env ''/d'' built_world = Some d \<and> fork_of d ''f'' = Some e \<and>
     upper_path e = upper_of ''/d'' ''f''"
proof -
  have "map_option (\<lambda>d. fork_of d ''f'' = None) (doc_at quiet_env ''/d'' built_world) = Some False"
    by code_simp
  then obtain d e where "doc_at quiet_env ''/d'' built_world = Some d" "fork_of d ''f'' = Some e" by auto
  with cli_registry_sound [OF cli_reach_built] show ?thesis by auto
qed

definition exec_true :: commands where
  "exec_true = Exec ''f'' [''true''] ''/crun'' (Some ''0-1'') None AuditedEgress"


text \<open>Fork names are not checked: one with \<open>..\<close> puts the fork's directories into the base's.\<close>

lemma fork_name_escapes:
  "let (s, w) = sample_main (Fork ''b'' ''../bases/b'' None) (sample_world [])
   in s = 0 \<and> tlookup (fs w) [''d'', ''bases'', ''b'', ''upper''] \<noteq> None"
  by code_simp

end
