(* ===== verification/Footprint.thy ===== *)
theory Footprint
  imports Cli
begin

text \<open>
  Where a command may write: the registry files, the fork, base and content directories of the data
  root, the temporary directory of \<open>exec\<close>, the pins below /sys and the output file it was given.
  The contract of the guest boundary is interpreted a second time, for what lies anywhere else.
\<close>

section \<open>Places out of reach\<close>

definition still :: "fpath \<Rightarrow> node option \<Rightarrow> world \<Rightarrow> bool" where
  "still q x = (\<lambda>w. tlookup (fs w) q = x)"

definition clear_of :: "pathbuf \<Rightarrow> fpath \<Rightarrow> bool" where
  "clear_of rt q \<longleftrightarrow>
     beside_registry rt q \<and> \<not> prefix q (resolve rt) \<and>
     (resolve rt @ [''forks'']) \<parallel> q \<and> (resolve rt @ [''bases'']) \<parallel> q \<and> (resolve rt @ [''content'']) \<parallel> q"

definition platform_clear :: "fpath \<Rightarrow> platform \<Rightarrow> pathbuf \<Rightarrow> bool" where
  "platform_clear q P rt \<longleftrightarrow>
     platform_ok P rt \<and> clear_of rt q \<and> [''sys''] \<parallel> q \<and> (\<forall>v. resolve (p_tmp P v) \<parallel> q) \<and>
     (\<forall>c args w. tlookup (fs (snd (spawn_wait (p_containers P) c args w))) q = tlookup (fs w) q) \<and>
     (\<forall>p args w. tlookup (fs (snd (b_spawn (p_bench P) p args w))) q = tlookup (fs w) q)"

abbreviation both :: "fpath \<Rightarrow> node option \<Rightarrow> env \<Rightarrow> pathbuf \<Rightarrow> world \<Rightarrow> bool" where
  "both q x E rt \<equiv> (\<lambda>w. reg_inv E rt w \<and> still q x w)"

lemma parallel_below: "p \<parallel> q \<Longrightarrow> (p @ r) \<parallel> q"
  using parallel_append [of p q r "[]"] by simp

lemma clear_paths:
  assumes "clear_of rt q"
  shows "(resolve rt @ ''forks'' # r) \<parallel> q" "(resolve rt @ ''bases'' # r) \<parallel> q" "(resolve rt @ ''content'' # r) \<parallel> q"
  using assms parallel_below [of "resolve rt @ [''forks'']" q r] parallel_below [of "resolve rt @ [''bases'']" q r]
    parallel_below [of "resolve rt @ [''content'']" q r]
  by (simp_all add: clear_of_def)

lemma keeps_still_dir:
  assumes "resolve p \<parallel> q"
  shows "keeps (still q x) (create_dir_all E p)" "keeps (still q x) (remove_dir_all E p)"
    "keeps (still q x) (remove_dir E p)" "keeps (still q x) (remove_file E p)" "keeps (still q x) (place_file E op err p c)"
  unfolding still_def by (intro keeps_parallel assms)+

lemma keeps_still_blind:
  "keeps (still q x) (sys_mount E err m)" "keeps (still q x) (sys_umount E err p)"
  "keeps (still q x) (println E j)" "keeps (still q x) (eprintln E j)" "keeps (still q x) (write_out E j)"
  "keeps (still q x) (write_err E j)"
  by (intro keeps_mtab_blind keeps_print_blind; simp add: still_def mtab_blind_def print_blind_def)+

lemma keeps_still_registry:
  assumes "clear_of rt q"
  shows "keeps (still q x) (registry_open E rt)" "keeps (still q x) (insert_fork E rt k e)"
    "keeps (still q x) (insert_base E rt k b)"
  using assms
  by (auto simp: still_def clear_of_def registry_open_def registry_op_defs
      intro: keeps_create_dir_other keeps_registry_beside)

lemma keeps_still_fork:
  assumes "clear_of rt q" and "seg_ok k" and "p \<in> {fork_dir rt k, upper_of rt k, work_of rt k, merged_of rt k}"
  shows "keeps (still q x) (create_dir_all E p)" "keeps (still q x) (remove_dir E p)"
proof -
  have "resolve p \<parallel> q" using assms(3) clear_paths(1) [OF assms(1)] by (auto simp: resolve_fork_paths [OF assms(2)])
  then show "keeps (still q x) (create_dir_all E p)" "keeps (still q x) (remove_dir E p)"
    by (intro keeps_still_dir; assumption)+
qed

text \<open>Looking a fork up, then working on an entry that satisfies the invariant.\<close>

lemma keeps_both_lookup:
  assumes "clear_of rt q"
    and "\<And>e. seg_ok k \<Longrightarrow> entry_ok rt k e \<Longrightarrow> keeps (reg_inv E rt) (f e)"
    and "\<And>e. seg_ok k \<Longrightarrow> entry_ok rt k e \<Longrightarrow> keeps (still q x) (f e)"
  shows "keeps (both q x E rt) (bindE (lookup_fork E k rt) f)"
proof (rule keeps_bindE_result)
  have "keeps (still q x) (lookup_fork E k rt)"
    unfolding lookup_fork_def by (intro keeps_intros keeps_get keeps_still_registry assms(1))
  then show "keeps (both q x E rt) (lookup_fork E k rt)"
    by (rule keeps_conj [OF keeps_lookup_fork [OF keeps_inv_open]])
  fix s e s'
  assume run: "lookup_fork E k rt s = (Inr e, s')" and "both q x E rt s"
  then obtain d where d: "doc_at E rt s = Some d" "doc_ok rt d" by (blast elim: reg_invE)
  with run have ok: "seg_ok k" "entry_ok rt k e" by (auto dest: lookup_fork_known doc_ok_fork)
  show "keeps (both q x E rt) (f e)" by (intro keeps_conj assms ok)
qed

section \<open>The operations\<close>

lemma still_fork:
  assumes "clear_of rt q" and "seg_ok k"
  shows "keeps (still q x) (fork_base E bk k rt qb)"
proof -
  have "keeps (still q x) (fork_quota_mode E rt k u b)" for u b
    by (rule keeps_xattr_blind) (simp add: still_def)
  then show ?thesis
    unfolding fork_base_def Let_def
    by (intro keeps_intros keeps_get keeps_still_registry keeps_still_blind keeps_still_fork [OF assms]) (simp_all add: assms(1))
qed

lemma still_build:
  assumes c: "clear_of rt q" and bk: "seg_ok bk" and hex: "hex_ok L"
  shows "keeps (still q x) (build_base L E src bk rt)"
proof -
  have paths: "resolve (lower_of rt bk) \<parallel> q" "seg_ok n \<Longrightarrow> resolve (cache_of rt bk n) \<parallel> q" "resolve (meta_of rt bk) \<parallel> q"
    "resolve (blobs_dir rt) \<parallel> q" "resolve (join (blobs_dir rt) (sha256_hex L blob)) \<parallel> q" for n blob
    using clear_paths [OF c] hex by (simp_all add: resolve_base_paths [OF bk] resolve_join hex_ok_def)
  have un: "keeps (still q x) (unpack_archive L dir blob)" if "resolve dir \<parallel> q" for dir blob
    using that by (auto simp: keeps_def still_def unpack_archive_def tset_parallel split: option.splits prod.splits)
  have wr: "keeps (still q x) (write_atomic E p d)" if "resolve p \<parallel> q" for p d
    unfolding write_atomic_def by (intro keeps_intros keeps_still_dir that)
  have caches: "keeps (still q x) (extract_caches L E s bk rt ns ps xs)" if "set ns \<subseteq> set known_cache_names" for s ns ps xs
    using that
  proof (induction ns arbitrary: ps xs)
    case (Cons n ns)
    then have n: "seg_ok n" by (auto simp: known_cache_names_def)
    show ?case unfolding extract_caches.simps Let_def
      by (intro keeps_intros keeps_still_dir un paths n Cons.IH) (use Cons.prems in auto)
  qed (auto intro: keeps_intros)
  show ?thesis
    unfolding build_base_def canonical_def build_fresh_def store_blob_def Let_def case_prod_beta
    by (intro keeps_intros keeps_get keeps_still_registry keeps_still_dir un wr paths caches c subset_refl)
qed

lemma both_discard:
  assumes "clear_of rt q" and "flush_ok E rt"
  shows "keeps (both q x E rt) (discard_fork E k rt)"
  unfolding still_def
  using assms parallel_below [of "resolve rt @ [''forks'']" q "[k]"]
  by (intro keeps_beside_discard) (simp_all add: clear_of_def)

lemma both_gc:
  assumes "clear_of rt q" and "flush_ok E rt"
  shows "keeps (both q x E rt) (run_gc E rt opts)"
proof -
  have sweep: "keeps (both q x E rt) (gc_sweep E rt ks bytes ev)" for ks bytes ev
  proof (induction ks arbitrary: bytes ev)
    case (Cons k ks)
    show ?case unfolding gc_sweep.simps by (intro keeps_intros both_discard assms Cons)
  qed (auto intro: keeps_intros)
  have open_print: "keeps (both q x E rt) (registry_open E rt)" "keeps (both q x E rt) (write_out E j)" for j
    by (intro keeps_conj keeps_inv_open keeps_inv_print keeps_still_registry keeps_still_blind assms(1))+
  show ?thesis
    unfolding run_gc_def Let_def by (intro keeps_intros keeps_get sweep open_print)
qed

lemma both_mount:
  assumes "clear_of rt q" and "flush_ok E rt"
  shows "keeps (both q x E rt) (mount_path E k rt)" and "keeps (both q x E rt) (unmount_fork E k rt)"
proof -
  show "keeps (both q x E rt) (mount_path E k rt)"
    unfolding mount_path_def
  proof (rule keeps_both_lookup [OF assms(1)])
    fix e assume ok: "seg_ok k" "entry_ok rt k e"
    note reg = keeps_inv_insert [OF assms(2) ok(1)] keeps_inv_fork_path [OF ok(1)]
    note st = keeps_still_blind keeps_still_registry [OF assms(1)] keeps_still_fork [OF assms(1) ok(1)]
    show "keeps (reg_inv E rt) (case merged_path e of
         Some m \<Rightarrow> bindE (is_mounted E m) (\<lambda>b.
           if b then println E (mount_path_output k m) else mount_fresh E k rt e)
       | None \<Rightarrow> mount_fresh E k rt e)"
      unfolding mount_fresh_def Let_def
      by (intro keeps_intros reg) (use ok in \<open>auto simp: entry_ok_def\<close>)
    show "keeps (still q x) (case merged_path e of
         Some m \<Rightarrow> bindE (is_mounted E m) (\<lambda>b.
           if b then println E (mount_path_output k m) else mount_fresh E k rt e)
       | None \<Rightarrow> mount_fresh E k rt e)"
      unfolding mount_fresh_def Let_def by (intro keeps_intros st) simp_all
  qed
  show "keeps (both q x E rt) (unmount_fork E k rt)"
    unfolding unmount_fork_def
  proof (rule keeps_both_lookup [OF assms(1)])
    fix e assume ok: "seg_ok k" "entry_ok rt k e"
    let ?f = "case merged_path e of
         None \<Rightarrow> throw (NotMounted k)
       | Some m \<Rightarrow>
           bindE (is_mounted E m) (\<lambda>b.
           if \<not> b then throw (NotMounted k)
           else bindE (sys_umount E (UmountFailed k) m) (\<lambda>_.
                bindE (asks (path_exists m)) (\<lambda>x.
                bindE (whenE x (remove_dir E m)) (\<lambda>_.
                insert_fork E rt k (e\<lparr>merged_path := None\<rparr>)))))"
    show "keeps (reg_inv E rt) ?f"
      by (intro keeps_intros keeps_inv_insert keeps_inv_fork_path [OF ok(1)] assms(2) ok(1))
         (use ok in \<open>auto simp: entry_ok_def\<close>)
    show "keeps (still q x) ?f"
      by (intro keeps_intros keeps_still_blind keeps_still_registry keeps_still_fork [OF assms(1) ok(1)] assms(1))
         (use ok in \<open>auto simp: entry_ok_def\<close>)
  qed
qed

lemma both_reads:
  assumes "clear_of rt q"
  shows "keeps (both q x E rt) (diff_fork E k rt)" and "keeps (both q x E rt) (du_fork E k rt)"
proof -
  have pr: "print_blind (still q x)" by (simp add: still_def print_blind_def)
  have look: "keeps (still q x) (lookup_fork E k rt)"
    unfolding lookup_fork_def by (intro keeps_intros keeps_get keeps_still_registry assms)
  have "keeps (still q x) (diff_fork E k rt)"
    unfolding diff_fork_def by (intro keeps_bindE [OF look] keeps_intros keeps_get pr)
  then show "keeps (both q x E rt) (diff_fork E k rt)" by (rule keeps_conj [OF keeps_inv_reads(1)])
  have "keeps (still q x) (du_fork E k rt)"
    unfolding du_fork_def Let_def by (intro keeps_bindE [OF look] keeps_intros keeps_print_blind pr)
  then show "keeps (both q x E rt) (du_fork E k rt)" by (rule keeps_conj [OF keeps_inv_reads(2)])
qed

lemma both_export:
  assumes "clear_of rt q" and "\<And>f. out = Some f \<Longrightarrow> outside_registry rt f \<and> resolve f \<parallel> q"
  shows "keeps (both q x E rt) (export_patch T E k rt out)"
proof (rule keeps_conj)
  show "keeps (reg_inv E rt) (export_patch T E k rt out)" using assms(2) by (intro keeps_inv_export) simp
  have bytes: "keeps (still q x) (modify (\<lambda>w. w\<lparr>rawout := rawout w @ bytes\<rparr>))" for bytes
    by (rule keeps_modify) (simp add: still_def)
  have look: "keeps (still q x) (lookup_fork E k rt)"
    unfolding lookup_fork_def by (intro keeps_intros keeps_get keeps_still_registry assms(1))
  show "keeps (still q x) (export_patch T E k rt out)"
    unfolding export_patch_def Let_def
    by (rule keeps_bindE [OF look], intro keeps_intros keeps_still_dir bytes) (use assms(2) in auto)
qed

lemma still_exec_in_bundle:
  assumes clear: "platform_clear q P rt" and b: "resolve b \<parallel> q" and k: "seg_ok k"
  shows "keeps (still q x) (exec_in_bundle (p_env P) (p_kern P) (p_containers P) k command m opts b)"
proof -
  have sys: "(''sys'' # r) \<parallel> q" for r
    using clear parallel_below [of "[''sys'']" q r] by (simp add: platform_clear_def)
  note path = guest_pin_path [OF k]
  have cid: "container_id (for_container k) = k" by (simp add: for_container_def)
  have "resolve (join b ''config.json'') \<parallel> q"
    using parallel_below [OF b, of "[''config.json'']"] by (simp add: resolve_join seg_ok_def)
  then have cfg: "keeps (still q x) (fs_write_json (p_env P) (join b ''config.json'') j)" for j
    unfolding fs_write_json_def by (intro keeps_intros keeps_still_dir)
  have attach: "keeps (still q x) (guest_attach (p_env P) (p_kern P) (for_container k))"
    unfolding still_def by (rule keeps_attach_elsewhere) (simp_all only: cid k path(1) sys)
  have start: "keeps (still q x) (crun_start (p_containers P) p k b)" for p
  proof (rule keepsI)
    fix w r w'
    assume "crun_start (p_containers P) p k b w = (r, w')" and inv: "still q x w"
    then have "w' = snd (spawn_wait (p_containers P) p [''run'', ''--bundle'', b, k] w)"
      unfolding crun_start_def by (simp split: prod.splits sum.splits)
    then have "tlookup (fs w') q = tlookup (fs w) q" using clear unfolding platform_clear_def by simp
    with inv show "still q x w'" by (simp add: still_def)
  qed
  have emit: "keeps (still q x) (emit_audit_event (p_env P) l ev d)" for l ev d
    unfolding emit_audit_event_def by (rule keeps_modify) (simp add: still_def)
  let ?p = "guest_bpf_pin_path k ''tracepoint''"
  have "keeps (still q x) (remove_file (p_env P) ?p)"
    by (intro keeps_still_dir) (simp only: path(1) sys)
  moreover have "keeps (still q x) (remove_dir (p_env P) d)" if "path_parent ?p = Some d" for d
    by (intro keeps_still_dir) (simp only: path(2) [OF that] sys)
  ultimately have unpin: "keeps (still q x) (unpin_guest (p_env P) ?p)"
    unfolding unpin_guest_def remove_parent_dir_def by (intro keeps_intros)
  have detach: "keeps (still q x) (guest_detach (p_env P) l)"
    if "guest_attach (p_env P) (p_kern P) (for_container k) w = (Inr l, w')" for l w w'
  proof -
    have "keeps (still q x) (unpin_guest (p_env P) p)" if "tracepoint_pin l = Some p" for p
      using guest_attach_pin [OF \<open>guest_attach _ _ _ w = _\<close> that] cid unpin by simp
    then show ?thesis
      unfolding guest_detach_def close_opt_def
      by (intro keeps_intros keeps_fds_blind) (simp_all add: fds_blind_def still_def)
  qed
  show ?thesis
    unfolding exec_in_bundle_def crun_create_def crun_delete_def
    by (rule keeps_bindE [OF cfg], rule keeps_bindE_result [OF attach]) (intro keeps_intros start emit detach)
qed

lemma still_tempdir:
  assumes "\<And>v. resolve (tmp v) \<parallel> q" and "\<And>v. keeps (still q x) (body (tmp v))"
  shows "keeps (still q x) (with_tempdir E tmp body)"
proof (rule keepsI)
  fix w r w'
  assume run: "with_tempdir E tmp body w = (r, w')" and s: "still q x w"
  from with_tempdir_run [OF run] show "still q x w'"
  proof (elim disjE exE conjE)
    assume "w' = w"
    from s show "still q x w'" unfolding \<open>w' = w\<close> .
  next
    fix w1 w2
    assume 1: "make_tempdir E tmp w = (Inr (tmp w), w1)" and 2: "body (tmp w) w1 = (r, w2)"
      and w': "w' = snd (remove_dir_all E (tmp w) w2)"
    from make_tempdir_Inr [OF 1] obtain t where t: "tset (resolve (tmp w)) (Dir []) (fs w) = Some t"
      and w1: "w1 = w\<lparr>fs := t\<rparr>" by blast
    have "still q x w1" using s tset_parallel [OF t assms(1)] by (simp add: still_def w1)
    then have "still q x w2" by (rule keepsD [OF assms(2) 2])
    then show "still q x w'"
      unfolding w' by (rule keeps_remove_dir_all_snd [of "still q x", OF keeps_still_dir(2) [OF assms(1)]])
  qed
qed

lemma both_exec:
  assumes clear: "platform_clear q P rt"
  shows "keeps (both q x (p_env P) rt) (run_exec (p_env P) (p_kern P) (p_containers P) (p_tmp P) k command rt opts)"
proof -
  have c: "platform_base P rt" "clear_of rt q" "resolve (p_tmp P v) \<parallel> q" for v
    using clear by (auto simp: platform_clear_def platform_ok_def platform_base_def)
  have st: "keeps (still q x) (with_tempdir (p_env P) (p_tmp P)
      (exec_in_bundle (p_env P) (p_kern P) (p_containers P) k command m opts))" if "seg_ok k" for m
    by (intro still_tempdir still_exec_in_bundle [OF clear] c that)
  show ?thesis
    unfolding run_exec_def
  proof (rule keeps_if [OF keeps_throw], rule keeps_both_lookup [OF c(2)])
    fix e assume "seg_ok k"
    note body = keeps_inv_exec_body [OF c(1) this] st [OF this]
    show "keeps (reg_inv (p_env P) rt) (case merged_path e of None \<Rightarrow> throw (NoMergedPath k)
        | Some m \<Rightarrow> bindE (asks (path_exists m)) (\<lambda>y. if \<not> y then throw (MergedMissing m k)
            else with_tempdir (p_env P) (p_tmp P) (exec_in_bundle (p_env P) (p_kern P) (p_containers P) k command m opts)))"
      by (intro keeps_intros body)
    show "keeps (still q x) (case merged_path e of None \<Rightarrow> throw (NoMergedPath k)
        | Some m \<Rightarrow> bindE (asks (path_exists m)) (\<lambda>y. if \<not> y then throw (MergedMissing m k)
            else with_tempdir (p_env P) (p_tmp P) (exec_in_bundle (p_env P) (p_kern P) (p_containers P) k command m opts)))"
      by (intro keeps_intros body)
  qed
qed

lemma still_spawn:
  assumes "platform_clear q P rt"
  shows "keeps (still q x) (spawn_status (p_bench P) p args)"
proof (rule keepsI)
  fix w r w'
  assume run: "spawn_status (p_bench P) p args w = (r, w')" and s: "still q x w"
  have "w' = snd (b_spawn (p_bench P) p args w)"
    using run unfolding spawn_status_def by (simp split: prod.splits sum.splits)
  then have "tlookup (fs w') q = tlookup (fs w) q" using assms unfolding platform_clear_def by simp
  with s show "still q x w'" by (simp add: still_def)
qed

lemma both_loops:
  assumes clear: "platform_clear q P rt"
  shows "keeps (both q x (p_env P) rt) (fork_loop (p_env P) (p_bench P) bk rt n is samples)"
    and "keeps (both q x (p_env P) rt) (exec_loop (p_env P) (p_bench P) bk rt n is samples)"
proof -
  let ?B = "both q x (p_env P) rt"
  have c: "clear_of rt q" "flush_ok (p_env P) rt" "spawns_leave (p_env P) rt (p_bench P)"
    using clear by (auto simp: platform_clear_def platform_ok_def platform_base_def)
  have print: "keeps ?B (eprintln (p_env P) j)" for j
    by (intro keeps_conj keeps_inv_print keeps_still_blind)
  have fork: "keeps ?B (fork_base (p_env P) bk (bench_id what i t) rt None)" if "what \<in> {''fork'', ''exec''}" for what i t
    by (intro keeps_conj keeps_inv_fork still_fork c seg_ok_bench_id that)
  have spawn: "keeps ?B (spawn_status (p_bench P) p args)" for p args
    by (intro keeps_conj keeps_inv_spawn c still_spawn [OF clear])
  then have status: "keeps ?B (exec_status (p_bench P) fk)" for fk
    unfolding exec_status_def or_else_def Let_def by (intro keeps_intros spawn)
  show "keeps ?B (fork_loop (p_env P) (p_bench P) bk rt n is samples)"
  proof (induction "is" arbitrary: samples)
    case (Cons i "is")
    show ?case
      unfolding fork_loop.simps progress_def timed_def
      by (intro keeps_intros keeps_asks_bind print fork both_discard c Cons.IH) simp
  qed (auto intro: keeps_intros)
  show "keeps ?B (exec_loop (p_env P) (p_bench P) bk rt n is samples)"
  proof (induction "is" arbitrary: samples)
    case (Cons i "is")
    show ?case
      unfolding exec_loop.simps progress_def timed_def
      by (intro keeps_intros keeps_asks_bind print fork status both_discard c Cons.IH) simp
  qed (auto intro: keeps_intros)
qed

lemma both_bench:
  assumes clear: "platform_clear q P rt" and vm: "\<not> measure_vm opts"
  shows "keeps (both q x (p_env P) rt) (run_bench (p_env P) K H (p_bench P) bk rt opts)"
proof -
  have c: "clear_of rt q" "\<not> env_wants_vm (b_env_vm (p_bench P))"
    using clear by (auto simp: platform_clear_def platform_ok_def platform_base_def)
  have print: "keeps (both q x (p_env P) rt) (eprintln (p_env P) j)" for j
    by (intro keeps_conj keeps_inv_print keeps_still_blind)
  have opened: "keeps (both q x (p_env P) rt) (registry_open (p_env P) rt)"
    by (intro keeps_conj keeps_inv_open keeps_still_registry c)
  show ?thesis
    using vm c(2)
    unfolding run_bench_def exec_stats_def completed_def Let_def
    by (intro keeps_intros keeps_get keeps_same_percentiles both_loops clear print opened) auto
qed

lemma platform_clearD:
  "platform_clear q P rt \<Longrightarrow> clear_of rt q \<and> flush_ok (p_env P) rt \<and> hex_ok (p_pack P)"
  by (simp add: platform_clear_def platform_ok_def platform_base_def)

lemma both_print: "print_blind (both q x E rt)"
  using print_blind_inv [of E rt] by (simp add: print_blind_def still_def)

interpretation elsewhere: guest_boundary local_guest "platform_clear q" "\<lambda>P. both q x (p_env P)" seg_ok
    "\<lambda>rt f. outside_registry rt f \<and> resolve f \<parallel> q" False
  by unfold_locales
     (simp_all add: local_guest_def both_exec both_bench both_print,
      auto dest!: platform_clearD intro: keeps_bindE keeps_ret keeps_conj keeps_inv_build_base keeps_inv_fork
        still_build still_fork both_discard both_reads both_export both_gc both_mount)

section \<open>The footprint of a command\<close>

text \<open>The directories of the project VMs are out of reach of the workspace engine.\<close>

lemma clear_of_vms: "clear_of rt (resolve rt @ ''vms'' # r)"
  using parallel_snoc [of "''forks''" "''vms''" "resolve rt" "[]" r] parallel_snoc [of "''bases''" "''vms''" "resolve rt" "[]" r]
    parallel_snoc [of "''content''" "''vms''" "resolve rt" "[]" r]
  by (auto simp: clear_of_def beside_child dest!: prefix_length_le)


definition vm_beside_world :: world where
  "vm_beside_world = exec_world\<lparr>fs :=
     the (tset [''d'', ''vms''] (Dir [(''p'', Dir [(''state.json'', RegFile (Raw [7]))])]) (fs exec_world))\<rparr>"


end
