(* ===== verification/VmFootprint.thy ===== *)
theory VmFootprint
  imports VmClaims ExecLaws
begin

text \<open>
  Where the supervisor of the project VMs may write: the VM directories of its root and the pins of
  the eBPF policies. The laws of the records are interpreted a second time, for records whose pins
  keep away from a given place.
\<close>

section \<open>Paths\<close>

lemma join_absolute: "is_absolute p \<Longrightarrow> is_absolute (join p s)"
  by (auto simp: join_def is_absolute_def)

lemma join_pieces:
  assumes "slash \<notin> set s"
  shows "set (split_on slash (join p s)) \<subseteq> set (split_on slash p) \<union> {s}"
proof -
  have s: "split_on slash s = [s]" using assms by (rule split_on_none)
  have abs: "\<not> is_absolute s" using assms by (cases s) (auto simp: is_absolute_def)
  consider (empty) "p = []" | (sep) a where "p = a @ [slash]" | (plain) "p \<noteq> []" "last p \<noteq> slash"
    by (metis append_butlast_last_id)
  then show ?thesis
  proof cases
    case sep
    then have "join p s = a @ slash # s" using abs by (simp add: join_def)
    then show ?thesis using sep by (auto simp: split_on_append s)
  qed (use abs in \<open>auto simp: join_def split_on_append s\<close>)
qed

lemma validated_id:
  assumes "validate_project_id pid = Inr ()"
  shows "seg_ok pid \<or> pid = ''.''" and "slash \<notin> set pid" and "pid \<noteq> ''..''"
  using assms by (auto simp: validate_project_id_def seg_ok_def trim_def trim_start_def trim_end_by_def contains_str_iff split: if_splits)

text \<open>A root the program can be sure of: absolute, without parent steps.\<close>

definition root_plain :: "pathbuf \<Rightarrow> bool" where
  "root_plain root \<longleftrightarrow> is_absolute root \<and> ''..'' \<notin> set (split_on slash root)"

lemma resolve_valid_dir:
  assumes "validate_project_id pid = Inr ()"
  shows "\<exists>d. resolve (vm_dir root pid) = resolve root @ ''vms'' # d"
  using validated_id(1) [OF assms] by (auto simp: resolve_vm_dir) (simp add: vm_dir_def resolve_join_dot resolve_join)

lemma resolve_state_parent:
  assumes "root_plain root" and v: "validate_project_id pid = Inr ()" and "path_parent (state_path root pid) = Some d"
  shows "resolve d = resolve (vm_dir root pid)"
proof -
  have "set (split_on slash (state_path root pid)) \<subseteq> set (split_on slash root) \<union> {''vms'', pid, ''state.json''}"
    using join_pieces [of "''vms''" root] join_pieces [of pid "join root ''vms''"]
      join_pieces [of "''state.json''" "vm_dir root pid"] validated_id(2) [OF v]
    unfolding state_path_def vm_dir_def by auto
  with assms(1) validated_id(3) [OF v] have "''..'' \<notin> set (split_on slash (state_path root pid))"
    by (auto simp: root_plain_def)
  moreover have "is_absolute (state_path root pid)"
    using assms(1) by (simp add: state_path_def vm_dir_def join_absolute root_plain_def)
  ultimately show ?thesis using resolve_parent [OF _ _ assms(3)] by (simp add: resolve_state_path)
qed

lemma beside_vms: "(resolve root @ [''vms'']) \<parallel> q \<Longrightarrow> validate_project_id pid = Inr () \<Longrightarrow> resolve (vm_dir root pid) \<parallel> q"
  using resolve_valid_dir [of pid root] parallel_append [of "resolve root @ [''vms'']" q _ "[]"] by auto

section \<open>Steps\<close>

definition pin_beside :: "fpath \<Rightarrow> pathbuf \<Rightarrow> bool" where
  "pin_beside q p \<longleftrightarrow> resolve p \<parallel> q \<and> (\<forall>d. path_parent p = Some d \<longrightarrow> resolve d \<parallel> q)"

text \<open>The pin a policy would get, as it is made and as it is recorded.\<close>

definition policy_clear :: "fpath \<Rightarrow> string \<Rightarrow> string \<Rightarrow> bool" where
  "policy_clear q pid name \<longleftrightarrow>
     pin_beside q (bpf_pin_path pid name) \<and> pin_beside q (to_string_lossy (bpf_pin_path pid name))"

definition record_clear :: "pathbuf \<Rightarrow> fpath \<Rightarrow> project_vm_record \<Rightarrow> bool" where
  "record_clear root q r \<longleftrightarrow> record_ok root r \<and> policy_beside r q"

definition vm_call_clear :: "fpath \<Rightarrow> vm_call \<Rightarrow> bool" where
  "vm_call_clear q c \<longleftrightarrow>
     (case c of
        CallDestroy pid \<Rightarrow> validate_project_id pid = Inr ()
      | CallEbpf pid pol \<Rightarrow> policy_clear q pid (pol_name pol)
      | _ \<Rightarrow> True)"

lemma policy_beside_updates [simp]:
  "policy_beside (r\<lparr>vm_updated_at := t\<rparr>) q = policy_beside r q"
  "policy_beside (r\<lparr>vm_state := st\<rparr>) q = policy_beside r q"
  "policy_beside (r\<lparr>network_policy := n\<rparr>) q = policy_beside r q"
  "policy_beside (r\<lparr>kernel_ref := k\<rparr>) q = policy_beside r q"
  "policy_beside (r\<lparr>seed_data_refs := sd\<rparr>) q = policy_beside r q"
  "policy_beside (r\<lparr>secrets := l\<rparr>) q = policy_beside r q"
  "policy_beside (r\<lparr>artifacts := a\<rparr>) q = policy_beside r q"
  by (simp_all add: policy_beside_def)

interpretation clear: record_laws "record_clear root q" root "policy_clear q" for root q
  by unfold_locales
     (auto simp: record_clear_def policy_clear_def pin_beside_def intro: fresh_record_ok record_ok_put,
      auto simp: policy_beside_def fresh_record_def Let_def pin_beside_def)

lemma keeps_beside:
  assumes "resolve p \<parallel> q"
  shows "plain_at (\<lambda>w. tlookup (fs w) q = x) E p" "keeps (\<lambda>w. tlookup (fs w) q = x) (place_file E op err p c)"
    "keeps (\<lambda>w. tlookup (fs w) q = x) (create_dir_all E p)"
  by (intro plain_at_beside keeps_parallel assms)+

lemma beside_join: "resolve d \<parallel> q \<Longrightarrow> seg_ok s \<Longrightarrow> resolve (join d s) \<parallel> q"
  using parallel_append [of "resolve d" q "[s]" "[]"] by (simp add: resolve_join)

lemma keeps_persist_beside:
  assumes "root_plain root" and "record_ok root r" and "(resolve root @ [''vms'']) \<parallel> q"
  shows "keeps (\<lambda>w. tlookup (fs w) q = x) (touch_and_persist E root r)"
proof -
  let ?pid = "project_id r"
  have v: "validate_project_id ?pid = Inr ()" using assms(2) by (simp add: record_ok_def Let_def)
  note d = beside_vms [OF assms(3) v]
  have "resolve (state_path root ?pid) \<parallel> q" unfolding state_path_def by (rule beside_join [OF d]) simp
  moreover have "resolve p \<parallel> q" if "path_parent (state_path root ?pid) = Some p" for p
    using resolve_state_parent [OF assms(1) v that] d by simp
  ultimately show ?thesis
    unfolding touch_and_persist_def persist_record_def Let_def
    by (auto intro!: keeps_intros keeps_beside split: option.splits)
qed

lemma runtime_files_clear:
  assumes "record_ok root r" and "(resolve root @ [''vms'']) \<parallel> q"
  shows "runtime_files_plain (\<lambda>w. tlookup (fs w) q = x) E r"
proof -
  let ?d = "vm_dir root (project_id r)"
  have v: "validate_project_id (project_id r) = Inr ()" using assms(1) by (simp add: record_ok_def Let_def)
  note d = beside_vms [OF assms(2) v]
  have "resolve (join (join ?d ''logs'') ''firecracker.log'') \<parallel> q" by (intro beside_join d) simp_all
  moreover have "vm_log_file r = join (join ?d ''logs'') ''firecracker.log''"
    "firecracker_sock r = join ?d ''firecracker.sock''" "pid_path_for_record r = join ?d ''firecracker.pid''"
    using assms(1) by (simp_all add: record_ok_def Let_def vm_log_file_def pid_path_for_record_def)
  ultimately show ?thesis
    unfolding runtime_files_plain_def by (auto intro!: plain_at_beside beside_join d)
qed

lemma keeps_layout_clear:
  assumes "validate_project_id pid = Inr ()" and "(resolve root @ [''vms'']) \<parallel> q"
  shows "keeps (\<lambda>w. tlookup (fs w) q = x) (ensure_vm_layout E root pid)"
    and "spec_project_id spec = pid \<Longrightarrow> keeps (\<lambda>w. tlookup (fs w) q = x) (create_project_vm E root spec)"
proof -
  have sub: "resolve (join (vm_dir root pid) s) \<parallel> q" if "seg_ok s" for s
    by (rule beside_join [OF beside_vms [OF assms(2,1)] that])
  show "keeps (\<lambda>w. tlookup (fs w) q = x) (ensure_vm_layout E root pid)"
    unfolding ensure_vm_layout_def Let_def by (intro keeps_intros keeps_beside sub) (simp_all add: seg_ok_def)
  show "spec_project_id spec = pid \<Longrightarrow> keeps (\<lambda>w. tlookup (fs w) q = x) (create_project_vm E root spec)"
    unfolding create_project_vm_def Let_def
    by (intro keeps_intros keeps_plain_files keeps_beside) (simp_all add: sub seg_ok_def)
qed

lemma keeps_load_ebpf_clear:
  assumes "pin_beside q (bpf_pin_path pid name)"
  shows "keeps (\<lambda>w. tlookup (fs w) q = x) (load_and_attach_host_ebpf E K pid name obj aps)"
proof (rule keeps_load_and_attach)
  fix fd
  have "keeps (\<lambda>w. tlookup (fs w) q = x) (sys_bpf_pin K fd (bpf_pin_path pid name))"
    using assms by (auto simp: keeps_def sys_bpf_pin_def tset_parallel pin_beside_def split: option.splits)
  then show "keeps (\<lambda>w. tlookup (fs w) q = x) (pin_bpf_prog E K fd (bpf_pin_path pid name))"
    unfolding pin_bpf_prog_def using assms by (auto intro!: keeps_intros keeps_beside simp: pin_beside_def)
qed (simp_all add: tc_blind_def fds_blind_def)

section \<open>Sessions\<close>

text \<open>Calls one after the other, whatever each one returns.\<close>

definition vm_session :: "env \<Rightarrow> kern \<Rightarrow> vmm_host \<Rightarrow> pathbuf \<Rightarrow> vm_call list \<Rightarrow> world \<Rightarrow> world" where
  "vm_session E K H root cs w = fold (\<lambda>c w. snd (vm_run E K H root c w)) cs w"

lemma keeps_session:
  assumes "\<And>c. c \<in> set cs \<Longrightarrow> keeps P (vm_run E K H root c)" and "P w"
  shows "P (vm_session E K H root cs w)"
  using assms
proof (induction cs arbitrary: w)
  case (Cons c cs)
  have "P (snd (vm_run E K H root c w))"
    using keepsD [OF Cons.prems(1) [of c] _ Cons.prems(2)] by (metis list.set_intros(1) prod.collapse)
  with Cons show ?case by (simp add: vm_session_def)
qed (simp add: vm_session_def)

abbreviation fixed :: "pathbuf \<Rightarrow> fpath \<Rightarrow> node option \<Rightarrow> world \<Rightarrow> bool" where
  "fixed root q x \<equiv> (\<lambda>w. records_at (record_clear root q) root w \<and> tlookup (fs w) q = x)"

lemma record_clear_neutral:
  assumes "writes_no_records H" and "leaves_file H q"
  shows "host_neutral (fixed root q x) H"
proof -
  have "host_neutral (records_at (record_clear root q) root) H" by (rule records_at_neutral [OF assms(1)])
  with leaves_file_neutral [OF assms(2)] show ?thesis by (simp add: host_neutral_def idle_neutral_def)
qed

lemma steps_keep_both: "steps_keep R P E K H root \<Longrightarrow> steps_keep R Q E K H root \<Longrightarrow> steps_keep R (\<lambda>w. P w \<and> Q w) E K H root"
  by (simp add: steps_keep_def host_neutral_def idle_neutral_def runtime_files_plain_def plain_at_def keeps_conj)

lemma keeps_fixed_run:
  assumes root: "root_plain root" and q: "(resolve root @ [''vms'']) \<parallel> q"
    and host: "writes_no_records H" "leaves_file H q" "residue_within E" "foreign_ok (record_clear root q) E"
    and c: "vm_call_clear q c"
  shows "keeps (fixed root q x) (vm_run E K H root c)"
proof (rule clear.keeps_run [OF host(4)])
  let ?still = "\<lambda>w. tlookup (fs w) q = x"
  have "steps_keep (record_clear root q) ?still E K H root"
    using keeps_persist_beside [OF root _ q] runtime_files_clear [OF _ q] keeps_layout_clear [OF _ q]
      keeps_detach_beside leaves_file_neutral [OF host(2)]
    by (auto simp: steps_keep_def record_clear_def)
  then show "steps_keep (record_clear root q) (fixed root q x) E K H root"
    by (intro steps_keep_both clear.steps_keep_records records_at_neutral host)
  have "call_keeps ?still E K root (policy_clear q) c"
    using c beside_vms [OF q] keeps_load_ebpf_clear
    by (auto simp: call_keeps_def vm_call_clear_def policy_clear_def split: vm_call.splits intro: keeps_parallel)
  moreover have "call_keeps (records_at (record_clear root q) root) E K root (policy_clear q) c"
    using c by (intro clear.call_keeps_records host) (auto simp: vm_call_clear_def split: vm_call.splits)
  ultimately show "call_keeps (fixed root q x) E K root (policy_clear q) c"
    by (auto simp: call_keeps_def keeps_conj split: vm_call.splits)
qed simp


lemma tlookup_single:
  "tlookup (Dir [(n, t)]) p = Some (RegFile c) \<longleftrightarrow> (\<exists>q. p = n # q \<and> tlookup t q = Some (RegFile c))"
  by (cases p) auto

definition shared_world :: world where
  "shared_world = dir_world (Dir [(''r'', Dir [(''forks'', Dir [(''f'', Dir [(''x'', RegFile (Raw [7]))])])])])"

definition sample_calls :: "vm_call list" where
  "sample_calls = [CallProvision (sample_spec ''p''),
     CallSecret ''p'' \<lparr>secret_name = ''k'', scope = ''s'', expires_at = ''t'', secret_value = ''v''\<rparr>,
     CallTransition ''p'' Running sample_cfg, CallDestroy ''p'']"


end
