(* ===== verification/System.thy ===== *)
theory System
  imports Footprint VmFootprint
begin

text \<open>
  The whole program on one data root: commands of the workspace engine and calls of the supervisor,
  in any order. The contract of the guest boundary is interpreted a third time, for the invariants of
  both parts at once; with the records under it the VM tier of the benchmark is covered as well.
\<close>

section \<open>Files that are not records\<close>

text \<open>A predicate on files that only records of VMs can break.\<close>

definition only_records :: "(fpath \<Rightarrow> content \<Rightarrow> bool) \<Rightarrow> bool" where
  "only_records Q \<longleftrightarrow> (\<forall>q c. (\<forall>r. c \<noteq> VmJson r) \<longrightarrow> Q q c)"

definition no_new_records :: "node \<Rightarrow> node \<Rightarrow> bool" where
  "no_new_records t t' \<longleftrightarrow>
     (\<forall>q r. tlookup t' q = Some (RegFile (VmJson r)) \<longrightarrow> tlookup t q = Some (RegFile (VmJson r)))"

definition engine_ok :: "(fpath \<Rightarrow> content \<Rightarrow> bool) \<Rightarrow> env \<Rightarrow> pathbuf \<Rightarrow> bool" where
  "engine_ok Q E rt \<longleftrightarrow> only_records Q \<and> residue_within E \<and> flush_ok E rt"

lemma files_ok_no_new:
  assumes "only_records Q" and "no_new_records (fs w) (fs w')" and "files_ok Q w"
  shows "files_ok Q w'"
  unfolding files_ok_def
proof (intro allI impI)
  fix q c
  assume at: "tlookup (fs w') q = Some (RegFile c)"
  show "Q q c"
  proof (cases "\<exists>r. c = VmJson r")
    case True
    with at assms(2) have "tlookup (fs w) q = Some (RegFile c)" by (auto simp: no_new_records_def)
    with assms(3) show ?thesis by (rule files_okD)
  next
    case False
    with assms(1) show ?thesis by (simp add: only_records_def)
  qed
qed

lemma files_blind:
  "mtab_blind (files_ok Q)" "print_blind (files_ok Q)" "fds_blind (files_ok Q)" "tc_blind (files_ok Q)"
  "files_ok Q (w\<lparr>xattrs := x\<rparr>) = files_ok Q w" "files_ok Q (w\<lparr>rawout := b\<rparr>) = files_ok Q w"
  "files_ok Q (w\<lparr>trace := l\<rparr>) = files_ok Q w"
  by (simp_all add: mtab_blind_def print_blind_def fds_blind_def tc_blind_def files_ok_def)

lemma keeps_files:
  assumes "engine_ok Q E rt"
  shows "keeps (files_ok Q) (create_dir_all E p)" "keeps (files_ok Q) (remove_dir E p)"
    "keeps (files_ok Q) (remove_dir_all E p)" "keeps (files_ok Q) (remove_file E p)"
    "(\<And>r. c \<noteq> VmJson r) \<Longrightarrow> keeps (files_ok Q) (place_file E op err p c)"
    "keeps (files_ok Q) (registry_open E rt)"
  using assms
  by (auto simp: engine_ok_def only_records_def registry_open_def intro: keeps_files_ok keeps_files_ok_remove)

lemma keeps_files_registry:
  assumes ok: "engine_ok Q E rt"
  shows "keeps (files_ok Q) (with_exclusive_lock E rt f)"
proof -
  have flush: "keeps (files_ok Q) (bindE (asks (fault E FlushOp (registry_path rt))) (\<lambda>lost.
      place_file E PersistOp (PersistError (registry_path rt)) (registry_path rt)
        (if lost = None then RegistryJson d else torn E (RegistryJson d))))" for d
    by (rule keeps_bindE_result [OF keeps_asks])
       (use ok in \<open>auto simp: asks_run engine_ok_def flush_ok_def intro: keeps_files [OF ok]\<close>)
  have "keeps (files_ok Q) (write_doc E rt d)" for d
    unfolding write_doc_def Let_def
    by (rule keeps_bindE [OF keeps_temp_file], rule keeps_bindE [OF _ flush]) (intro keeps_intros)
  then show ?thesis
    unfolding with_exclusive_lock_def lock_acquire_def
    by (intro keeps_intros keeps_files [OF ok]) simp_all
qed

section \<open>The engine keeps the records\<close>

lemma files_fork:
  assumes ok: "engine_ok Q E rt"
  shows "keeps (files_ok Q) (fork_base E bk k rt qb)" "keeps (files_ok Q) (discard_fork E k rt)"
    "keeps (files_ok Q) (mount_path E k rt)" "keeps (files_ok Q) (unmount_fork E k rt)"
proof -
  have quota: "keeps (files_ok Q) (fork_quota_mode E rt k u b)" for u b
    by (rule keeps_xattr_blind) (rule files_blind)
  note parts = keeps_files [OF ok] keeps_files_registry [OF ok] keeps_mtab_blind [OF files_blind(1)]
    keeps_print_blind [OF files_blind(2)]
  show "keeps (files_ok Q) (fork_base E bk k rt qb)"
    unfolding fork_base_def insert_fork_def Let_def by (intro keeps_intros keeps_get parts quota)
  show "keeps (files_ok Q) (discard_fork E k rt)"
    unfolding discard_fork_def discard_entry_def remove_fork_def
    by (intro keeps_intros keeps_get parts)
  show "keeps (files_ok Q) (mount_path E k rt)"
    unfolding mount_path_def mount_fresh_def insert_fork_def Let_def by (intro keeps_intros keeps_get parts)
  show "keeps (files_ok Q) (unmount_fork E k rt)"
    unfolding unmount_fork_def insert_fork_def by (intro keeps_intros keeps_get parts)
qed

lemma files_build:
  assumes ok: "engine_ok Q E rt"
    and unpack: "\<And>blob n. no_new_records n (snd (unpack_into L blob n))"
  shows "keeps (files_ok Q) (build_base L E src bk rt)"
proof -
  have un: "keeps (files_ok Q) (unpack_archive L dir blob)" for dir blob
  proof (rule keepsI)
    fix w r w'
    assume run: "unpack_archive L dir blob w = (r, w')" and inv: "files_ok Q w"
    have part: "files_ok Q (w\<lparr>fs := t\<rparr>)"
      if n: "tlookup (fs w) (resolve dir) = Some n" and t: "tset (resolve dir) (snd (unpack_into L blob n)) (fs w) = Some t" for n t
    proof (rule files_ok_set [OF inv t])
      fix q c
      assume at: "tlookup (snd (unpack_into L blob n)) q = Some (RegFile c)"
      show "Q (resolve dir @ q) c"
      proof (cases "\<exists>r. c = VmJson r")
        case True
        with at unpack [of n blob] have "tlookup n q = Some (RegFile c)" unfolding no_new_records_def by blast
        with n have "tlookup (fs w) (resolve dir @ q) = Some (RegFile c)" by (simp add: tlookup_append)
        with inv show ?thesis by (rule files_okD)
      next
        case False
        with ok show ?thesis by (simp add: engine_ok_def only_records_def)
      qed
    qed
    show "files_ok Q w'"
    proof (cases "tlookup (fs w) (resolve dir)")
      case (Some n)
      with run have "w' = (case tset (resolve dir) (snd (unpack_into L blob n)) (fs w) of None \<Rightarrow> w | Some t \<Rightarrow> w\<lparr>fs := t\<rparr>)"
        by (simp add: unpack_archive_def case_prod_beta)
      with inv part [OF Some] show ?thesis by (cases "tset (resolve dir) (snd (unpack_into L blob n)) (fs w)") simp_all
    qed (use run inv in \<open>simp add: unpack_archive_def\<close>)
  qed
  have caches: "keeps (files_ok Q) (extract_caches L E s bk rt ns ps xs)" for s ns ps xs
  proof (induction ns arbitrary: ps xs)
    case (Cons n ns)
    show ?case unfolding extract_caches.simps Let_def by (intro keeps_intros keeps_files [OF ok] un Cons.IH)
  qed (auto intro: keeps_intros)
  show ?thesis
    unfolding build_base_def canonical_def build_fresh_def store_blob_def write_atomic_def insert_base_def Let_def case_prod_beta
    by (intro keeps_intros keeps_get keeps_files [OF ok] keeps_files_registry [OF ok] un caches) simp_all
qed

lemma files_reads:
  assumes ok: "engine_ok Q E rt"
  shows "keeps (files_ok Q) (diff_fork E k rt)" "keeps (files_ok Q) (du_fork E k rt)"
    "keeps (files_ok Q) (export_patch T E k rt out)" "keeps (files_ok Q) (run_gc E rt opts)"
proof -
  have out: "keeps (files_ok Q) (modify (\<lambda>w. w\<lparr>rawout := rawout w @ bytes\<rparr>))" for bytes
    by (rule keeps_modify) (simp add: files_blind)
  have sweep: "keeps (files_ok Q) (gc_sweep E rt ks bytes ev)" for ks bytes ev
  proof (induction ks arbitrary: bytes ev)
    case (Cons k ks)
    show ?case unfolding gc_sweep.simps by (intro keeps_intros files_fork [OF ok] Cons)
  qed (auto intro: keeps_intros)
  note parts = keeps_files [OF ok] keeps_print_blind [OF files_blind(2)] files_blind(2)
  show "keeps (files_ok Q) (diff_fork E k rt)"
    unfolding diff_fork_def by (intro keeps_intros keeps_get parts)
  show "keeps (files_ok Q) (du_fork E k rt)"
    unfolding du_fork_def Let_def by (intro keeps_intros keeps_get parts)
  show "keeps (files_ok Q) (export_patch T E k rt out)"
    unfolding export_patch_def Let_def by (intro keeps_intros keeps_get parts out) simp_all
  show "keeps (files_ok Q) (run_gc E rt opts)"
    unfolding run_gc_def Let_def by (intro keeps_intros keeps_get parts sweep)
qed

lemma files_exec:
  assumes ok: "engine_ok Q E rt"
    and spawn: "\<And>c args w. no_new_records (fs w) (fs (snd (spawn_wait C c args w)))"
  shows "keeps (files_ok Q) (run_exec E K C tmp k command rt opts)"
proof -
  have only: "only_records Q" using ok by (simp add: engine_ok_def)
  have special: "files_ok Q (w\<lparr>fs := t\<rparr>)" if "files_ok Q w" "tset p n (fs w) = Some t" "n = Special \<or> n = Dir []" for w p n t
    using that(3) by (intro files_ok_set [OF that(1,2)]) (auto elim: tlookup.elims)
  have "keeps (files_ok Q) (sys_bpf_pin K fd p)" for fd p
    by (auto simp: keeps_def sys_bpf_pin_def split: option.splits if_splits intro: special)
  then have attach: "keeps (files_ok Q) (guest_attach E K pol)" for pol
    unfolding guest_attach_def attach_tracepoint_def attach_cgroup_def attach_pin_def or_none_def id_prefix_def
      pin_guest_bpf_prog_def load_guest_bpf_prog_def Let_def
    by (intro keeps_intros keeps_files [OF ok] keeps_fds_blind files_blind)
  have detach: "keeps (files_ok Q) (guest_detach E l)" for l
    unfolding guest_detach_def close_opt_def unpin_guest_def remove_parent_dir_def
    by (intro keeps_intros keeps_files [OF ok] keeps_fds_blind files_blind)
  have start: "keeps (files_ok Q) (crun_start C p k b)" for p b
  proof (rule keepsI)
    fix w r w'
    assume "crun_start C p k b w = (r, w')" and inv: "files_ok Q w"
    then have "w' = snd (spawn_wait C p [''run'', ''--bundle'', b, k] w)"
      unfolding crun_start_def by (simp split: prod.splits sum.splits)
    with spawn files_ok_no_new [OF only _ inv] show "files_ok Q w'" by simp
  qed
  have emit: "keeps (files_ok Q) (emit_audit_event E l ev d)" for l ev d
    unfolding emit_audit_event_def by (rule keeps_modify) (simp add: files_blind)
  have body: "keeps (files_ok Q) (exec_in_bundle E K C k command m opts b)" for m b
    unfolding exec_in_bundle_def crun_create_def crun_delete_def fs_write_json_def
    by (intro keeps_intros keeps_files [OF ok] attach detach start emit) simp_all
  have "keeps (files_ok Q) (make_tempdir E tmp)"
    by (auto simp: keeps_def make_tempdir_def Let_def split: option.splits intro: special)
  then have "keeps (files_ok Q) (with_tempdir E tmp (exec_in_bundle E K C k command m opts))" for m
    unfolding with_tempdir_def
    by (rule keeps_bindE)
       (auto simp: keeps_def split: prod.splits dest: keepsD [OF body] intro: keeps_remove_dir_all_snd [OF keeps_files(3) [OF ok]])
  then show ?thesis unfolding run_exec_def by (intro keeps_intros keeps_files [OF ok])
qed

section \<open>Both invariants\<close>

definition registry_file :: "pathbuf \<Rightarrow> fpath" where
  "registry_file rt = resolve rt @ [''registry.json'']"

text \<open>The registry is sound, and the records of the VMs are, with pins that lie beside the registry.\<close>

definition sound :: "env \<Rightarrow> pathbuf \<Rightarrow> world \<Rightarrow> bool" where
  "sound E rt w \<longleftrightarrow> reg_inv E rt w \<and> records_at (record_clear rt (registry_file rt)) rt w"

text \<open>
  What is taken of the platform of a command or call: the hypotheses of the two parts, and that
  containers, spawned programs and unpacked archives bring no VM record in.
\<close>

definition system_ok :: "platform \<Rightarrow> pathbuf \<Rightarrow> bool" where
  "system_ok P rt \<longleftrightarrow>
     platform_base P rt \<and> root_plain rt \<and> residue_within (p_env P) \<and>
     foreign_ok (record_clear rt (registry_file rt)) (p_env P) \<and>
     writes_no_records (p_vmm P) \<and> leaves_file (p_vmm P) (registry_file rt) \<and>
     (\<forall>blob n. no_new_records n (snd (unpack_into (p_pack P) blob n))) \<and>
     (\<forall>c args w. no_new_records (fs w) (fs (snd (spawn_wait (p_containers P) c args w)))) \<and>
     (\<forall>p args w. no_new_records (fs w) (fs (snd (b_spawn (p_bench P) p args w))))"

lemma system_okD:
  assumes "system_ok P rt"
  shows "platform_base P rt" "flush_ok (p_env P) rt" "spawns_leave (p_env P) rt (p_bench P)" "hex_ok (p_pack P)"
  using assms by (simp_all add: system_ok_def platform_base_def)

lemma vms_beside_registry: "(resolve rt @ [''vms'']) \<parallel> registry_file rt"
  using parallel_snoc [of "''vms''" "''registry.json''" "resolve rt" "[]" "[]"] by (simp add: registry_file_def)

lemma keeps_map_ret: "keeps P (bindE m (\<lambda>a. ret (f a))) \<longleftrightarrow> keeps P m"
  by (auto simp: keeps_def bindE_def ret_def split: prod.splits sum.splits) (metis sum.exhaust)+

lemma keeps_sound_fixed:
  assumes "\<And>x. keeps (fixed rt (registry_file rt) x) m"
  shows "keeps (sound E rt) m"
proof (rule keepsI)
  fix w r w'
  assume run: "m w = (r, w')" and s: "sound E rt w"
  then have "fixed rt (registry_file rt) (tlookup (fs w) (registry_file rt)) w'"
    by (intro keepsD [OF assms run]) (simp add: sound_def)
  moreover from this have "doc_at E rt w' = doc_at E rt w"
    by (intro doc_at_cong) (simp add: registry_file_def)
  ultimately show "sound E rt w'" using s by (simp add: sound_def reg_inv_def)
qed

lemma sound_call:
  assumes "system_ok P rt" and "vm_call_clear (registry_file rt) c"
  shows "keeps (sound E rt) (vm_run (p_env P) K (p_vmm P) rt c)"
  using assms
  by (intro keeps_sound_fixed keeps_fixed_run) (simp_all add: system_ok_def vms_beside_registry)

lemma sound_vm_ops:
  assumes "system_ok P rt"
  shows "keeps (sound E rt) (provision_project_vm (p_env P) rt spec)"
    and "keeps (sound E rt) (transition_vm_state (p_env P) K (p_vmm P) rt pid st)"
    and "validate_project_id pid = Inr () \<Longrightarrow> keeps (sound E rt) (destroy_project_vm (p_env P) K rt pid)"
  using sound_call [OF assms, of "CallProvision spec"] sound_call [OF assms, of "CallDestroy pid" E K]
    sound_call [OF assms, of "CallTransition pid st default_fc_config" E K]
  by (simp_all add: vm_run_def vm_call_clear_def keeps_map_ret transition_vm_state_def)

lemma sound_conj:
  assumes "keeps (reg_inv E rt) m" and "\<And>Q. only_records Q \<Longrightarrow> keeps (files_ok Q) m"
  shows "keeps (sound E rt) m"
proof -
  have "keeps (records_at R rt) m" for R
    unfolding records_at_def by (rule assms(2)) (simp add: only_records_def split: content.splits)
  with assms(1) have "keeps (\<lambda>w. reg_inv E rt w \<and> records_at (record_clear rt (registry_file rt)) rt w) m"
    by (intro keeps_conj)
  then show ?thesis by (simp add: sound_def [abs_def])
qed

lemma sound_print: "print_blind (sound E rt)"
  using print_blind_inv [of E rt] files_blind(2)
  by (simp add: print_blind_def sound_def records_at_def)

section \<open>The benchmark with its VM tier\<close>

lemma bench_vm_id: "validate_project_id (''bench-vm-'' @ show_nat n) = Inr ()"
proof -
  let ?id = "''bench-vm-'' @ show_nat n"
  have digits: "c \<in> set (show_nat n) \<Longrightarrow> is_digit c" for c by (rule show_nat_digits)
  have "c \<notin> set ?id" if "c \<in> {slash, CHR 0x5C, CHR ''.''}" for c
    using that by (auto dest!: show_nat_digits simp: is_digit_range)
  moreover have "trim ?id = ?id"
    using digits is_digit_not_ws by (intro trim_no_ws) (auto simp: is_ws_def)
  ultimately show ?thesis
    using set_mono_sublist [of "''..''" ?id] by (auto simp: validate_project_id_def contains_str_iff simp del: append_Cons)
qed

lemma sound_spawn:
  assumes "system_ok P rt"
  shows "keeps (sound (p_env P) rt) (spawn_status (p_bench P) p args)"
proof (rule sound_conj [OF keeps_inv_spawn [OF system_okD(3) [OF assms]]], rule keepsI)
  fix Q w r w'
  assume only: "only_records Q" and run: "spawn_status (p_bench P) p args w = (r, w')" and inv: "files_ok Q w"
  have "w' = snd (b_spawn (p_bench P) p args w)"
    using run unfolding spawn_status_def by (simp split: prod.splits sum.splits)
  with assms files_ok_no_new [OF only _ inv] show "files_ok Q w'" by (simp add: system_ok_def)
qed

lemma keeps_try_result: "keeps P m \<Longrightarrow> keeps P (try_result m)"
  unfolding try_result_def by (auto intro!: keeps_intros split: sum.splits error.splits)

lemma sound_vm_bench:
  assumes ok: "system_ok P rt"
  shows "keeps (sound (p_env P) rt) (run_vm_bench (p_env P) K (p_vmm P) (p_bench P) rt n)"
proof -
  let ?S = "sound (p_env P) rt"
  have print: "keeps ?S (eprintln (p_env P) j)" for j by (rule keeps_print_blind [OF sound_print])
  have boot: "keeps ?S (measure_firecracker_boot (p_env P) K (p_vmm P) (p_bench P) rt)"
    unfolding measure_firecracker_boot_def timed_def
    by (rule keeps_asks_bind) (intro keeps_intros keeps_asks_bind keeps_try_result sound_vm_ops ok bench_vm_id)
  have samples: "keeps ?S (sample_loop (p_env P) what m k is xs)" if "keeps ?S m" for what m k "is" xs
  proof (induction "is" arbitrary: xs)
    case (Cons i "is")
    show ?case unfolding sample_loop.simps progress_def by (intro keeps_intros print that Cons)
  qed (auto intro: keeps_intros)
  have spawn: "keeps ?S (spawn_status (p_bench P) p args)" for p args by (rule sound_spawn [OF ok])
  have ebpf: "keeps ?S (ebpf_loop (p_env P) (p_bench P) k is d)" for k "is" d
  proof (induction "is" arbitrary: d)
    case (Cons i "is")
    show ?case unfolding ebpf_loop.simps progress_def probe_step_def timed_def
      by (intro keeps_intros keeps_asks_bind print spawn Cons)
  qed (auto intro: keeps_intros)
  have crun: "keeps ?S (measure_crun_startup_in_vm (p_bench P))"
    unfolding measure_crun_startup_in_vm_def timed_def or_else_def by (intro keeps_intros keeps_asks_bind spawn)
  show ?thesis
    unfolding run_vm_bench_def kvm_accessible_def completed_def measure_ebpf_overhead_def Let_def
    by (intro keeps_intros keeps_same_percentiles samples boot crun ebpf print)
qed

lemma system_engine: "system_ok P rt \<Longrightarrow> only_records Q \<Longrightarrow> engine_ok Q (p_env P) rt"
  by (simp add: system_ok_def engine_ok_def platform_base_def)

lemma sound_fork:
  assumes ok: "system_ok P rt"
  shows "seg_ok k \<Longrightarrow> keeps (sound (p_env P) rt) (fork_base (p_env P) bk k rt qb)"
    and "keeps (sound (p_env P) rt) (discard_fork (p_env P) k rt)"
    and "keeps (sound (p_env P) rt) (mount_path (p_env P) k rt)"
    and "keeps (sound (p_env P) rt) (unmount_fork (p_env P) k rt)"
    and "keeps (sound (p_env P) rt) (registry_open (p_env P) rt)"
  by (intro sound_conj files_fork [OF system_engine [OF ok]] keeps_files [OF system_engine [OF ok]]
      keeps_inv_fork keeps_inv_discard keeps_inv_mount_path keeps_inv_unmount keeps_inv_open system_okD(2) [OF ok]; assumption)+

lemma sound_reads:
  assumes ok: "system_ok P rt"
  shows "keeps (sound (p_env P) rt) (diff_fork (p_env P) k rt)"
    and "keeps (sound (p_env P) rt) (du_fork (p_env P) k rt)"
    and "(\<And>f. out = Some f \<Longrightarrow> outside_registry rt f) \<Longrightarrow> keeps (sound (p_env P) rt) (export_patch T (p_env P) k rt out)"
    and "keeps (sound (p_env P) rt) (run_gc (p_env P) rt opts)"
  by (intro sound_conj files_reads [OF system_engine [OF ok]] keeps_inv_reads keeps_inv_export keeps_inv_gc
      system_okD(2) [OF ok]; blast)+

lemma sound_build:
  assumes ok: "system_ok P rt" and k: "seg_ok k"
  shows "keeps (sound (p_env P) rt) (build_base (p_pack P) (p_env P) src k rt)"
  by (rule sound_conj [OF keeps_inv_build_base [OF k system_okD(4,2) [OF ok]] files_build [OF system_engine [OF ok]]])
     (use ok in \<open>simp_all add: system_ok_def\<close>)

lemma sound_exec:
  assumes ok: "system_ok P rt"
  shows "keeps (sound (p_env P) rt) (run_exec (p_env P) (p_kern P) (p_containers P) (p_tmp P) k command rt opts)"
  by (rule sound_conj [OF keeps_inv_exec [OF system_okD(1) [OF ok]] files_exec [OF system_engine [OF ok]]])
     (use ok in \<open>simp_all add: system_ok_def\<close>)

lemma sound_bench:
  assumes ok: "system_ok P rt"
  shows "keeps (sound (p_env P) rt) (run_bench (p_env P) K (p_vmm P) (p_bench P) bk rt opts)"
proof -
  let ?S = "sound (p_env P) rt"
  have print: "keeps ?S (eprintln (p_env P) j)" for j by (rule keeps_print_blind [OF sound_print])
  have spawn: "keeps ?S (spawn_status (p_bench P) p args)" for p args by (rule sound_spawn [OF ok])
  have forks: "keeps ?S (fork_loop (p_env P) (p_bench P) bk rt n is xs)" for n "is" xs
  proof (induction "is" arbitrary: xs)
    case (Cons i "is")
    show ?case unfolding fork_loop.simps progress_def timed_def
      by (intro keeps_intros keeps_asks_bind print sound_fork ok Cons.IH seg_ok_bench_id) simp
  qed (auto intro: keeps_intros)
  have execs: "keeps ?S (exec_loop (p_env P) (p_bench P) bk rt n is xs)" for n "is" xs
  proof (induction "is" arbitrary: xs)
    case (Cons i "is")
    show ?case unfolding exec_loop.simps progress_def timed_def exec_status_def or_else_def Let_def
      by (intro keeps_intros keeps_asks_bind print spawn sound_fork ok Cons.IH seg_ok_bench_id) simp
  qed (auto intro: keeps_intros)
  show ?thesis
    unfolding run_bench_def exec_stats_def completed_def Let_def
    by (intro keeps_intros keeps_get keeps_same_percentiles forks execs print sound_fork sound_vm_bench ok)
qed

interpretation whole: guest_boundary local_guest system_ok "\<lambda>P. sound (p_env P)" seg_ok outside_registry True
  by unfold_locales
     (auto simp: local_guest_def sound_build sound_exec sound_print
       intro: keeps_bindE keeps_ret sound_fork sound_reads sound_bench)

section \<open>Sequences of commands and calls\<close>

text \<open>
  The worlds that any number of commands and supervisor calls lead to, from a data root without a
  registry or a record. Each step has a platform of its own; between steps others may do what leaves
  the registry file and adds no record. What a JSON file means is the same for all.
\<close>

inductive sys_reach :: "env \<Rightarrow> pathbuf \<Rightarrow> world \<Rightarrow> bool" for E0 rt where
  fresh: "tlookup (fs w) (resolve (registry_path rt)) = None \<Longrightarrow> (\<And>q r. tlookup (fs w) q \<noteq> Some (RegFile (VmJson r))) \<Longrightarrow>
    sys_reach E0 rt w"
| command: "sys_reach E0 rt w \<Longrightarrow> system_ok P rt \<Longrightarrow> parse_registry (p_env P) = parse_registry E0 \<Longrightarrow>
    command_ok seg_ok (outside_registry rt) True c \<Longrightarrow> fastenv_main P rt c w = (s, w') \<Longrightarrow> sys_reach E0 rt w'"
| call: "sys_reach E0 rt w \<Longrightarrow> system_ok P rt \<Longrightarrow> vm_call_clear (registry_file rt) vc \<Longrightarrow>
    vm_run (p_env P) (p_kern P) (p_vmm P) rt vc w = (res, w') \<Longrightarrow> sys_reach E0 rt w'"
| others: "sys_reach E0 rt w \<Longrightarrow> doc_at E0 rt w' = doc_at E0 rt w \<Longrightarrow> no_new_records (fs w) (fs w') \<Longrightarrow> sys_reach E0 rt w'"

lemma sound_parse: "parse_registry E = parse_registry E' \<Longrightarrow> sound E rt = sound E' rt"
  using reg_inv_parse [of E E' rt] by (simp add: sound_def [abs_def])

lemma sys_reach_sound: "sys_reach E0 rt w \<Longrightarrow> sound E0 rt w"
proof (induction rule: sys_reach.induct)
  case (fresh w)
  then have "reg_inv E0 rt w" by (intro cli_reach_inv cli_reach.fresh)
  with fresh(2) show ?case by (simp add: sound_def records_at_iff)
next
  case (command w P c s w')
  then obtain r where run: "run_command (p_env P) (local_guest P) rt c w = (r, w')"
    by (auto simp: fastenv_main_def split: prod.splits)
  from keepsD [OF whole.keeps_command [OF command(2,4)] run] command.IH show ?case
    by (simp add: sound_parse [OF command(3)])
next
  case (call w P vc res w')
  from keepsD [OF sound_call [OF call(2,3)] call(4)] call.IH show ?case .
next
  case (others w w')
  then show ?case
    unfolding sound_def records_at_iff no_new_records_def reg_inv_def by metis
qed

lemma forks_beside_vms:
  assumes "seg_ok k" and "validate_project_id pid = Inr ()"
  shows "resolve (fork_dir rt k) \<parallel> resolve (vm_dir rt pid)"
proof -
  obtain d where "resolve (vm_dir rt pid) = resolve rt @ ''vms'' # d" using resolve_valid_dir [OF assms(2)] by blast
  then show ?thesis
    using parallel_snoc [of "''forks''" "''vms''" "resolve rt" "[k]" d] by (simp add: resolve_fork_paths [OF assms(1)])
qed


lemma system_ok_sample: "system_ok sample_platform ''/d''"
proof -
  have d: "resolve ''/d'' = [''d'']" and root: "root_plain ''/d''" by code_simp+
  have "[''r'', ''vms'', ''p'', ''firecracker.sock''] \<parallel> registry_file ''/d''" by (simp add: registry_file_def d parallel_Cons)
  then have "leaves_file (sample_vmm []) (registry_file ''/d'')"
    by (auto simp: leaves_file_def sample_vmm_def curl_answers_def fc_sock_made_def tset_parallel split: option.splits)
  moreover have "residue_within quiet_env" "foreign_ok R quiet_env" for R
    by (simp_all add: foreign_ok_def quiet_env_def no_vm_def residue_within_def nothing_removed_def)
  moreover have "no_new_records t t" for t by (simp add: no_new_records_def)
  moreover have "platform_base sample_platform ''/d''" using platform_ok_sample by (simp add: platform_ok_def)
  ultimately show ?thesis
    using root sample_writes_no_records
    by (simp add: system_ok_def sample_platform_def plain_pack_def quiet_host_def killed_child_def sample_bench_def spawn_all_def)
qed

definition provisioned_world :: world where
  "provisioned_world = snd (vm_run quiet_env quiet_kern (sample_vmm []) ''/d'' (CallProvision (sample_spec ''p'')) built_world)"

lemma file_below_none: "tlookup (Dir []) p \<noteq> Some (RegFile c)"
  by (cases p) simp_all

lemma file_below:
  "tlookup (Dir ((n, t) # es)) p = Some (RegFile c) \<Longrightarrow>
   (\<exists>q. tlookup t q = Some (RegFile c)) \<or> tlookup (Dir es) p = Some (RegFile c)"
  by (cases p) (auto split: if_splits)

lemma sys_reach_provisioned: "sys_reach quiet_env ''/d'' provisioned_world"
proof -
  have cmd: "sys_reach quiet_env ''/d'' (snd (sample_main c w))"
    if "sys_reach quiet_env ''/d'' w" "command_ok seg_ok (outside_registry ''/d'') True c" for c w
    by (rule sys_reach.command [OF that(1) system_ok_sample _ that(2), of "fst (sample_main c w)"])
       (simp_all add: sample_platform_def sample_main_def)
  have "sys_reach quiet_env ''/d'' source_world"
    by (rule sys_reach.fresh)
       (auto simp: source_world_def dir_world_def tlookup_RegFile file_below_none dest!: file_below)
  then have built: "sys_reach quiet_env ''/d'' built_world"
    unfolding built_world_def by (intro cmd) (simp_all add: command_ok_def seg_ok_def)
  show ?thesis
    unfolding provisioned_world_def
    by (rule sys_reach.call [OF built system_ok_sample, of "CallProvision (sample_spec ''p'')"])
       (auto simp: sample_platform_def vm_call_clear_def intro: prod.collapse [symmetric])
qed


end
